theory Spec2Isabelle
  imports Main "HOL-Library.Word"
begin

unbundle bit_operations_syntax

section \<open>Machine types and PCI constants\<close>

type_synonym u8 = "8 word"
type_synonym u16 = "16 word"
type_synonym u32 = "32 word"
type_synonym u64 = "64 word"

text \<open>
  The register offsets and sizes below are the ones of the PCI headers that
  \<^verbatim>\<open>hw/vfio.c\<close> includes (\<^verbatim>\<open>pci/header.h\<close>, \<^verbatim>\<open>hw/pci.h\<close>); they are fixed by the
  PCI Local Bus specification.
\<close>

definition PCI_CONFIG_SPACE_SIZE :: nat where "PCI_CONFIG_SPACE_SIZE = 0x100"
definition PCI_CONFIG_HEADER_SIZE :: nat where "PCI_CONFIG_HEADER_SIZE = 0x40"
definition PCI_CAP_SIZEOF :: nat where "PCI_CAP_SIZEOF = 4"
definition PCI_STATUS :: nat where "PCI_STATUS = 0x06"
definition PCI_STATUS_CAP_LIST :: u8 where "PCI_STATUS_CAP_LIST = 0x10"
definition PCI_CAPABILITY_LIST :: u8 where "PCI_CAPABILITY_LIST = 0x34"
definition PCI_CAP_LIST_ID :: nat where "PCI_CAP_LIST_ID = 0"
definition PCI_CAP_LIST_NEXT :: u8 where "PCI_CAP_LIST_NEXT = 1"

section \<open>Capability scanner: \<^verbatim>\<open>vfio_find_cap_offset\<close>\<close>

text \<open>
  The cached config image \<^verbatim>\<open>pdev->config\<close> is a byte array of at least
  \<^verbatim>\<open>PCI_CONFIG_SPACE_SIZE\<close> bytes; the scanner indexes it with a \<^verbatim>\<open>uint8_t\<close>, so
  every read is in range. It is modelled as a function from byte offsets.
\<close>

type_synonym config_image = "nat \<Rightarrow> u8"

definition max_cap :: nat where
  "max_cap = (PCI_CONFIG_SPACE_SIZE - PCI_CONFIG_HEADER_SIZE) div PCI_CAP_SIZEOF"

text \<open>
  The body of \<^verbatim>\<open>while (max_cap--)\<close>. The first argument is the remaining value of
  the counter; the result is the returned offset together with the number of
  loop bodies that were entered.
\<close>

fun cap_loop :: "nat \<Rightarrow> config_image \<Rightarrow> u8 \<Rightarrow> u8 \<Rightarrow> u8 \<times> nat" where
  "cap_loop 0 cfg cap pos = (0, 0)"
| "cap_loop (Suc n) cfg cap pos =
     (let pos1 = cfg (unat pos) AND NOT 3 in
      if unat pos1 < PCI_CONFIG_HEADER_SIZE then (0, 1)
      else
        let id = cfg (unat pos1 + PCI_CAP_LIST_ID) in
        if id = 0xff then (0, 1)
        else if id = cap then (pos1, 1)
        else (case cap_loop n cfg cap (pos1 + PCI_CAP_LIST_NEXT) of
                (r, k) \<Rightarrow> (r, Suc k)))"

definition find_cap_run :: "config_image \<Rightarrow> u8 \<Rightarrow> u8 \<times> nat" where
  "find_cap_run cfg cap =
     (if cfg PCI_STATUS AND PCI_STATUS_CAP_LIST = 0 then (0, 0)
      else cap_loop max_cap cfg cap PCI_CAPABILITY_LIST)"

definition vfio_find_cap_offset :: "config_image \<Rightarrow> u8 \<Rightarrow> u8" where
  "vfio_find_cap_offset cfg cap = fst (find_cap_run cfg cap)"

text \<open>
  The capability list as the specification describes it: starting from a
  pointer register, mask the reserved bits, stop at a pointer into the
  standard header or at the terminator id \<^verbatim>\<open>0xff\<close>, otherwise record the
  capability's offset and continue with its next pointer. The list is cut
  after \<open>n\<close> entries.
\<close>

fun cap_chain :: "nat \<Rightarrow> config_image \<Rightarrow> u8 \<Rightarrow> u8 list" where
  "cap_chain 0 cfg ptr = []"
| "cap_chain (Suc n) cfg ptr =
     (let p = cfg (unat ptr) AND NOT 3 in
      if unat p < 0x40 \<or> cfg (unat p) = 0xff then []
      else p # cap_chain n cfg (p + 1))"

definition first_match :: "config_image \<Rightarrow> u8 \<Rightarrow> u8 list \<Rightarrow> u8" where
  "first_match cfg cap ps =
     (case find (\<lambda>p. cfg (unat p) = cap) ps of None \<Rightarrow> 0 | Some p \<Rightarrow> p)"


definition cap_slots :: "u8 set" where
  "cap_slots = {p. 0x40 \<le> unat p \<and> p AND 3 = 0}"

text \<open>
  Two concrete config images: a well-formed list \<^verbatim>\<open>0x40 (PM) -> 0x50 (MSI) -> 0x60 (MSI-X)\<close>,
  and a malformed one whose only capability points back to itself.
\<close>

definition example_config :: config_image where
  "example_config =
     (\<lambda>_. 0)(0x06 := 0x10, 0x34 := 0x40,
              0x40 := 0x01, 0x41 := 0x50,
              0x50 := 0x05, 0x51 := 0x60,
              0x60 := 0x11, 0x61 := 0x00)"

definition cyclic_config :: config_image where
  "cyclic_config = (\<lambda>_. 0)(0x06 := 0x10, 0x34 := 0x40, 0x40 := 0x01, 0x41 := 0x40)"

section \<open>Device state\<close>

text \<open>
  The structures of \<^verbatim>\<open>hw/vfio.c\<close>, with the fields the code reads and writes.
  Two fields are renamed because two structures use the same name:
  \<^verbatim>\<open>INTx.interrupt\<close> is \<open>intx_interrupt\<close> and \<^verbatim>\<open>MSIVector.interrupt\<close> is
  \<open>vec_interrupt\<close> (an \<^verbatim>\<open>EventNotifier\<close> is represented by its file descriptor);
  \<^verbatim>\<open>PCIResource.size\<close> is \<open>res_size\<close>.
\<close>

datatype int_mode = INT_NONE | INT_INTx | INT_MSI | INT_MSIX

record PCIHostDevice =
  seg :: u16
  bus :: u8
  dev :: "5 word"
  func :: "3 word"

record INTx =
  pending :: bool
  pin :: u8
  irq :: int
  intx_interrupt :: int

record MSIVector =
  vec_interrupt :: int
  vector :: nat

datatype map_func = MAP_IOMEM | MAP_IOPORT

record PCIIORegion =
  region_size :: nat
  region_type :: u32
  region_map :: map_func

record PCIResource =
  valid :: bool
  mem :: bool
  msix :: bool
  slow :: bool
  bar :: nat
  res_size :: nat
  msix_offset :: u32
  memory_index :: "nat \<Rightarrow> nat"
  r_virtbase :: "nat \<Rightarrow> nat"
  io_mem :: nat
  e_phys :: nat
  e_size :: nat
  res_vfiofd :: int

text \<open>
  \<^verbatim>\<open>PCIDevice\<close> belongs to the generic PCI framework; these are the parts of it
  that \<^verbatim>\<open>hw/vfio.c\<close> touches: the emulated config image, the capability
  locations, the MSI-X vector use counts, the BARs registered with
  \<^verbatim>\<open>pci_register_bar\<close> and the number of unplug requests sent with
  \<^verbatim>\<open>qdev_unplug\<close>.
\<close>

record PCIDevice =
  config :: config_image
  cap_present :: u32
  msi_cap :: u8
  msix_cap :: u8
  msix_entries_nr :: nat
  msix_entry_used :: "nat \<Rightarrow> nat"
  io_regions :: "nat \<Rightarrow> PCIIORegion option"
  unplug_requests :: nat

text \<open>
  \<open>remove_timer\<close> is \<open>Some t\<close> when the removal timer is armed to fire at
  time \<open>t\<close> (milliseconds of \<^verbatim>\<open>rt_clock\<close>).
\<close>

record VFIODevice =
  pdev :: PCIDevice
  vfiofd :: int
  intx :: INTx
  msi_cap_size :: nat
  msi_vectors :: "MSIVector list"
  nr_vectors :: nat
  interrupt :: int_mode
  resources :: "PCIResource list"
  host :: PCIHostDevice
  remove_timer :: "nat option"

section \<open>Hot-remove protocol handler: \<^verbatim>\<open>vfio_parse_netlink\<close>\<close>

text \<open>
  A received generic-netlink message: the port id of its sender
  (\<^verbatim>\<open>nlmsg_get_src(msg)->nl_pid\<close>), its command, and the four device-identity
  attributes as \<^verbatim>\<open>genlmsg_parse\<close> leaves them (\<open>None\<close> for an attribute that
  is absent). The only command the \<^verbatim>\<open>switch\<close> distinguishes is
  \<^verbatim>\<open>VFIO_MSG_REMOVE\<close>.
\<close>

datatype nl_cmd = VFIO_MSG_REMOVE | VFIO_MSG_OTHER nat

record nl_msg =
  nl_pid :: u32
  nl_cmd :: nl_cmd
  VFIO_ATTR_PCI_DOMAIN :: "u16 option"
  VFIO_ATTR_PCI_BUS :: "u8 option"
  VFIO_ATTR_PCI_SLOT :: "u8 option"
  VFIO_ATTR_PCI_FUNC :: "u8 option"

text \<open>
  The test inside \<^verbatim>\<open>QLIST_FOREACH\<close>. The bit-fields \<^verbatim>\<open>dev:5\<close> and \<^verbatim>\<open>func:3\<close> are
  promoted to \<^verbatim>\<open>int\<close> before the comparison.
\<close>

definition nl_match :: "u16 \<Rightarrow> u8 \<Rightarrow> u8 \<Rightarrow> u8 \<Rightarrow> VFIODevice \<Rightarrow> bool" where
  "nl_match s b d f vdev \<longleftrightarrow>
     s = seg (host vdev) \<and> b = bus (host vdev) \<and>
     unat d = unat (dev (host vdev)) \<and> unat f = unat (func (host vdev))"

text \<open>
  \<^verbatim>\<open>QLIST_FOREACH(vdev, &nl_list, nl_next) { if (...) break; }\<close>: the position of
  the first device of the registry with that identity, \<open>None\<close> when the loop
  ends with \<^verbatim>\<open>vdev == NULL\<close>.
\<close>

fun nl_lookup :: "u16 \<Rightarrow> u8 \<Rightarrow> u8 \<Rightarrow> u8 \<Rightarrow> VFIODevice list \<Rightarrow> nat option" where
  "nl_lookup s b d f [] = None"
| "nl_lookup s b d f (vdev # rest) =
     (if nl_match s b d f vdev then Some 0
      else map_option Suc (nl_lookup s b d f rest))"

text \<open>\<^verbatim>\<open>qdev_unplug(&vdev->pdev.qdev)\<close>: one more unplug request to the guest.\<close>

definition qdev_unplug :: "VFIODevice \<Rightarrow> VFIODevice" where
  "qdev_unplug vdev =
     vdev\<lparr>pdev := (pdev vdev)\<lparr>unplug_requests := Suc (unplug_requests (pdev vdev))\<rparr>\<rparr>"

text \<open>
  The handler. \<open>now\<close> is \<^verbatim>\<open>qemu_get_clock_ms(rt_clock)\<close>; the registry
  \<^verbatim>\<open>nl_list\<close> is passed in and returned together with the return value.
\<close>

definition vfio_parse_netlink ::
  "nat \<Rightarrow> VFIODevice list \<Rightarrow> nl_msg \<Rightarrow> int \<times> VFIODevice list" where
  "vfio_parse_netlink now nl_list msg =
     (if nl_pid msg \<noteq> 0 then (0, nl_list)
      else
        (case (VFIO_ATTR_PCI_DOMAIN msg, VFIO_ATTR_PCI_BUS msg,
               VFIO_ATTR_PCI_SLOT msg, VFIO_ATTR_PCI_FUNC msg) of
           (Some s, Some b, Some d, Some f) \<Rightarrow>
             (case nl_lookup s b d f nl_list of
                None \<Rightarrow> (0, nl_list)
              | Some i \<Rightarrow>
                  (case nl_cmd msg of
                     VFIO_MSG_REMOVE \<Rightarrow>
                       (0, nl_list[i := (qdev_unplug (nl_list ! i))
                                         \<lparr>remove_timer := Some (now + 30000)\<rparr>])
                   | VFIO_MSG_OTHER c \<Rightarrow> (0, nl_list)))
         | _ \<Rightarrow> (- 1, nl_list)))"

text \<open>
  A device as \<^verbatim>\<open>qdev\<close> allocates it (zero-filled), attached as host device
  \<^verbatim>\<open>0000:01:00.0\<close>, and three messages: a removal request of the kernel for
  that device, the same request from a sender with port id 1234, and a
  removal request of the kernel for \<^verbatim>\<open>0000:02:00.0\<close>.
\<close>

definition zero_resource :: PCIResource where
  "zero_resource =
     \<lparr>valid = False, mem = False, msix = False, slow = False, bar = 0, res_size = 0,
      msix_offset = 0, memory_index = (\<lambda>_. 0), r_virtbase = (\<lambda>_. 0), io_mem = 0,
      e_phys = 0, e_size = 0, res_vfiofd = 0\<rparr>"

definition example_pdev :: PCIDevice where
  "example_pdev =
     \<lparr>config = example_config, cap_present = 0, msi_cap = 0, msix_cap = 0,
      msix_entries_nr = 0, msix_entry_used = (\<lambda>_. 0), io_regions = (\<lambda>_. None),
      unplug_requests = 0\<rparr>"

definition example_vdev :: VFIODevice where
  "example_vdev =
     \<lparr>pdev = example_pdev, vfiofd = 3,
      intx = \<lparr>pending = False, pin = 0, irq = 0, intx_interrupt = 0\<rparr>,
      msi_cap_size = 0, msi_vectors = [], nr_vectors = 0, interrupt = INT_NONE,
      resources = replicate 6 zero_resource,
      host = \<lparr>seg = 0, bus = 1, dev = 0, func = 0\<rparr>,
      remove_timer = None\<rparr>"

definition kernel_remove :: nl_msg where
  "kernel_remove =
     \<lparr>nl_pid = 0, nl_cmd = VFIO_MSG_REMOVE, VFIO_ATTR_PCI_DOMAIN = Some 0,
      VFIO_ATTR_PCI_BUS = Some 1, VFIO_ATTR_PCI_SLOT = Some 0, VFIO_ATTR_PCI_FUNC = Some 0\<rparr>"

definition forged_remove :: nl_msg where
  "forged_remove = kernel_remove\<lparr>nl_pid := 1234\<rparr>"

definition stray_remove :: nl_msg where
  "stray_remove = kernel_remove\<lparr>VFIO_ATTR_PCI_BUS := Some 2\<rparr>"

section \<open>DMA translator: \<^verbatim>\<open>vfio_dma_map\<close>, \<^verbatim>\<open>vfio_dma_unmap\<close>, \<^verbatim>\<open>vfio_client_set_memory\<close>\<close>

text \<open>
  \<^verbatim>\<open>struct vfio_dma_map\<close> with the fields the code fills in (\<^verbatim>\<open>size\<close> is
  \<open>dma_size\<close>), and the two DMA requests on a channel descriptor.
\<close>

record vfio_dma_map =
  vaddr :: u64
  dmaaddr :: u64
  dma_size :: u64
  flags :: u64

datatype dma_call = VFIO_MAP_DMA int vfio_dma_map | VFIO_UNMAP_DMA int vfio_dma_map

text \<open>
  What the translator takes from outside \<^verbatim>\<open>hw/vfio.c\<close>. The kernel has a state
  of some type \<open>'k\<close>; \<open>k_dma\<close> is the \<^verbatim>\<open>ioctl\<close>: it returns the new state and
  \<^verbatim>\<open>errno\<close>, 0 when the call returned 0 and positive when it failed.
  \<open>qemu_get_ram_ptr\<close> and \<open>cpu_get_physical_page_desc\<close> are the functions of
  the guest-memory allocator. \<open>VFIO_MAX_MAP_SIZE\<close> (\<^verbatim>\<open>linux-vfio.h\<close>) and
  \<open>TARGET_PAGE_BITS\<close> (the target's \<^verbatim>\<open>cpu.h\<close>) are compile-time constants
  which the sources at hand do not define; they are parameters here.
\<close>

record 'k dma_env =
  k_dma :: "'k \<Rightarrow> dma_call \<Rightarrow> nat \<times> 'k"
  qemu_get_ram_ptr :: "u64 \<Rightarrow> u64"
  cpu_get_physical_page_desc :: "u64 \<Rightarrow> u64"
  VFIO_MAX_MAP_SIZE :: u64
  TARGET_PAGE_BITS :: nat

text \<open>
  The state the translator acts on: the kernel, and the list of the DMA
  requests made so far, each with the \<^verbatim>\<open>errno\<close> it ended with.
\<close>

record 'k dma_state =
  dma_kern :: 'k
  dma_calls :: "(dma_call \<times> nat) list"

definition VFIO_FLAG_WRITE :: u64 where "VFIO_FLAG_WRITE = 1"
definition EBUSY :: nat where "EBUSY = 16"
definition IO_MEM_RAM :: u64 where "IO_MEM_RAM = 0"
definition IO_MEM_UNASSIGNED :: u64 where "IO_MEM_UNASSIGNED = 0x10"

definition TARGET_PAGE_SIZE :: "'k dma_env \<Rightarrow> u64" where
  "TARGET_PAGE_SIZE env = push_bit (TARGET_PAGE_BITS env) 1"

definition TARGET_PAGE_MASK :: "'k dma_env \<Rightarrow> u64" where
  "TARGET_PAGE_MASK env = NOT (TARGET_PAGE_SIZE env - 1)"

definition dma_ioctl :: "'k dma_env \<Rightarrow> 'k dma_state \<Rightarrow> dma_call \<Rightarrow> nat \<times> 'k dma_state" where
  "dma_ioctl env st c =
     (case k_dma env (dma_kern st) c of
        (e, k) \<Rightarrow> (e, \<lparr>dma_kern = k, dma_calls = dma_calls st @ [(c, e)]\<rparr>))"

text \<open>
  \<^verbatim>\<open>while (size) { ... }\<close> of \<^verbatim>\<open>vfio_dma_map\<close>. The result is \<open>None\<close> when the
  loop does not end.
\<close>

partial_function (option) dma_map_loop ::
  "'k dma_env \<Rightarrow> int \<Rightarrow> 'k dma_state \<Rightarrow> vfio_dma_map \<Rightarrow> u64 \<Rightarrow> (int \<times> 'k dma_state) option"
where
  "dma_map_loop env fd st dm sz =
     (if sz = 0 then Some (0, st)
      else
        let dm1 = dm\<lparr>dma_size := min sz (VFIO_MAX_MAP_SIZE env)\<rparr> in
        case dma_ioctl env st (VFIO_MAP_DMA fd dm1) of
          (e, st1) \<Rightarrow>
            if e \<noteq> 0 then Some (- int e, st1)
            else dma_map_loop env fd st1
                   (dm1\<lparr>vaddr := vaddr dm1 + dma_size dm1,
                        dmaaddr := dmaaddr dm1 + dma_size dm1\<rparr>)
                   (sz - dma_size dm1))"

definition vfio_dma_map ::
  "'k dma_env \<Rightarrow> int \<Rightarrow> 'k dma_state \<Rightarrow> u64 \<Rightarrow> u64 \<Rightarrow> u64 \<Rightarrow> (int \<times> 'k dma_state) option" where
  "vfio_dma_map env fd st start_addr sz phys_offset =
     dma_map_loop env fd st
       \<lparr>vaddr = qemu_get_ram_ptr env phys_offset, dmaaddr = start_addr, dma_size = 0,
        flags = VFIO_FLAG_WRITE\<rparr> sz"

definition vfio_dma_unmap ::
  "'k dma_env \<Rightarrow> int \<Rightarrow> 'k dma_state \<Rightarrow> u64 \<Rightarrow> u64 \<Rightarrow> u64 \<Rightarrow> int \<times> 'k dma_state" where
  "vfio_dma_unmap env fd st start_addr sz phys_offset =
     (case dma_ioctl env st
             (VFIO_UNMAP_DMA fd
                \<lparr>vaddr = qemu_get_ram_ptr env phys_offset, dmaaddr = start_addr,
                 dma_size = sz, flags = VFIO_FLAG_WRITE\<rparr>) of
        (e, st1) \<Rightarrow> (- int e, st1))"

text \<open>
  The page walk of the \<^verbatim>\<open>EBUSY\<close> branch: \<^verbatim>\<open>while (curr < end) { ... }\<close>. It
  returns the last value of \<^verbatim>\<open>ret\<close>, the value of \<^verbatim>\<open>curr\<close> (here \<open>cur\<close>) at which the loop
  was left, and the state.
\<close>

partial_function (option) ebusy_walk ::
  "'k dma_env \<Rightarrow> int \<Rightarrow> 'k dma_state \<Rightarrow> u64 \<Rightarrow> u64 \<Rightarrow> u64 \<Rightarrow> int \<Rightarrow>
   (int \<times> u64 \<times> 'k dma_state) option"
where
  "ebusy_walk env fd st cur end_addr curr_phys ret =
     (if cur < end_addr then
        let phys = cpu_get_physical_page_desc env cur in
        if phys \<noteq> curr_phys then
          case vfio_dma_unmap env fd st cur (TARGET_PAGE_SIZE env) phys of
            (r0, st1) \<Rightarrow>
              (case vfio_dma_map env fd st1 cur (TARGET_PAGE_SIZE env) curr_phys of
                 None \<Rightarrow> None
               | Some (ret1, st2) \<Rightarrow>
                   if ret1 \<noteq> 0 then Some (ret1, cur, st2)
                   else ebusy_walk env fd st2 (cur + TARGET_PAGE_SIZE env) end_addr
                          (curr_phys + TARGET_PAGE_SIZE env) ret1)
        else ebusy_walk env fd st (cur + TARGET_PAGE_SIZE env) end_addr
               (curr_phys + TARGET_PAGE_SIZE env) ret
      else Some (ret, cur, st))"

text \<open>
  \<^verbatim>\<open>vfio_client_set_memory\<close>. \<open>vdevs\<close> is the list of the descriptors of the
  devices of the domain (\<^verbatim>\<open>uiommu->vdevs\<close>); the first one carries the requests.
  Messages written to \<^verbatim>\<open>stderr\<close> are not modelled.
\<close>

definition vfio_client_set_memory ::
  "'k dma_env \<Rightarrow> int list \<Rightarrow> 'k dma_state \<Rightarrow> u64 \<Rightarrow> u64 \<Rightarrow> u64 \<Rightarrow> 'k dma_state option" where
  "vfio_client_set_memory env vdevs st start_addr sz phys_offset =
     (case vdevs of
        [] \<Rightarrow> Some st
      | fd # rest \<Rightarrow>
          if (start_addr OR sz) AND NOT (TARGET_PAGE_MASK env) \<noteq> 0 then Some st
          else if phys_offset AND NOT (TARGET_PAGE_MASK env) = IO_MEM_RAM then
            (case vfio_dma_map env fd st start_addr sz phys_offset of
               None \<Rightarrow> None
             | Some (ret, st1) \<Rightarrow>
                 if ret = 0 then Some st1
                 else if ret = - int EBUSY then
                   (case ebusy_walk env fd st1 start_addr (start_addr + sz) phys_offset ret of
                      None \<Rightarrow> None
                    | Some (ret2, cur, st2) \<Rightarrow>
                        if start_addr + sz \<le> cur then Some st2
                        else Some (snd (vfio_dma_unmap env fd st2 start_addr sz phys_offset)))
                 else Some (snd (vfio_dma_unmap env fd st1 start_addr sz phys_offset)))
          else if phys_offset AND NOT (TARGET_PAGE_MASK env) = IO_MEM_UNASSIGNED then
            Some (snd (vfio_dma_unmap env fd st start_addr sz phys_offset))
          else Some st)"





definition dma_state0 :: "unit dma_state" where
  "dma_state0 = \<lparr>dma_kern = (), dma_calls = []\<rparr>"

text \<open>
  The requests the page walk is expected to make for \<open>k\<close> consecutive pages
  starting at \<open>cur\<close>, where \<open>cur_phys\<close> is the backing wanted for the first of
  them: nothing for a page that \<open>cpu_get_physical_page_desc\<close> already reports
  with the wanted backing, otherwise an unmap of the page with its current
  backing followed by a map with the wanted one.
\<close>

fun walk_calls :: "'k dma_env \<Rightarrow> int \<Rightarrow> u64 \<Rightarrow> u64 \<Rightarrow> nat \<Rightarrow> dma_call list" where
  "walk_calls env fd cur cur_phys 0 = []"
| "walk_calls env fd cur cur_phys (Suc k) =
     (if cpu_get_physical_page_desc env cur \<noteq> cur_phys then
        [VFIO_UNMAP_DMA fd
           \<lparr>vaddr = qemu_get_ram_ptr env (cpu_get_physical_page_desc env cur), dmaaddr = cur,
            dma_size = TARGET_PAGE_SIZE env, flags = VFIO_FLAG_WRITE\<rparr>,
         VFIO_MAP_DMA fd
           \<lparr>vaddr = qemu_get_ram_ptr env cur_phys, dmaaddr = cur,
            dma_size = TARGET_PAGE_SIZE env, flags = VFIO_FLAG_WRITE\<rparr>]
      else []) @
     walk_calls env fd (cur + TARGET_PAGE_SIZE env) (cur_phys + TARGET_PAGE_SIZE env) k"

text \<open>Whether a request is a map (and not an unmap).\<close>

fun is_map :: "dma_call \<Rightarrow> bool" where
  "is_map (VFIO_MAP_DMA fd dm) = True"
| "is_map (VFIO_UNMAP_DMA fd dm) = False"

text \<open>
  A setting in which a remap fails: the guest memory table backs page
  \<^verbatim>\<open>0xA1000\<close> with \<^verbatim>\<open>0x200000\<close> and every other page with itself, and the kernel
  answers every map request with \<^verbatim>\<open>EBUSY\<close> and accepts every unmap request.
\<close>

definition busy_dma_env :: "unit dma_env" where
  "busy_dma_env =
     \<lparr>k_dma = (\<lambda>k c. case c of VFIO_MAP_DMA fd dm \<Rightarrow> (EBUSY, k)
                              | VFIO_UNMAP_DMA fd dm \<Rightarrow> (0, k)),
      qemu_get_ram_ptr = (\<lambda>p. 0x7f0000000000 + p),
      cpu_get_physical_page_desc = (\<lambda>a. if a = 0xA1000 then 0x200000 else a),
      VFIO_MAX_MAP_SIZE = 0x400000,
      TARGET_PAGE_BITS = 12\<rparr>"

text \<open>
  The same memory table with a kernel that holds the IOVAs it has mapped: a
  map request fails with \<^verbatim>\<open>EBUSY\<close> when its first page is held, an unmap
  request releases the page it names.
\<close>

definition holding_dma_env :: "u64 list dma_env" where
  "holding_dma_env =
     \<lparr>k_dma = (\<lambda>k c. case c of
                  VFIO_MAP_DMA fd dm \<Rightarrow>
                    if dmaaddr dm \<in> set k then (EBUSY, k) else (0, dmaaddr dm # k)
                | VFIO_UNMAP_DMA fd dm \<Rightarrow> (0, removeAll (dmaaddr dm) k)),
      qemu_get_ram_ptr = (\<lambda>p. 0x7f0000000000 + p),
      cpu_get_physical_page_desc = (\<lambda>a. if a = 0xA1000 then 0x200000 else a),
      VFIO_MAX_MAP_SIZE = 0x400000,
      TARGET_PAGE_BITS = 12\<rparr>"

definition held_state :: "u64 list dma_state" where
  "held_state = \<lparr>dma_kern = [0xA0000, 0xA1000], dma_calls = []\<rparr>"

text \<open>Page alignment as \<^verbatim>\<open>vfio_client_set_memory\<close> tests it.\<close>

definition pg_aligned :: "'k dma_env \<Rightarrow> u64 \<Rightarrow> bool" where
  "pg_aligned env x \<longleftrightarrow> x AND NOT (TARGET_PAGE_MASK env) = 0"

section \<open>Config-space proxy and interrupt controller bridge\<close>

definition PCI_ROM_ADDRESS :: nat where "PCI_ROM_ADDRESS = 0x30"
definition PCI_INTERRUPT_PIN :: nat where "PCI_INTERRUPT_PIN = 0x3d"
definition MSIX_CAP_LENGTH :: nat where "MSIX_CAP_LENGTH = 12"
definition QEMU_PCI_CAP_MSI :: u32 where "QEMU_PCI_CAP_MSI = 0x1"
definition QEMU_PCI_CAP_MSIX :: u32 where "QEMU_PCI_CAP_MSIX = 0x2"

text \<open>
  Modelled from the spec: \<^verbatim>\<open>ranges_overlap\<close> of \<^verbatim>\<open>range.h\<close>, which is not among the
  sources at hand ("if the range overlaps the option-ROM address, the MSI
  capability window, or the MSI-X capability window"). The two ranges are
  given by their first byte and their length and overlap unless one ends
  before the other begins. All lengths are positive here: an access has 1, 2
  or 4 bytes and a capability window at least 10.
\<close>

definition ranges_overlap :: "nat \<Rightarrow> nat \<Rightarrow> nat \<Rightarrow> nat \<Rightarrow> bool" where
  "ranges_overlap first1 len1 first2 len2 \<longleftrightarrow>
     \<not> (first2 + len2 - 1 < first1 \<or> first1 + len1 - 1 < first2)"

text \<open>
  The handlers that \<^verbatim>\<open>hw/vfio.c\<close> installs with \<^verbatim>\<open>qemu_set_fd_handler\<close>; the
  argument of \<open>vfio_msi_interrupt\<close> is the index of the vector passed as
  \<^verbatim>\<open>opaque\<close>.
\<close>

datatype fd_handler = vfio_intx_interrupt | vfio_msi_interrupt nat

text \<open>
  What the bridge takes from outside \<^verbatim>\<open>hw/vfio.c\<close>.

  The kernel channel, with a state of type \<open>'k\<close>: \<open>k_pread_config\<close> is
  \<^verbatim>\<open>pread\<close> at \<^verbatim>\<open>VFIO_PCI_CONFIG_OFF + addr\<close> (\<open>Some\<close> of the value when all
  \<open>len\<close> bytes were read), \<open>k_pwrite_config\<close> the matching \<^verbatim>\<open>pwrite\<close>;
  \<open>k_set_irq_eventfd\<close> is \<^verbatim>\<open>VFIO_SET_IRQ_EVENTFD\<close>, \<open>k_set_eventfds\<close> is
  \<^verbatim>\<open>VFIO_SET_MSI_EVENTFDS\<close> (\<open>False\<close>) or \<^verbatim>\<open>VFIO_SET_MSIX_EVENTFDS\<close> (\<open>True\<close>)
  with the array \<^verbatim>\<open>fds\<close>, both returning whether the \<^verbatim>\<open>ioctl\<close> failed;
  \<open>k_unmask_irq\<close> is \<^verbatim>\<open>VFIO_UNMASK_IRQ\<close>; \<open>k_eventfd\<close> is the \<^verbatim>\<open>eventfd\<close> call of
  \<^verbatim>\<open>event_notifier_init\<close>, \<open>None\<close> when it fails. \<open>uninit_fd i\<close> is what the
  freshly allocated \<^verbatim>\<open>msi_vectors[i].interrupt\<close> holds when
  \<^verbatim>\<open>event_notifier_init\<close> has failed and left it unset.

  The PCI framework: the emulation of config reads and writes on the config
  image, the emulated MSI and MSI-X enable bits and the number of allocated
  MSI vectors, all read from the config image, and the interrupt routing
  \<open>pci_get_irq\<close>.
\<close>

record 'k irq_env =
  k_pread_config :: "'k \<Rightarrow> nat \<Rightarrow> nat \<Rightarrow> u32 option"
  k_pwrite_config :: "'k \<Rightarrow> nat \<Rightarrow> u32 \<Rightarrow> nat \<Rightarrow> 'k"
  k_set_irq_eventfd :: "'k \<Rightarrow> int \<Rightarrow> bool \<times> 'k"
  k_set_eventfds :: "'k \<Rightarrow> bool \<Rightarrow> int list \<Rightarrow> bool \<times> 'k"
  k_unmask_irq :: "'k \<Rightarrow> 'k"
  k_eventfd :: "'k \<Rightarrow> int option \<times> 'k"
  uninit_fd :: "nat \<Rightarrow> int"
  pci_default_read_config :: "config_image \<Rightarrow> nat \<Rightarrow> nat \<Rightarrow> u32"
  pci_default_write_config :: "config_image \<Rightarrow> nat \<Rightarrow> u32 \<Rightarrow> nat \<Rightarrow> config_image"
  msi_write_config :: "config_image \<Rightarrow> nat \<Rightarrow> u32 \<Rightarrow> nat \<Rightarrow> config_image"
  msix_write_config :: "config_image \<Rightarrow> nat \<Rightarrow> u32 \<Rightarrow> nat \<Rightarrow> config_image"
  msi_enabled :: "config_image \<Rightarrow> bool"
  msix_enabled :: "config_image \<Rightarrow> bool"
  msi_nr_vectors_allocated :: "config_image \<Rightarrow> nat"
  pci_get_irq :: "u8 \<Rightarrow> int"

text \<open>
  The block of memory that the pointer \<^verbatim>\<open>vdev->msi_vectors\<close> names: none (the
  pointer is \<^verbatim>\<open>NULL\<close>, as in the zeroed device structure), a block from
  \<^verbatim>\<open>qemu_malloc\<close>, or a block that has been given to \<^verbatim>\<open>qemu_free\<close>. The code
  never clears the pointer after \<^verbatim>\<open>qemu_free\<close>.
\<close>

datatype block_state = NO_BLOCK | ALLOCATED | FREED

text \<open>
  The state outside the device structure: the kernel, the table of
  \<^verbatim>\<open>qemu_set_fd_handler\<close>, the file descriptors of the live event notifiers,
  the interrupt lines at which the device's EOI notifier is registered, the
  number of registrations of its interrupt-routing notifier, and the state of
  the block \<^verbatim>\<open>vdev->msi_vectors\<close> on the heap.
\<close>

record 'k irq_world =
  kern :: 'k
  fd_handlers :: "int \<Rightarrow> fd_handler option"
  notifiers :: "int set"
  gsi_eoi_notifiers :: "int list"
  irq_update_notifiers :: nat
  msi_vectors_block :: block_state

type_synonym 'k irq_state = "'k irq_world \<times> VFIODevice"

text \<open>
  Modelled from the spec: the primitives of the event loop and of the MSI-X
  table machinery, which are not among the sources at hand ("create one
  notification source", "destroy every vector's notification source", "mark
  each vector as claimed in the virtual table machinery", "release MSI-X
  claimed markers"). A notifier is created by \<open>event_notifier_init\<close> and
  named by its file descriptor; \<open>event_notifier_cleanup\<close> closes it;
  \<open>qemu_set_fd_handler\<close> installs a handler for a descriptor or, with
  \<open>None\<close>, removes it; \<open>msix_vector_use\<close> and \<open>msix_vector_unuse\<close> count the
  users of a vector of the table.
\<close>

definition event_notifier_init :: "'k irq_env \<Rightarrow> 'k irq_world \<Rightarrow> int option \<times> 'k irq_world" where
  "event_notifier_init env w =
     (case k_eventfd env (kern w) of
        (r, k) \<Rightarrow>
          (r, w\<lparr>kern := k,
                 notifiers := (case r of None \<Rightarrow> notifiers w
                               | Some fd \<Rightarrow> insert fd (notifiers w))\<rparr>))"

definition event_notifier_cleanup :: "int \<Rightarrow> 'k irq_world \<Rightarrow> 'k irq_world" where
  "event_notifier_cleanup fd w = w\<lparr>notifiers := notifiers w - {fd}\<rparr>"

definition qemu_set_fd_handler :: "int \<Rightarrow> fd_handler option \<Rightarrow> 'k irq_world \<Rightarrow> 'k irq_world" where
  "qemu_set_fd_handler fd h w = w\<lparr>fd_handlers := (fd_handlers w)(fd := h)\<rparr>"

definition msix_vector_use :: "PCIDevice \<Rightarrow> nat \<Rightarrow> PCIDevice" where
  "msix_vector_use pd i =
     (if msix_entries_nr pd \<le> i then pd
      else pd\<lparr>msix_entry_used := (msix_entry_used pd)(i := Suc (msix_entry_used pd i))\<rparr>)"

definition msix_vector_unuse :: "PCIDevice \<Rightarrow> nat \<Rightarrow> PCIDevice" where
  "msix_vector_unuse pd i =
     (if msix_entries_nr pd \<le> i \<or> msix_entry_used pd i = 0 then pd
      else pd\<lparr>msix_entry_used := (msix_entry_used pd)(i := msix_entry_used pd i - 1)\<rparr>)"

subsection \<open>\<^verbatim>\<open>vfio_pci_read_config\<close>\<close>

definition config_emulated :: "VFIODevice \<Rightarrow> nat \<Rightarrow> nat \<Rightarrow> bool" where
  "config_emulated vdev addr len \<longleftrightarrow>
     ranges_overlap addr len PCI_ROM_ADDRESS 4 \<or>
     (cap_present (pdev vdev) AND QEMU_PCI_CAP_MSIX \<noteq> 0 \<and>
      ranges_overlap addr len (unat (msix_cap (pdev vdev))) MSIX_CAP_LENGTH) \<or>
     (cap_present (pdev vdev) AND QEMU_PCI_CAP_MSI \<noteq> 0 \<and>
      ranges_overlap addr len (unat (msi_cap (pdev vdev))) (msi_cap_size vdev))"

definition vfio_pci_read_config :: "'k irq_env \<Rightarrow> 'k irq_state \<Rightarrow> nat \<Rightarrow> nat \<Rightarrow> u32" where
  "vfio_pci_read_config env s addr len =
     (case s of (w, vdev) \<Rightarrow>
        if config_emulated vdev addr len
        then pci_default_read_config env (config (pdev vdev)) addr len
        else (case k_pread_config env (kern w) addr len of
                None \<Rightarrow> - 1
              | Some val \<Rightarrow> val))"

subsection \<open>INTx\<close>

definition vfio_unmask_intx :: "'k irq_env \<Rightarrow> 'k irq_world \<Rightarrow> 'k irq_world" where
  "vfio_unmask_intx env w = w\<lparr>kern := k_unmask_irq env (kern w)\<rparr>"

definition vfio_disable_intx :: "'k irq_env \<Rightarrow> 'k irq_state \<Rightarrow> 'k irq_state" where
  "vfio_disable_intx env s =
     (case s of (w, vdev) \<Rightarrow>
        let w1 = w\<lparr>kern := snd (k_set_irq_eventfd env (kern w) (- 1))\<rparr>;
            w2 = w1\<lparr>irq_update_notifiers := irq_update_notifiers w1 - 1\<rparr>;
            w3 = w2\<lparr>gsi_eoi_notifiers := remove1 (irq (intx vdev)) (gsi_eoi_notifiers w2)\<rparr>;
            fd = intx_interrupt (intx vdev);
            w4 = qemu_set_fd_handler fd None w3;
            w5 = event_notifier_cleanup fd w4
        in (w5, vdev\<lparr>interrupt := INT_NONE\<rparr>))"

text \<open>
  \<^verbatim>\<open>vfio_enable_intx\<close> from the statement after its call of
  \<^verbatim>\<open>vfio_disable_interrupts\<close> on; \<open>p\<close> is the interrupt pin read before.
\<close>

definition enable_intx_setup :: "'k irq_env \<Rightarrow> u8 \<Rightarrow> 'k irq_state \<Rightarrow> int \<times> 'k irq_state" where
  "enable_intx_setup env p s =
     (case s of (w, vdev) \<Rightarrow>
        let line = pci_get_irq env (p - 1);
            vdev1 = vdev\<lparr>intx := (intx vdev)\<lparr>pin := p - 1, irq := line\<rparr>\<rparr>;
            w1 = w\<lparr>gsi_eoi_notifiers := line # gsi_eoi_notifiers w\<rparr>;
            w2 = w1\<lparr>irq_update_notifiers := Suc (irq_update_notifiers w1)\<rparr>
        in case event_notifier_init env w2 of
             (None, w3) \<Rightarrow> (- 1, (w3, vdev1))
           | (Some fd, w3) \<Rightarrow>
               let vdev2 = vdev1\<lparr>intx := (intx vdev1)\<lparr>intx_interrupt := fd\<rparr>\<rparr>;
                   w4 = qemu_set_fd_handler fd (Some vfio_intx_interrupt) w3
               in case k_set_irq_eventfd env (kern w4) fd of
                    (True, k) \<Rightarrow> (- 1, (w4\<lparr>kern := k\<rparr>, vdev2))
                  | (False, k) \<Rightarrow>
                      (0, (vfio_unmask_intx env (w4\<lparr>kern := k\<rparr>),
                           vdev2\<lparr>interrupt := INT_INTx\<rparr>)))"

subsection \<open>MSI and MSI-X\<close>

text \<open>
  \<^verbatim>\<open>qemu_free(vdev->msi_vectors)\<close> on the state of the block: nothing happens
  for \<^verbatim>\<open>NULL\<close>, an allocated block is freed. Freeing a block that is already
  freed is a double free: the behaviour of the program is undefined from
  there on (the C library usually stops the process). \<open>double_free\<close> tells
  these calls; \<open>qemu_free\<close> describes the other ones.
\<close>

fun qemu_free :: "block_state \<Rightarrow> block_state" where
  "qemu_free NO_BLOCK = NO_BLOCK"
| "qemu_free ALLOCATED = FREED"
| "qemu_free FREED = FREED"

fun double_free :: "block_state \<Rightarrow> bool" where
  "double_free NO_BLOCK = False"
| "double_free ALLOCATED = False"
| "double_free FREED = True"

text \<open>One round of the loop that tears a vector down (in both functions).\<close>

definition msi_vector_teardown :: "bool \<Rightarrow> 'k irq_state \<Rightarrow> nat \<Rightarrow> int \<Rightarrow> 'k irq_state" where
  "msi_vector_teardown is_msix s i fd =
     (case s of (w, vdev) \<Rightarrow>
        let vdev1 = (if is_msix then vdev\<lparr>pdev := msix_vector_unuse (pdev vdev) i\<rparr> else vdev)
        in (event_notifier_cleanup fd (qemu_set_fd_handler fd None w), vdev1))"

text \<open>
  \<^verbatim>\<open>vfio_disable_msi\<close>. Its last statement calls \<^verbatim>\<open>vfio_enable_intx\<close>, which
  calls \<^verbatim>\<open>vfio_disable_interrupts\<close>, which may call \<^verbatim>\<open>vfio_disable_msi\<close>. At
  that point the mode is \<^verbatim>\<open>INT_NONE\<close> and \<^verbatim>\<open>vfio_disable_interrupts\<close> does
  nothing, so the call is written out here: read the pin, return if it
  is 0, otherwise go on with \<open>enable_intx_setup\<close>. (\<open>vfio_enable_intx_none\<close>
  below states that this is \<^verbatim>\<open>vfio_enable_intx\<close>.)
\<close>

definition vfio_disable_msi :: "'k irq_env \<Rightarrow> 'k irq_state \<Rightarrow> bool \<Rightarrow> 'k irq_state" where
  "vfio_disable_msi env s is_msix =
     (case s of (w, vdev) \<Rightarrow>
        let w1 = w\<lparr>kern := snd (k_set_eventfds env (kern w) is_msix [0])\<rparr>;
            s1 = foldl (\<lambda>st i. msi_vector_teardown is_msix st i
                                  (vec_interrupt (msi_vectors vdev ! i)))
                   (w1, vdev) [0 ..< nr_vectors vdev];
            s2 = ((fst s1)\<lparr>msi_vectors_block := qemu_free (msi_vectors_block (fst s1))\<rparr>,
                  (snd s1)\<lparr>msi_vectors := [], nr_vectors := 0, interrupt := INT_NONE\<rparr>);
            p = ucast (vfio_pci_read_config env s2 PCI_INTERRUPT_PIN 1) :: u8
        in if p = 0 then s2 else snd (enable_intx_setup env p s2))"

text \<open>
  The calls that free a block twice. The only \<^verbatim>\<open>qemu_free\<close> of a block that an
  earlier call may have freed is the one of \<^verbatim>\<open>vfio_disable_msi\<close>
  (\<^verbatim>\<open>vfio_enable_msi\<close> frees what it has just allocated): a call of
  \<^verbatim>\<open>vfio_disable_msi\<close> is a double free when the block is already freed.
  \<^verbatim>\<open>vfio_disable_interrupts\<close> makes that call in the modes \<^verbatim>\<open>INT_MSI\<close> and
  \<^verbatim>\<open>INT_MSIX\<close>, and \<^verbatim>\<open>vfio_enable_msi\<close> begins with
  \<^verbatim>\<open>vfio_disable_interrupts\<close>. The functions \<open>vfio_disable_msi\<close>,
  \<open>vfio_disable_interrupts\<close> and \<open>vfio_enable_msi\<close> describe the other
  calls, the ones whose behaviour C defines.
\<close>

definition vfio_disable_msi_aborts :: "'k irq_state \<Rightarrow> bool" where
  "vfio_disable_msi_aborts s \<longleftrightarrow> double_free (msi_vectors_block (fst s))"

definition vfio_disable_interrupts_aborts :: "'k irq_state \<Rightarrow> bool" where
  "vfio_disable_interrupts_aborts s \<longleftrightarrow>
     (case interrupt (snd s) of
        INT_MSI \<Rightarrow> vfio_disable_msi_aborts s
      | INT_MSIX \<Rightarrow> vfio_disable_msi_aborts s
      | INT_INTx \<Rightarrow> False
      | INT_NONE \<Rightarrow> False)"

definition vfio_enable_msi_aborts :: "'k irq_state \<Rightarrow> bool" where
  "vfio_enable_msi_aborts s \<longleftrightarrow> vfio_disable_interrupts_aborts s"

definition vfio_disable_interrupts :: "'k irq_env \<Rightarrow> 'k irq_state \<Rightarrow> 'k irq_state" where
  "vfio_disable_interrupts env s =
     (case interrupt (snd s) of
        INT_INTx \<Rightarrow> vfio_disable_intx env s
      | INT_MSI \<Rightarrow> vfio_disable_msi env s False
      | INT_MSIX \<Rightarrow> vfio_disable_msi env s True
      | INT_NONE \<Rightarrow> s)"

definition vfio_enable_intx :: "'k irq_env \<Rightarrow> 'k irq_state \<Rightarrow> int \<times> 'k irq_state" where
  "vfio_enable_intx env s =
     (let p = ucast (vfio_pci_read_config env s PCI_INTERRUPT_PIN 1) :: u8
      in if p = 0 then (0, s)
         else enable_intx_setup env p (vfio_disable_interrupts env s))"

text \<open>
  The first loop of \<^verbatim>\<open>vfio_enable_msi\<close>: one round creates vector \<open>i\<close>. The
  state carries the array \<^verbatim>\<open>fds\<close> from its second element on.
\<close>

definition msi_vector_create ::
  "'k irq_env \<Rightarrow> bool \<Rightarrow> 'k irq_state \<times> int list \<Rightarrow> nat \<Rightarrow> 'k irq_state \<times> int list" where
  "msi_vector_create env is_msix sf i =
     (case sf of ((w, vdev), fds) \<Rightarrow>
        case event_notifier_init env w of
          (r, w1) \<Rightarrow>
            let fd = (case r of None \<Rightarrow> uninit_fd env i | Some fd \<Rightarrow> fd);
                vdev1 = vdev\<lparr>msi_vectors :=
                          msi_vectors vdev @ [\<lparr>vec_interrupt = fd, vector = i\<rparr>]\<rparr>;
                w2 = qemu_set_fd_handler fd (Some (vfio_msi_interrupt i)) w1;
                vdev2 = (if is_msix then vdev1\<lparr>pdev := msix_vector_use (pdev vdev1) i\<rparr>
                         else vdev1)
            in ((w2, vdev2), fds @ [fd]))"

text \<open>
  \<^verbatim>\<open>vfio_enable_msi\<close> up to the registration call: the state and the file
  descriptors \<^verbatim>\<open>fds[1..]\<close> when \<^verbatim>\<open>ioctl(vdev->vfiofd, vfio_ioctl, fds)\<close> is made.
\<close>

definition enable_msi_vectors ::
  "'k irq_env \<Rightarrow> 'k irq_state \<Rightarrow> bool \<Rightarrow> 'k irq_state \<times> int list" where
  "enable_msi_vectors env s is_msix =
     (case vfio_disable_interrupts env s of (w, vdev) \<Rightarrow>
        let n = (if is_msix then msix_entries_nr (pdev vdev)
                 else msi_nr_vectors_allocated env (config (pdev vdev)));
            vdev1 = vdev\<lparr>nr_vectors := n, msi_vectors := []\<rparr>
        in foldl (msi_vector_create env is_msix)
             ((w\<lparr>msi_vectors_block := ALLOCATED\<rparr>, vdev1), []) [0 ..< n])"

text \<open>Whether that registration call fails.\<close>

definition enable_msi_ioctl_fails :: "'k irq_env \<Rightarrow> 'k irq_state \<Rightarrow> bool \<Rightarrow> bool" where
  "enable_msi_ioctl_fails env s is_msix =
     (case enable_msi_vectors env s is_msix of
        ((w, vdev), fds) \<Rightarrow>
          fst (k_set_eventfds env (kern w) is_msix (int (nr_vectors vdev) # fds)))"

definition vfio_enable_msi :: "'k irq_env \<Rightarrow> 'k irq_state \<Rightarrow> bool \<Rightarrow> 'k irq_state" where
  "vfio_enable_msi env s is_msix =
     (case enable_msi_vectors env s is_msix of
        ((w, vdev), fds) \<Rightarrow>
          case k_set_eventfds env (kern w) is_msix (int (nr_vectors vdev) # fds) of
            (True, k) \<Rightarrow>
              (case foldl (\<lambda>st i. msi_vector_teardown is_msix st i (fds ! i))
                      (w\<lparr>kern := k\<rparr>, vdev) [0 ..< nr_vectors vdev] of
                 (w1, vdev1) \<Rightarrow>
                   (w1\<lparr>msi_vectors_block := qemu_free (msi_vectors_block w1)\<rparr>,
                    vdev1\<lparr>msi_vectors := [], nr_vectors := 0\<rparr>))
          | (False, k) \<Rightarrow>
              (w\<lparr>kern := k\<rparr>,
               vdev\<lparr>interrupt := (if is_msix then INT_MSIX else INT_MSI)\<rparr>))"

subsection \<open>\<^verbatim>\<open>vfio_pci_write_config\<close>\<close>

text \<open>
  The calls into the bridge that a config write makes itself:
  \<^verbatim>\<open>vfio_enable_msi(vdev, msix)\<close> and \<^verbatim>\<open>vfio_disable_msi(vdev, msix)\<close>. The model
  returns them next to the new state.
\<close>

datatype bridge_call = ENABLE_MSI bool | DISABLE_MSI bool

text \<open>
  One of the two blocks "MSI/MSI-X Enabling/Disabling". The result is \<open>None\<close>
  when the call into the bridge frees \<^verbatim>\<open>msi_vectors\<close> a second time: from
  there on the behaviour of the program is undefined.
\<close>

definition write_config_cap ::
  "'k irq_env \<Rightarrow> bool \<Rightarrow> 'k irq_state \<Rightarrow> nat \<Rightarrow> u32 \<Rightarrow> nat \<Rightarrow>
   ('k irq_state \<times> bridge_call list) option" where
  "write_config_cap env is_msix s addr val len =
     (case s of (w, vdev) \<Rightarrow>
        let enabled = (if is_msix then msix_enabled env else msi_enabled env);
            cap_write = (if is_msix then msix_write_config env else msi_write_config env);
            was_enabled = enabled (config (pdev vdev));
            cfg1 = cap_write (pci_default_write_config env (config (pdev vdev)) addr val len)
                     addr val len;
            s1 = (w, vdev\<lparr>pdev := (pdev vdev)\<lparr>config := cfg1\<rparr>\<rparr>);
            is_enabled = enabled cfg1
        in if \<not> was_enabled \<and> is_enabled then
             (if vfio_enable_msi_aborts s1 then None
              else Some (vfio_enable_msi env s1 is_msix, [ENABLE_MSI is_msix]))
           else if was_enabled \<and> \<not> is_enabled then
             (if vfio_disable_msi_aborts s1 then None
              else Some (vfio_disable_msi env s1 is_msix, [DISABLE_MSI is_msix]))
           else Some (s1, []))"

definition vfio_pci_write_config ::
  "'k irq_env \<Rightarrow> 'k irq_state \<Rightarrow> nat \<Rightarrow> u32 \<Rightarrow> nat \<Rightarrow>
   ('k irq_state \<times> bridge_call list) option" where
  "vfio_pci_write_config env s addr val len =
     (case s of (w, vdev) \<Rightarrow>
        let w1 = w\<lparr>kern := k_pwrite_config env (kern w) addr val len\<rparr> in
        if addr < PCI_CONFIG_HEADER_SIZE then
          Some ((w1, vdev\<lparr>pdev := (pdev vdev)
                    \<lparr>config := pci_default_write_config env (config (pdev vdev)) addr val len\<rparr>\<rparr>),
                [])
        else
          (case (if cap_present (pdev vdev) AND QEMU_PCI_CAP_MSI \<noteq> 0 \<and>
                    ranges_overlap addr len (unat (msi_cap (pdev vdev))) (msi_cap_size vdev)
                 then write_config_cap env False (w1, vdev) addr val len
                 else Some ((w1, vdev), [])) of
             None \<Rightarrow> None
           | Some (s1, a1) \<Rightarrow>
               (case (if cap_present (pdev (snd s1)) AND QEMU_PCI_CAP_MSIX \<noteq> 0 \<and>
                         ranges_overlap addr len (unat (msix_cap (pdev (snd s1)))) MSIX_CAP_LENGTH
                      then write_config_cap env True s1 addr val len
                      else Some (s1, [])) of
                  None \<Rightarrow> None
                | Some (s2, a2) \<Rightarrow> Some (s2, a1 @ a2))))"

subsection \<open>Sequences of config writes and what they observe\<close>

text \<open>
  A config write is its address, value and length. A sequence of writes has
  no result (\<open>None\<close>) when one of them frees \<^verbatim>\<open>msi_vectors\<close> a second time.
\<close>

type_synonym config_write = "nat \<times> u32 \<times> nat"

fun write_config_seq ::
  "'k irq_env \<Rightarrow> 'k irq_state \<Rightarrow> config_write list \<Rightarrow>
   ('k irq_state \<times> bridge_call list) option" where
  "write_config_seq env s [] = Some (s, [])"
| "write_config_seq env s (wr # ws) =
     (case wr of (addr, val, len) \<Rightarrow>
        case vfio_pci_write_config env s addr val len of
          None \<Rightarrow> None
        | Some (s1, a1) \<Rightarrow>
            (case write_config_seq env s1 ws of
               None \<Rightarrow> None
             | Some (s2, a2) \<Rightarrow> Some (s2, a1 @ a2)))"

text \<open>
  The specification's reading of a write, on the emulated config image alone.
  \<open>cap_window\<close>: the write overlaps the MSI (\<open>False\<close>) or MSI-X (\<open>True\<close>)
  capability window of a device that has the capability.
  \<open>emulation_update\<close>: the local emulation update of that capability.
  \<open>observed\<close>: was-enabled before the update and is-enabled after it.
  \<open>calls_for\<close>: one enable for a 0\<rightarrow>1 transition, one disable for a 1\<rightarrow>0
  transition, nothing otherwise.
\<close>

definition cap_window :: "bool \<Rightarrow> VFIODevice \<Rightarrow> nat \<Rightarrow> nat \<Rightarrow> bool" where
  "cap_window is_msix vdev addr len \<longleftrightarrow>
     (if is_msix then
        cap_present (pdev vdev) AND QEMU_PCI_CAP_MSIX \<noteq> 0 \<and>
        ranges_overlap addr len (unat (msix_cap (pdev vdev))) MSIX_CAP_LENGTH
      else
        cap_present (pdev vdev) AND QEMU_PCI_CAP_MSI \<noteq> 0 \<and>
        ranges_overlap addr len (unat (msi_cap (pdev vdev))) (msi_cap_size vdev))"

definition emulation_update ::
  "'k irq_env \<Rightarrow> bool \<Rightarrow> config_image \<Rightarrow> nat \<Rightarrow> u32 \<Rightarrow> nat \<Rightarrow> config_image" where
  "emulation_update env is_msix cfg addr val len =
     (if is_msix then msix_write_config env else msi_write_config env)
       (pci_default_write_config env cfg addr val len) addr val len"

definition observed ::
  "'k irq_env \<Rightarrow> bool \<Rightarrow> config_image \<Rightarrow> nat \<Rightarrow> u32 \<Rightarrow> nat \<Rightarrow> bool \<times> bool" where
  "observed env is_msix cfg addr val len =
     ((if is_msix then msix_enabled env else msi_enabled env) cfg,
      (if is_msix then msix_enabled env else msi_enabled env)
        (emulation_update env is_msix cfg addr val len))"

definition calls_for :: "bool \<times> bool \<times> bool \<Rightarrow> bridge_call list" where
  "calls_for ob =
     (case ob of (is_msix, was_enabled, is_enabled) \<Rightarrow>
        if \<not> was_enabled \<and> is_enabled then [ENABLE_MSI is_msix]
        else if was_enabled \<and> \<not> is_enabled then [DISABLE_MSI is_msix]
        else [])"

text \<open>
  The claim as the specification words it: every write that overlaps a
  capability window observes a transition of that capability, wherever the
  write starts. \<open>claimed_observations\<close> gives the image after one write and
  its observations, each with the capability it belongs to.
\<close>

definition claimed_observations ::
  "'k irq_env \<Rightarrow> VFIODevice \<Rightarrow> config_image \<Rightarrow> config_write \<Rightarrow>
   config_image \<times> (bool \<times> bool \<times> bool) list" where
  "claimed_observations env vdev cfg wr =
     (case wr of (addr, val, len) \<Rightarrow>
        let (cfg1, o1) =
              (if cap_window False vdev addr len
               then (emulation_update env False cfg addr val len,
                     [(False, observed env False cfg addr val len)])
               else (cfg, []));
            (cfg2, o2) =
              (if cap_window True vdev addr len
               then (emulation_update env True cfg1 addr val len,
                     [(True, observed env True cfg1 addr val len)])
               else (cfg1, []))
        in (cfg2, o1 @ o2))"

text \<open>
  The reading that the code supports: a write that starts below
  \<^verbatim>\<open>PCI_CONFIG_HEADER_SIZE\<close> is mirrored into the image and observes nothing,
  also when it reaches into a capability window; every other write observes
  what the specification says.
\<close>

definition write_observations ::
  "'k irq_env \<Rightarrow> VFIODevice \<Rightarrow> config_image \<Rightarrow> config_write \<Rightarrow>
   config_image \<times> (bool \<times> bool \<times> bool) list" where
  "write_observations env vdev cfg wr =
     (case wr of (addr, val, len) \<Rightarrow>
        if addr < PCI_CONFIG_HEADER_SIZE then (pci_default_write_config env cfg addr val len, [])
        else claimed_observations env vdev cfg wr)"

fun seq_observations ::
  "'k irq_env \<Rightarrow> VFIODevice \<Rightarrow> config_image \<Rightarrow> config_write list \<Rightarrow>
   (bool \<times> bool \<times> bool) list" where
  "seq_observations env vdev cfg [] = []"
| "seq_observations env vdev cfg (wr # ws) =
     (case write_observations env vdev cfg wr of
        (cfg1, os) \<Rightarrow> os @ seq_observations env vdev cfg1 ws)"

text \<open>
  What invoking the bridge means for the state: \<open>bridge_invoke\<close> runs
  \<^verbatim>\<open>vfio_enable_msi\<close> or \<^verbatim>\<open>vfio_disable_msi\<close>. \<open>write_effect\<close> is the state that
  the specification expects after one write: the write is forwarded to the
  device; a write that starts in the standard header is mirrored into the
  image; otherwise, for the MSI and then the MSI-X capability, if the write
  overlaps the window the image gets the emulation update and the bridge is
  invoked with \<open>calls_for\<close> the observed pair.
\<close>

definition bridge_invoke :: "'k irq_env \<Rightarrow> 'k irq_state \<Rightarrow> bridge_call \<Rightarrow> 'k irq_state" where
  "bridge_invoke env s c =
     (case c of
        ENABLE_MSI is_msix \<Rightarrow> vfio_enable_msi env s is_msix
      | DISABLE_MSI is_msix \<Rightarrow> vfio_disable_msi env s is_msix)"

definition set_config :: "config_image \<Rightarrow> 'k irq_state \<Rightarrow> 'k irq_state" where
  "set_config cfg s = (fst s, (snd s)\<lparr>pdev := (pdev (snd s))\<lparr>config := cfg\<rparr>\<rparr>)"

definition cap_effect ::
  "'k irq_env \<Rightarrow> bool \<Rightarrow> 'k irq_state \<Rightarrow> nat \<Rightarrow> u32 \<Rightarrow> nat \<Rightarrow> 'k irq_state" where
  "cap_effect env is_msix s addr val len =
     (if cap_window is_msix (snd s) addr len then
        foldl (bridge_invoke env)
          (set_config (emulation_update env is_msix (config (pdev (snd s))) addr val len) s)
          (calls_for (is_msix, observed env is_msix (config (pdev (snd s))) addr val len))
      else s)"

definition write_effect :: "'k irq_env \<Rightarrow> 'k irq_state \<Rightarrow> config_write \<Rightarrow> 'k irq_state" where
  "write_effect env s wr =
     (case wr of (addr, val, len) \<Rightarrow>
        let s0 = ((fst s)\<lparr>kern := k_pwrite_config env (kern (fst s)) addr val len\<rparr>, snd s) in
        if addr < PCI_CONFIG_HEADER_SIZE
        then set_config (pci_default_write_config env (config (pdev (snd s))) addr val len) s0
        else cap_effect env True (cap_effect env False s0 addr val len) addr val len)"

text \<open>The parts of a device that decide how its config space is emulated.\<close>

definition emul_view :: "VFIODevice \<Rightarrow> config_image \<times> u32 \<times> u8 \<times> u8 \<times> nat" where
  "emul_view vdev =
     (config (pdev vdev), cap_present (pdev vdev), msi_cap (pdev vdev), msix_cap (pdev vdev),
      msi_cap_size vdev)"

subsection \<open>A concrete setting\<close>

text \<open>
  Little-endian access to the config image with every bit writable, as a
  stand-in for the framework's emulation.
\<close>

fun config_read_le :: "config_image \<Rightarrow> nat \<Rightarrow> nat \<Rightarrow> u32" where
  "config_read_le cfg addr 0 = 0"
| "config_read_le cfg addr (Suc n) =
     ucast (cfg addr) OR push_bit 8 (config_read_le cfg (Suc addr) n)"

fun config_write_le :: "config_image \<Rightarrow> nat \<Rightarrow> u32 \<Rightarrow> nat \<Rightarrow> config_image" where
  "config_write_le cfg addr val 0 = cfg"
| "config_write_le cfg addr val (Suc n) =
     config_write_le (cfg(addr := ucast val)) (Suc addr) (drop_bit 8 val) n"

text \<open>
  A device whose interrupt pin register reads 1 (\<^verbatim>\<open>INTA\<close>), with the MSI
  capability at \<^verbatim>\<open>0x50\<close> and the MSI-X capability at \<^verbatim>\<open>0x60\<close>. The kernel hands
  out the descriptors 10, 11, ... for event notifiers; it accepts everything
  except the registration of a nonempty set of MSI-X vectors.
\<close>

definition example_irq_env :: "nat irq_env" where
  "example_irq_env =
     \<lparr>k_pread_config = (\<lambda>k addr len. if addr = 0x3d then Some 1 else Some 0),
      k_pwrite_config = (\<lambda>k addr val len. k),
      k_set_irq_eventfd = (\<lambda>k fd. (False, k)),
      k_set_eventfds = (\<lambda>k is_msix fds. (is_msix \<and> hd fds \<noteq> 0, k)),
      k_unmask_irq = (\<lambda>k. k),
      k_eventfd = (\<lambda>k. (Some (int k + 10), Suc k)),
      uninit_fd = (\<lambda>i. - 1),
      pci_default_read_config = config_read_le,
      pci_default_write_config = config_write_le,
      msi_write_config = (\<lambda>cfg addr val len. cfg),
      msix_write_config = (\<lambda>cfg addr val len. cfg),
      msi_enabled = (\<lambda>cfg. cfg 0x52 AND 0x01 \<noteq> 0),
      msix_enabled = (\<lambda>cfg. cfg 0x63 AND 0x80 \<noteq> 0),
      msi_nr_vectors_allocated = (\<lambda>cfg. 1),
      pci_get_irq = (\<lambda>p. 11)\<rparr>"

definition irq_world0 :: "nat irq_world" where
  "irq_world0 =
     \<lparr>kern = 0, fd_handlers = (\<lambda>fd. None), notifiers = {}, gsi_eoi_notifiers = [],
      irq_update_notifiers = 0, msi_vectors_block = NO_BLOCK\<rparr>"

definition msi_vdev :: VFIODevice where
  "msi_vdev =
     example_vdev\<lparr>pdev := example_pdev\<lparr>cap_present := 3, msi_cap := 0x50, msix_cap := 0x60,
                                       msix_entries_nr := 2\<rparr>,
                  msi_cap_size := 0xa\<rparr>"

text \<open>
  Two states of that device: \<open>intx_state\<close> after \<^verbatim>\<open>vfio_enable_intx\<close> on the fresh
  device, and \<open>msi_state\<close> after a successful \<^verbatim>\<open>vfio_enable_msi(vdev, false)\<close> from there.
\<close>

definition intx_state :: "nat irq_state" where
  "intx_state = snd (vfio_enable_intx example_irq_env (irq_world0, msi_vdev))"

definition msi_state :: "nat irq_state" where
  "msi_state = vfio_enable_msi example_irq_env intx_state False"

text \<open>
  Four writes: set the MSI enable bit, write the same value again, clear the
  bit, and write the command register in the standard header.
\<close>

definition example_writes :: "config_write list" where
  "example_writes = [(0x52, 0x0001, 2), (0x52, 0x0001, 2), (0x52, 0x0000, 2), (0x04, 0x0007, 2)]"

text \<open>
  The same device with its MSI capability right behind the standard header,
  at \<^verbatim>\<open>0x40\<close> (the enable bit is bit 0 of the byte at \<^verbatim>\<open>0x42\<close>), and a write of
  four bytes at \<^verbatim>\<open>0x3f\<close> that starts in the header, reaches into the capability
  and sets the enable bit.
\<close>

definition msi40_irq_env :: "nat irq_env" where
  "msi40_irq_env = example_irq_env\<lparr>msi_enabled := (\<lambda>cfg. cfg 0x42 AND 0x01 \<noteq> 0)\<rparr>"

definition msi40_vdev :: VFIODevice where
  "msi40_vdev = msi_vdev\<lparr>pdev := (pdev msi_vdev)\<lparr>msi_cap := 0x40\<rparr>\<rparr>"

definition straddling_write :: config_write where
  "straddling_write = (0x3f, 0x01000000, 4)"

text \<open>
  Two writes to the MSI-X control register of \<open>msi_vdev\<close>: set the enable bit
  (the kernel of \<open>example_irq_env\<close> refuses the registration, so
  \<^verbatim>\<open>vfio_enable_msi\<close> frees \<^verbatim>\<open>msi_vectors\<close>), then clear it
  (\<^verbatim>\<open>vfio_disable_msi\<close> frees \<^verbatim>\<open>msi_vectors\<close> again).
\<close>

definition msix_on_off_writes :: "config_write list" where
  "msix_on_off_writes = [(0x62, 0x8000, 2), (0x62, 0x0000, 2)]"

section \<open>Resource mapper: \<^verbatim>\<open>vfio_map_resources\<close> and \<^verbatim>\<open>vfio_iomem_map\<close>\<close>

definition PCI_ROM_SLOT :: nat where "PCI_ROM_SLOT = 6"
definition PCI_BASE_ADDRESS_0 :: nat where "PCI_BASE_ADDRESS_0 = 0x10"
definition PCI_BASE_ADDRESS_SPACE :: u32 where "PCI_BASE_ADDRESS_SPACE = 0x01"
definition PCI_BASE_ADDRESS_SPACE_IO :: u32 where "PCI_BASE_ADDRESS_SPACE_IO = 0x01"
definition PCI_BASE_ADDRESS_SPACE_MEMORY :: u32 where "PCI_BASE_ADDRESS_SPACE_MEMORY = 0x00"
definition PCI_BASE_ADDRESS_MEM_TYPE_64 :: u32 where "PCI_BASE_ADDRESS_MEM_TYPE_64 = 0x04"
definition PCI_BASE_ADDRESS_MEM_PREFETCH :: u32 where "PCI_BASE_ADDRESS_MEM_PREFETCH = 0x08"
definition MSIX_PAGE_SIZE :: nat where "MSIX_PAGE_SIZE = 0x1000"

text \<open>
  What the mapper takes from outside \<^verbatim>\<open>hw/vfio.c\<close>. From the kernel channel:
  \<open>k_get_bar_len\<close> is \<^verbatim>\<open>VFIO_GET_BAR_LEN\<close> (\<open>None\<close> when the \<^verbatim>\<open>ioctl\<close> fails),
  \<open>k_pread_bar\<close> the 4-byte \<^verbatim>\<open>pread\<close> of a BAR register at
  \<^verbatim>\<open>VFIO_PCI_CONFIG_OFF + offset\<close> (\<open>None\<close> when it is short), \<open>k_mmap\<close> is
  \<^verbatim>\<open>mmap\<close> of a length at a file offset (\<open>None\<close> for \<^verbatim>\<open>MAP_FAILED\<close>);
  \<open>VFIO_PCI_BAR0_RESOURCE\<close> and \<open>vfio_pci_space_to_offset\<close> are the constant
  and the macro of \<^verbatim>\<open>linux-vfio.h\<close>. From QEMU: the device name used for the
  RAM blocks, the offset \<open>ram_offset\<close> that \<^verbatim>\<open>qemu_ram_alloc_from_ptr\<close> gives a
  new block next to the existing ones, and the value \<open>io_mem_token\<close> that
  \<^verbatim>\<open>cpu_register_io_memory\<close> returns for the \<open>n\<close>-th table.

  \<open>MAP_FAILED\<close> is the value \<^verbatim>\<open>(void *) -1\<close> of the host.

  The table offset \<^verbatim>\<open>res->msix_offset\<close> is a \<^verbatim>\<open>uint32_t\<close>, so the sum
  \<^verbatim>\<open>res->msix_offset + MSIX_PAGE_SIZE\<close> is taken in 32 bits. Lengths, file
  offsets and guest-physical addresses are 64-bit values in the code and
  natural numbers below \<open>2 ^ 64\<close> here; where the code subtracts or adds them
  the wrap-around is written out (\<open>u64_sub\<close>, \<open>u64_add\<close>).
\<close>

record 'k map_env =
  k_get_bar_len :: "'k \<Rightarrow> nat \<Rightarrow> nat option"
  k_pread_bar :: "'k \<Rightarrow> nat \<Rightarrow> u32 option"
  k_mmap :: "'k \<Rightarrow> nat \<Rightarrow> nat \<Rightarrow> nat option"
  VFIO_PCI_BAR0_RESOURCE :: nat
  vfio_pci_space_to_offset :: "nat \<Rightarrow> nat"
  MAP_FAILED :: nat
  dev_name :: string
  ram_offset :: "(string \<times> nat \<times> nat) list \<Rightarrow> nat \<Rightarrow> nat"
  io_mem_token :: "nat \<Rightarrow> nat"

definition u64_sub :: "nat \<Rightarrow> nat \<Rightarrow> nat" where
  "u64_sub a b = unat ((of_nat a :: u64) - of_nat b)"

definition u64_add :: "nat \<Rightarrow> nat \<Rightarrow> nat" where
  "u64_add a b = unat ((of_nat a :: u64) + of_nat b)"

text \<open>\<^verbatim>\<open>res->msix_offset + MSIX_PAGE_SIZE\<close>, as the \<^verbatim>\<open>uint32_t\<close> it is.\<close>

definition table_end :: "PCIResource \<Rightarrow> nat" where
  "table_end res = unat (msix_offset res + of_nat MSIX_PAGE_SIZE)"

text \<open>
  What a range of guest-physical addresses is backed with: RAM at a RAM
  offset (a direct mapping), an I/O table with a region offset (trapped
  access), or the emulation of the MSI-X table.
\<close>

datatype backing = DIRECT nat | TRAPPED nat nat | MSIX_TABLE

record phys_region =
  region_start :: nat
  region_len :: nat
  region_backing :: backing

text \<open>
  The state outside the device structure: the kernel, the RAM blocks made by
  \<^verbatim>\<open>qemu_ram_alloc_from_ptr\<close> (name, size, host address), the BARs that have an
  I/O table from \<^verbatim>\<open>cpu_register_io_memory\<close>, and the registrations of
  guest-physical memory in the order they were made.
\<close>

record 'k map_world =
  map_kern :: 'k
  ram_blocks :: "(string \<times> nat \<times> nat) list"
  io_tables :: "nat list"
  phys_map :: "phys_region list"

type_synonym 'k map_state = "'k map_world \<times> VFIODevice"

definition qemu_ram_alloc_from_ptr ::
  "'k map_env \<Rightarrow> string \<Rightarrow> nat \<Rightarrow> nat \<Rightarrow> 'k map_world \<Rightarrow> nat \<times> 'k map_world" where
  "qemu_ram_alloc_from_ptr env name sz hva w =
     (ram_offset env (ram_blocks w) sz,
      w\<lparr>ram_blocks := ram_blocks w @ [(name, sz, hva)]\<rparr>)"

definition cpu_register_io_memory :: "'k map_env \<Rightarrow> nat \<Rightarrow> 'k map_world \<Rightarrow> nat \<times> 'k map_world" where
  "cpu_register_io_memory env b w =
     (io_mem_token env (length (io_tables w)), w\<lparr>io_tables := io_tables w @ [b]\<rparr>)"

definition pci_register_bar :: "nat \<Rightarrow> nat \<Rightarrow> u32 \<Rightarrow> map_func \<Rightarrow> VFIODevice \<Rightarrow> VFIODevice" where
  "pci_register_bar i sz ty f vdev =
     vdev\<lparr>pdev := (pdev vdev)
       \<lparr>io_regions := (io_regions (pdev vdev))
           (i \<mapsto> \<lparr>region_size = sz, region_type = ty, region_map = f\<rparr>)\<rparr>\<rparr>"

definition set_resource :: "nat \<Rightarrow> PCIResource \<Rightarrow> VFIODevice \<Rightarrow> VFIODevice" where
  "set_resource i res vdev = vdev\<lparr>resources := (resources vdev)[i := res]\<rparr>"

text \<open>
  \<^verbatim>\<open>snprintf(name, sizeof(name), "%s.bar%d", ..., i)\<close> into a buffer of 32 bytes
  (\<open>i\<close> has one digit). The suffixes \<^verbatim>\<open>".0"\<close> and \<^verbatim>\<open>".1"\<close> that \<^verbatim>\<open>strncat\<close> adds
  are appended to it where the name is used; the buffer is taken to have room
  for them (a device name of at most 24 characters).
\<close>

definition bar_name :: "'k map_env \<Rightarrow> nat \<Rightarrow> string" where
  "bar_name env i = take 31 (dev_name env @ ''.bar'' @ [char_of (48 + i)])"

definition mem_type :: "u32 \<Rightarrow> u32" where
  "mem_type b =
     (if b AND PCI_BASE_ADDRESS_MEM_PREFETCH \<noteq> 0 then PCI_BASE_ADDRESS_MEM_PREFETCH
      else PCI_BASE_ADDRESS_SPACE_MEMORY)"

text \<open>
  The direct mapping of a page-aligned memory BAR: the three-way branch on
  \<^verbatim>\<open>res->msix\<close>. \<open>False\<close> stands for \<^verbatim>\<open>return -1\<close> after a failed \<^verbatim>\<open>mmap\<close>; the
  state is returned in both cases.
\<close>

definition map_direct ::
  "'k map_env \<Rightarrow> nat \<Rightarrow> nat \<Rightarrow> PCIResource \<Rightarrow> 'k map_world \<Rightarrow> bool \<times> PCIResource \<times> 'k map_world" where
  "map_direct env i len res w =
     (let off = VFIO_PCI_BAR0_RESOURCE env + i; name = bar_name env i in
      if msix res then
        (case
           (if msix_offset res \<noteq> 0 then
              (case k_mmap (env) (map_kern w) (unat (msix_offset res))
                      (vfio_pci_space_to_offset env off) of
                 None \<Rightarrow>
                   (False, res\<lparr>r_virtbase := (r_virtbase res)(0 := MAP_FAILED env)\<rparr>, w)
               | Some v \<Rightarrow>
                   (case qemu_ram_alloc_from_ptr env (name @ ''.0'') (unat (msix_offset res)) v w of
                      (idx, w1) \<Rightarrow>
                        (True,
                         res\<lparr>r_virtbase := (r_virtbase res)(0 := v),
                             memory_index := (memory_index res)(0 := idx)\<rparr>, w1)))
            else (True, res, w)) of
           (False, res1, w1) \<Rightarrow> (False, res1, w1)
         | (True, res1, w1) \<Rightarrow>
             if table_end res1 < len then
               (case k_mmap env (map_kern w1)
                       (u64_sub (u64_sub len (unat (msix_offset res1))) MSIX_PAGE_SIZE)
                       (u64_add (u64_add (vfio_pci_space_to_offset env off)
                                   (unat (msix_offset res1))) MSIX_PAGE_SIZE) of
                  None \<Rightarrow>
                    (False, res1\<lparr>r_virtbase := (r_virtbase res1)(1 := MAP_FAILED env)\<rparr>, w1)
                | Some v \<Rightarrow>
                    (case qemu_ram_alloc_from_ptr env (name @ ''.1'')
                            (u64_sub (u64_sub len MSIX_PAGE_SIZE) (unat (msix_offset res1))) v w1 of
                       (idx, w2) \<Rightarrow>
                         (True,
                          res1\<lparr>r_virtbase := (r_virtbase res1)(1 := v),
                               memory_index := (memory_index res1)(1 := idx)\<rparr>, w2)))
             else (True, res1, w1))
      else
        (case k_mmap env (map_kern w) len (vfio_pci_space_to_offset env off) of
           None \<Rightarrow> (False, res\<lparr>r_virtbase := (r_virtbase res)(0 := MAP_FAILED env)\<rparr>, w)
         | Some v \<Rightarrow>
             (case qemu_ram_alloc_from_ptr env name len v w of
                (idx, w1) \<Rightarrow>
                  (True,
                   res\<lparr>r_virtbase := (r_virtbase res)(0 := v),
                       memory_index := (memory_index res)(0 := idx)\<rparr>, w1))))"

text \<open>
  One round of the \<^verbatim>\<open>for\<close> loop of \<^verbatim>\<open>vfio_map_resources\<close>, for slot \<open>i\<close>. The
  result is \<open>(Some r, state, _)\<close> for \<^verbatim>\<open>return r\<close>, and otherwise
  \<open>(None, state, skip)\<close> where \<open>skip\<close> tells whether the round did \<^verbatim>\<open>i++\<close>
  for the upper half of a 64-bit BAR.
\<close>

definition vfio_map_bar ::
  "'k map_env \<Rightarrow> 'k map_state \<Rightarrow> nat \<Rightarrow> int option \<times> 'k map_state \<times> bool" where
  "vfio_map_bar env s i =
     (case s of (w, vdev0) \<Rightarrow>
        let res0 = (resources vdev0 ! i)\<lparr>res_vfiofd := vfiofd vdev0, bar := i\<rparr>;
            vdev = set_resource i res0 vdev0
        in case k_get_bar_len env (map_kern w) i of
             None \<Rightarrow> (Some (- 1), (w, vdev), False)
           | Some len \<Rightarrow>
               if len = 0 then (None, (w, vdev), False)
               else
                 (case k_pread_bar env (map_kern w) (PCI_BASE_ADDRESS_0 + 4 * i) of
                    None \<Rightarrow> (Some (- 1), (w, vdev), False)
                  | Some b \<Rightarrow>
                      let space = b AND PCI_BASE_ADDRESS_SPACE;
                          is64 = (b AND PCI_BASE_ADDRESS_MEM_TYPE_64 \<noteq> 0)
                      in
                      if space = PCI_BASE_ADDRESS_SPACE_MEMORY \<and> len mod 0x1000 = 0 then
                        (case map_direct env i len (res0\<lparr>mem := True, res_size := len\<rparr>) w of
                           (False, res1, w1) \<Rightarrow> (Some (- 1), (w1, set_resource i res1 vdev), False)
                         | (True, res1, w1) \<Rightarrow>
                             (None,
                              (w1, set_resource i (res1\<lparr>valid := True\<rparr>)
                                     (pci_register_bar i len (mem_type b) MAP_IOMEM vdev)),
                              is64))
                      else if space = PCI_BASE_ADDRESS_SPACE_MEMORY then
                        (case cpu_register_io_memory env i w of
                           (tok, w1) \<Rightarrow>
                             (None,
                              (w1, set_resource i
                                     (res0\<lparr>mem := True, res_size := len, slow := True,
                                           io_mem := tok, valid := True\<rparr>)
                                     (pci_register_bar i len (mem_type b) MAP_IOMEM vdev)),
                              is64))
                      else if space = PCI_BASE_ADDRESS_SPACE_IO then
                        (None,
                         (w, set_resource i (res0\<lparr>res_size := len, valid := True\<rparr>)
                               (pci_register_bar i len PCI_BASE_ADDRESS_SPACE_IO MAP_IOPORT vdev)),
                         False)
                      else (None, (w, set_resource i (res0\<lparr>valid := True\<rparr>) vdev), False)))"

function map_resources_loop :: "'k map_env \<Rightarrow> 'k map_state \<Rightarrow> nat \<Rightarrow> int \<times> 'k map_state" where
  "map_resources_loop env s i =
     (if PCI_ROM_SLOT \<le> i then (0, s)
      else
        (case vfio_map_bar env s i of
           (Some r, s1, skip) \<Rightarrow> (r, s1)
         | (None, s1, skip) \<Rightarrow> map_resources_loop env s1 (if skip then Suc (Suc i) else Suc i)))"
  by pat_completeness auto
termination
  by (relation "measure (\<lambda>(env, s, i). PCI_ROM_SLOT - i)") auto

definition vfio_map_resources :: "'k map_env \<Rightarrow> 'k map_state \<Rightarrow> int \<times> 'k map_state" where
  "vfio_map_resources env s = map_resources_loop env s 0"

text \<open>
  Modelled from the spec: \<^verbatim>\<open>cpu_register_physical_memory\<close> and
  \<^verbatim>\<open>cpu_register_physical_memory_offset\<close> of the guest physical-memory
  allocator, which is not among the sources at hand ("map the region before
  the table directly", "create a second direct mapping", "any access to the
  table page itself is served by table emulation"). A call adds a
  registration; an access is served by the latest registration that covers
  its address.
\<close>

definition cpu_register_physical_memory ::
  "nat \<Rightarrow> nat \<Rightarrow> backing \<Rightarrow> 'k map_world \<Rightarrow> 'k map_world" where
  "cpu_register_physical_memory start sz b w =
     w\<lparr>phys_map := phys_map w @ [\<lparr>region_start = start, region_len = sz, region_backing = b\<rparr>]\<rparr>"





subsection \<open>A concrete setting\<close>

text \<open>
  A kernel that knows, for each of the six slots, the length of the BAR and
  the value of its BAR register; \<^verbatim>\<open>mmap\<close> succeeds and gives an address that
  tells the file offset; \<open>vfio_pci_space_to_offset\<close> as in \<^verbatim>\<open>linux-vfio.h\<close>
  (the resource number in the upper 32 bits). RAM blocks are laid out one
  after the other.
\<close>

definition example_map_env :: "(nat \<times> u32) list map_env" where
  "example_map_env =
     \<lparr>k_get_bar_len = (\<lambda>k i. if i < length k then Some (fst (k ! i)) else None),
      k_pread_bar = (\<lambda>k off.
         if PCI_BASE_ADDRESS_0 \<le> off \<and> (off - PCI_BASE_ADDRESS_0) div 4 < length k
         then Some (snd (k ! ((off - PCI_BASE_ADDRESS_0) div 4))) else None),
      k_mmap = (\<lambda>k len off. Some (0x7f0000000000 + off)),
      VFIO_PCI_BAR0_RESOURCE = 0,
      vfio_pci_space_to_offset = (\<lambda>n. n * 2 ^ 32),
      MAP_FAILED = 2 ^ 64 - 1,
      dev_name = ''vfio'',
      ram_offset = (\<lambda>blocks sz. foldr (\<lambda>b acc. fst (snd b) + acc) blocks 0),
      io_mem_token = Suc\<rparr>"

definition map_world0 :: "'k \<Rightarrow> 'k map_world" where
  "map_world0 k = \<lparr>map_kern = k, ram_blocks = [], io_tables = [], phys_map = []\<rparr>"

text \<open>
  BAR 0 is a 32-bit memory BAR of \<open>len0\<close> bytes, BAR 2 an I/O BAR of 32 bytes,
  the other slots are not implemented (length 0).
\<close>

definition example_bars :: "nat \<Rightarrow> (nat \<times> u32) list" where
  "example_bars len0 = [(len0, 0), (0, 0), (0x20, 1), (0, 0), (0, 0), (0, 0)]"

text \<open>
  The device after \<^verbatim>\<open>vfio_setup_msi\<close> has found an MSI-X capability whose
  table is in BAR 0 at offset \<open>0x1000\<close>.
\<close>

definition msix_bar_vdev :: VFIODevice where
  "msix_bar_vdev =
     example_vdev\<lparr>resources :=
       (replicate 6 zero_resource)[0 := zero_resource\<lparr>msix := True, msix_offset := 0x1000\<rparr>]\<rparr>"

text \<open>
  The run of \<^verbatim>\<open>vfio_map_resources\<close> on this device, and then the guest placing
  BAR 0 at \<open>0xfe000000\<close>.
\<close>

definition mapped_state :: "nat \<Rightarrow> (nat \<times> u32) list map_state" where
  "mapped_state len0 =
     snd (vfio_map_resources example_map_env (map_world0 (example_bars len0), msix_bar_vdev))"


subsection \<open>What a run does to one slot\<close>

text \<open>
  \<open>slot_same\<close>: the descriptor of slot \<open>j\<close> and the registration of BAR \<open>j\<close> are
  the same in both device states. \<open>slot_ok\<close>: between the two device states,
  a slot of reported length zero has kept its \<open>valid\<close> flag and its
  registration, and a slot that became valid or was registered has a reported
  length that is not zero.
\<close>

definition slot_ok :: "'k map_env \<Rightarrow> 'k \<Rightarrow> VFIODevice \<Rightarrow> VFIODevice \<Rightarrow> nat \<Rightarrow> bool" where
  "slot_ok env k vdev vdev' j \<longleftrightarrow>
     (k_get_bar_len env k j = Some 0 \<longrightarrow>
        valid (resources vdev' ! j) = valid (resources vdev ! j) \<and>
        io_regions (pdev vdev') j = io_regions (pdev vdev) j) \<and>
     (valid (resources vdev' ! j) \<longrightarrow>
        valid (resources vdev ! j) \<or>
        (\<exists>len. k_get_bar_len env k j = Some len \<and> len \<noteq> 0 \<and>
               res_size (resources vdev' ! j) = len)) \<and>
     (io_regions (pdev vdev') j \<noteq> io_regions (pdev vdev) j \<longrightarrow>
        (\<exists>len. k_get_bar_len env k j = Some len \<and> len \<noteq> 0))"

definition slot_same :: "VFIODevice \<Rightarrow> VFIODevice \<Rightarrow> nat \<Rightarrow> bool" where
  "slot_same vdev vdev' j \<longleftrightarrow>
     resources vdev' ! j = resources vdev ! j \<and>
     io_regions (pdev vdev') j = io_regions (pdev vdev) j"

subsection \<open>The state in which a slot is reached\<close>


subsection \<open>Direct mappings\<close>

text \<open>
  The registrations of guest-physical memory that are backed by a direct
  mapping.
\<close>

fun is_direct :: "backing \<Rightarrow> bool" where
  "is_direct (DIRECT idx) = True"
| "is_direct (TRAPPED tok region_offset) = False"
| "is_direct MSIX_TABLE = False"

definition direct_regions :: "'k map_world \<Rightarrow> phys_region list" where
  "direct_regions w = filter (\<lambda>r. is_direct (region_backing r)) (phys_map w)"

section \<open>Capability scanner: proofs\<close>

lemma cap_loop_iters: "snd (cap_loop n cfg cap pos) \<le> n"
  by (induction n arbitrary: pos) (auto simp: Let_def split_beta intro: le_SucI)

lemma cap_loop_chain:
  "fst (cap_loop n cfg cap pos) = first_match cfg cap (cap_chain n cfg pos)"
  by (induction n arbitrary: pos)
     (auto simp: Let_def first_match_def PCI_CONFIG_HEADER_SIZE_def PCI_CAP_LIST_ID_def
        PCI_CAP_LIST_NEXT_def split_beta)

lemma max_cap_48: "max_cap = 48"
  by (simp add: max_cap_def PCI_CONFIG_SPACE_SIZE_def PCI_CONFIG_HEADER_SIZE_def
      PCI_CAP_SIZEOF_def)

lemma cap_chain_range:
  "p \<in> set (cap_chain n cfg ptr) \<Longrightarrow>
   0x40 \<le> unat p \<and> cfg (unat p) \<noteq> 0xff \<and> p AND 3 = 0"
proof (induction n arbitrary: ptr)
  case 0 then show ?case by simp
next
  case (Suc n)
  have m: "(x AND - 4) AND 3 = (0::u8)" for x
    by (simp add: and.assoc)
  from Suc show ?case
    by (auto simp: Let_def m split: if_splits)
qed

lemma first_match_split:
  "first_match cfg cap ps = r \<Longrightarrow> r \<noteq> 0 \<Longrightarrow>
   \<exists>us vs. ps = us @ r # vs \<and> cfg (unat r) = cap \<and> (\<forall>u\<in>set us. cfg (unat u) \<noteq> cap)"
proof (induction ps)
  case Nil then show ?case by (simp add: first_match_def)
next
  case (Cons a ps)
  show ?case
  proof (cases "cfg (unat a) = cap")
    case True
    with Cons.prems have "r = a" by (simp add: first_match_def)
    with True show ?thesis by (intro exI[of _ "[]"] exI[of _ ps]) simp
  next
    case False
    with Cons.prems have "first_match cfg cap ps = r" by (simp add: first_match_def)
    from Cons.IH[OF this Cons.prems(2)] obtain us vs where
      "ps = us @ r # vs" "cfg (unat r) = cap" "\<forall>u\<in>set us. cfg (unat u) \<noteq> cap"
      by blast
    with False show ?thesis by (intro exI[of _ "a # us"] exI[of _ vs]) simp
  qed
qed

text \<open>Each entry of the list is determined by its predecessor.\<close>

lemma cap_chain_hd:
  "cap_chain n cfg q \<noteq> [] \<Longrightarrow> cap_chain n cfg q ! 0 = cfg (unat q) AND NOT 3"
  by (cases n) (auto simp: Let_def split: if_splits)

lemma cap_chain_nth_Suc:
  "Suc i < length (cap_chain n cfg ptr) \<Longrightarrow>
   cap_chain n cfg ptr ! Suc i = cfg (unat (cap_chain n cfg ptr ! i + 1)) AND NOT 3"
proof (induction n arbitrary: ptr i)
  case 0 then show ?case by simp
next
  case (Suc n)
  let ?p = "cfg (unat ptr) AND NOT 3"
  from Suc.prems have eq: "cap_chain (Suc n) cfg ptr = ?p # cap_chain n cfg (?p + 1)"
    by (auto simp: Let_def split: if_splits)
  show ?case
  proof (cases i)
    case 0
    from Suc.prems eq have "cap_chain n cfg (?p + 1) \<noteq> []" by auto
    from cap_chain_hd[OF this] show ?thesis using eq 0 by simp
  next
    case (Suc i')
    from Suc.prems eq Suc have "Suc i' < length (cap_chain n cfg (?p + 1))" by simp
    from Suc.IH[OF this] show ?thesis using eq Suc by simp
  qed
qed

lemma cap_chain_shift:
  "j + d < length (cap_chain n cfg ptr) \<Longrightarrow> i < j \<Longrightarrow>
   cap_chain n cfg ptr ! i = cap_chain n cfg ptr ! j \<Longrightarrow>
   cap_chain n cfg ptr ! (i + d) = cap_chain n cfg ptr ! (j + d)"
proof (induction d)
  case 0 then show ?case by simp
next
  case (Suc d)
  then have "cap_chain n cfg ptr ! (i + d) = cap_chain n cfg ptr ! (j + d)" by simp
  moreover have "Suc (i + d) < length (cap_chain n cfg ptr)"
    "Suc (j + d) < length (cap_chain n cfg ptr)"
    using Suc.prems by simp_all
  ultimately show ?case
    using cap_chain_nth_Suc[of "i + d" n cfg ptr] cap_chain_nth_Suc[of "j + d" n cfg ptr]
    by simp
qed

lemma cap_chain_take: "cap_chain n cfg ptr = take n (cap_chain (n + m) cfg ptr)"
  by (induction n arbitrary: ptr) (auto simp: Let_def)

text \<open>There are only 48 dword-aligned offsets above the standard header.\<close>

lemma card_cap_slots: "card cap_slots \<le> 48"
proof -
  have "cap_slots \<subseteq> (\<lambda>k. word_of_nat (4 * k)) ` {16..<64}"
  proof
    fix p :: u8 assume "p \<in> cap_slots"
    then have a: "64 \<le> unat p" and b: "p AND 3 = 0" by (auto simp: cap_slots_def)
    have "unat (p AND mask 2) = unat p mod 4"
      by (simp add: unat_mod flip: take_bit_eq_mask) (simp add: take_bit_eq_mod unat_mod)
    with b have c: "unat p mod 4 = 0" by (simp add: mask_eq_exp_minus_1)
    have d: "unat p < 256" using unsigned_less[of p] by simp
    have "p = word_of_nat (4 * (unat p div 4))" using c by (simp add: mod_0_imp_dvd)
    moreover have "unat p div 4 \<in> {16..<64}" using a d by auto
    ultimately show "p \<in> (\<lambda>k. word_of_nat (4 * k)) ` {16..<64}" by blast
  qed
  then have "card cap_slots \<le> card ((\<lambda>k. word_of_nat (4 * k) :: u8) ` {16..<64})"
    by (intro card_mono) auto
  also have "\<dots> \<le> card {16..<64::nat}" by (rule card_image_le) simp
  finally show ?thesis by simp
qed

text \<open>
  A first match is never beyond the 48th entry: up to the first match the
  entries are pairwise distinct, since a repeated offset would repeat the
  ids that follow it.
\<close>

lemma first_match_index_bound:
  assumes k: "k < length (cap_chain n cfg ptr)"
    and P: "cfg (unat (cap_chain n cfg ptr ! k)) = cap"
    and first: "\<forall>j<k. cfg (unat (cap_chain n cfg ptr ! j)) \<noteq> cap"
  shows "k < 48"
proof -
  let ?L = "cap_chain n cfg ptr"
  have dist: "distinct (take (Suc k) ?L)"
  proof (rule ccontr)
    assume "\<not> distinct (take (Suc k) ?L)"
    then obtain i j where ij: "i < j" "j < Suc k" "?L ! i = ?L ! j"
      using k by (auto simp: distinct_conv_nth) (metis nat_neq_iff)+
    then have "j + (k - j) < length ?L" using k by simp
    from cap_chain_shift[OF this ij(1) ij(3)] have "?L ! (i + (k - j)) = ?L ! k"
      using ij by simp
    moreover have "i + (k - j) < k" using ij by simp
    ultimately show False using P first by metis
  qed
  have "set (take (Suc k) ?L) \<subseteq> cap_slots"
    using cap_chain_range[of _ n cfg ptr] by (auto simp: cap_slots_def dest!: in_set_takeD)
  then have "card (set (take (Suc k) ?L)) \<le> card cap_slots"
    by (intro card_mono) auto
  with dist k card_cap_slots have "Suc k \<le> 48" by (simp add: distinct_card)
  then show ?thesis by simp
qed

lemma find_take_first:
  "i < m \<Longrightarrow> i < length xs \<Longrightarrow> P (xs ! i) \<Longrightarrow> \<forall>j<i. \<not> P (xs ! j) \<Longrightarrow>
   find P (take m xs) = Some (xs ! i)"
  by (simp add: find_Some_iff) (rule exI[of _ i], simp)

lemma find_take_None: "find P xs = None \<Longrightarrow> find P (take m xs) = None"
  by (auto simp: find_None_iff dest: in_set_takeD)

lemma cap_chain_bound_lossless:
  assumes "48 \<le> n"
  shows "first_match cfg cap (cap_chain n cfg ptr) =
         first_match cfg cap (cap_chain 48 cfg ptr)"
proof -
  let ?L = "cap_chain n cfg ptr"
  let ?P = "\<lambda>p. cfg (unat p) = cap"
  from assms obtain m where n: "n = 48 + m" using le_Suc_ex by blast
  have tk: "cap_chain 48 cfg ptr = take 48 ?L" unfolding n by (rule cap_chain_take)
  show ?thesis
  proof (cases "find ?P ?L")
    case None
    then show ?thesis unfolding first_match_def tk by (simp add: find_take_None)
  next
    case (Some r)
    then obtain k where k: "k < length ?L" "?P (?L ! k)" "r = ?L ! k" "\<forall>j<k. \<not> ?P (?L ! j)"
      by (auto simp: find_Some_iff)
    from first_match_index_bound[OF k(1) k(2)] k(4) have "k < 48" by simp
    from find_take_first[of k 48 ?L ?P, OF this k(1) k(2) k(4)] Some k(3)
    show ?thesis unfolding first_match_def tk by simp
  qed
qed

text \<open>
  Claim C7. For every config image, malformed and cyclic lists included, the
  scanner enters its loop body at most \<open>max_cap = (256 - 64) / 4 = 48\<close> times.
  It returns 0 when the capability-list status bit is clear; otherwise it
  returns the offset of the first entry of the capability list whose id is
  the requested one, and 0 when the list ends (empty list, pointer into the
  standard header, terminator id) or runs out of the bound with no such
  entry. The bound loses nothing: the answer is the same for the list cut at
  any length \<open>n \<ge> max_cap\<close>.
\<close>

theorem vfio_find_cap_offset_first_match:
  assumes n: "max_cap \<le> n"
  shows "snd (find_cap_run cfg cap) \<le> max_cap \<and> max_cap = 48 \<and>
     vfio_find_cap_offset cfg cap =
       (if cfg PCI_STATUS AND PCI_STATUS_CAP_LIST = 0 then 0
        else first_match cfg cap (cap_chain n cfg PCI_CAPABILITY_LIST)) \<and>
     (vfio_find_cap_offset cfg cap \<noteq> 0 \<longrightarrow>
        (\<exists>us vs. cap_chain n cfg PCI_CAPABILITY_LIST =
                    us @ vfio_find_cap_offset cfg cap # vs \<and>
                 cfg (unat (vfio_find_cap_offset cfg cap)) = cap \<and>
                 (\<forall>u\<in>set us. cfg (unat u) \<noteq> cap)))"
proof -
  have iters: "snd (find_cap_run cfg cap) \<le> max_cap"
    by (simp add: find_cap_run_def cap_loop_iters)
  have "first_match cfg cap (cap_chain max_cap cfg PCI_CAPABILITY_LIST) =
        first_match cfg cap (cap_chain n cfg PCI_CAPABILITY_LIST)"
    using n cap_chain_bound_lossless[of n cfg cap PCI_CAPABILITY_LIST]
    by (simp add: max_cap_48)
  then have val: "vfio_find_cap_offset cfg cap =
       (if cfg PCI_STATUS AND PCI_STATUS_CAP_LIST = 0 then 0
        else first_match cfg cap (cap_chain n cfg PCI_CAPABILITY_LIST))"
    by (simp add: vfio_find_cap_offset_def find_cap_run_def cap_loop_chain)
  have split: "\<exists>us vs. cap_chain n cfg PCI_CAPABILITY_LIST =
                    us @ vfio_find_cap_offset cfg cap # vs \<and>
                 cfg (unat (vfio_find_cap_offset cfg cap)) = cap \<and>
                 (\<forall>u\<in>set us. cfg (unat u) \<noteq> cap)"
    if nz: "vfio_find_cap_offset cfg cap \<noteq> 0"
  proof -
    from nz val have "first_match cfg cap (cap_chain n cfg PCI_CAPABILITY_LIST) =
        vfio_find_cap_offset cfg cap"
      by (simp split: if_splits)
    from first_match_split[OF this nz] show ?thesis .
  qed
  from iters val split show ?thesis by (simp add: max_cap_48)
qed

theorem vfio_find_cap_offset_first_match_witness:
  "max_cap \<le> 48 \<and>
   snd (find_cap_run example_config 0x11) \<le> max_cap \<and>
   vfio_find_cap_offset example_config 0x11 = 0x60 \<and>
   first_match example_config 0x11 (cap_chain 48 example_config PCI_CAPABILITY_LIST) = 0x60 \<and>
   (\<exists>us vs. cap_chain 48 example_config PCI_CAPABILITY_LIST = us @ 0x60 # vs \<and>
       example_config (unat (0x60 :: u8)) = 0x11 \<and>
       (\<forall>u\<in>set us. example_config (unat u) \<noteq> 0x11)) \<and>
   vfio_find_cap_offset cyclic_config 0x11 = 0 \<and>
   find_cap_run cyclic_config 0x11 = (0, 48)"
proof -
  have m: "max_cap \<le> 48" by (simp add: max_cap_48)
  have v: "vfio_find_cap_offset example_config 0x11 = 0x60" by code_simp
  have s: "example_config 6 AND PCI_STATUS_CAP_LIST \<noteq> 0" by code_simp
  have c: "vfio_find_cap_offset cyclic_config 0x11 = 0" by code_simp
  have d: "find_cap_run cyclic_config 0x11 = (0, 48)" by code_simp
  from vfio_find_cap_offset_first_match[where n=48 and cfg=example_config and cap="0x11", OF m]
  show ?thesis using c d s by (simp add: v PCI_STATUS_def max_cap_48)
qed


section \<open>Hot-remove protocol handler: proofs\<close>

lemma nl_lookup_None:
  "nl_lookup s b d f vs = None \<longleftrightarrow> (\<forall>v\<in>set vs. \<not> nl_match s b d f v)"
  by (induction vs) auto

lemma nl_lookup_Some:
  "nl_lookup s b d f vs = Some i \<Longrightarrow>
   i < length vs \<and> nl_match s b d f (vs ! i) \<and> (\<forall>j<i. \<not> nl_match s b d f (vs ! j))"
  by (induction vs arbitrary: i) (auto split: if_splits simp: nth_Cons split: nat.splits)

text \<open>
  The handler is not inert: a removal request of the kernel for a registered
  device sends one unplug request and arms the timer 30 seconds ahead.
\<close>

lemma parse_netlink_remove_registered:
  "vfio_parse_netlink 1000 [example_vdev] kernel_remove =
     (0, [example_vdev\<lparr>pdev := example_pdev\<lparr>unplug_requests := 1\<rparr>,
                       remove_timer := Some 31000\<rparr>])"
  by (simp add: vfio_parse_netlink_def kernel_remove_def example_vdev_def nl_match_def
      qdev_unplug_def example_pdev_def)

text \<open>
  Claim C8. A \<^verbatim>\<open>REMOVE\<close> message whose device identity \<open>(s, b, d, f)\<close> matches no
  device of the registry is a no-op: the handler returns 0 and the registry,
  with every device in it (timers and unplug requests included), is what it
  was.
\<close>

theorem parse_netlink_remove_unregistered:
  assumes "nl_cmd msg = VFIO_MSG_REMOVE"
    and "VFIO_ATTR_PCI_DOMAIN msg = Some s" and "VFIO_ATTR_PCI_BUS msg = Some b"
    and "VFIO_ATTR_PCI_SLOT msg = Some d" and "VFIO_ATTR_PCI_FUNC msg = Some f"
    and "\<forall>v\<in>set nl_list. \<not> nl_match s b d f v"
  shows "vfio_parse_netlink now nl_list msg = (0, nl_list)"
  using assms by (simp add: vfio_parse_netlink_def nl_lookup_None[THEN iffD2])

theorem parse_netlink_remove_unregistered_witness:
  "nl_cmd stray_remove = VFIO_MSG_REMOVE \<and>
   VFIO_ATTR_PCI_BUS stray_remove = Some 2 \<and>
   \<not> nl_match 0 2 0 0 example_vdev \<and>
   vfio_parse_netlink 1000 [example_vdev] stray_remove = (0, [example_vdev])"
proof -
  have nm: "\<forall>v\<in>set [example_vdev]. \<not> nl_match 0 2 0 0 v"
    by (simp add: nl_match_def example_vdev_def)
  have "vfio_parse_netlink 1000 [example_vdev] stray_remove = (0, [example_vdev])"
    by (rule parse_netlink_remove_unregistered[where s=0 and b=2 and d=0 and f=0, OF _ _ _ _ _ nm])
       (simp_all add: stray_remove_def kernel_remove_def)
  then show ?thesis using nm by (simp add: stray_remove_def kernel_remove_def)
qed

text \<open>
  Claim C10. A message whose sender has a nonzero port id is dropped before
  the attributes are parsed and before any lookup: whatever its command and
  attributes, the handler returns 0 and leaves the registry and every device
  as they were.
\<close>

theorem parse_netlink_foreign_sender_ignored:
  "nl_pid msg \<noteq> 0 \<Longrightarrow> vfio_parse_netlink now nl_list msg = (0, nl_list)"
  by (simp add: vfio_parse_netlink_def)

theorem parse_netlink_foreign_sender_ignored_witness:
  "nl_pid forged_remove \<noteq> 0 \<and>
   nl_match 0 1 0 0 example_vdev \<and>
   vfio_parse_netlink 1000 [example_vdev] forged_remove = (0, [example_vdev])"
proof -
  have p: "nl_pid forged_remove \<noteq> 0" by (simp add: forged_remove_def)
  from parse_netlink_foreign_sender_ignored[OF p, of 1000 "[example_vdev]"] p
  show ?thesis by (simp add: nl_match_def example_vdev_def)
qed


section \<open>DMA translator: proofs\<close>





















lemma page_size_unat:
  assumes "TARGET_PAGE_BITS env < 64"
  shows "unat (TARGET_PAGE_SIZE env) = 2 ^ TARGET_PAGE_BITS env"
proof -
  have "(2::nat) ^ TARGET_PAGE_BITS env < 2 ^ 64"
    using assms by (intro power_strict_increasing) simp_all
  with assms show ?thesis
    unfolding TARGET_PAGE_SIZE_def unsigned_push_bit_eq
    by (simp add: take_bit_nat_eq_self)
qed

lemma not_page_mask: "NOT (TARGET_PAGE_MASK env) = mask (TARGET_PAGE_BITS env)"
  by (simp add: TARGET_PAGE_MASK_def TARGET_PAGE_SIZE_def mask_eq_exp_minus_1)

lemma unat_and_mask: "unat (x AND mask b) = unat x mod 2 ^ b" for x :: u64
proof -
  have "unat (take_bit b x) = take_bit b (unat x)" by (rule unsigned_take_bit_eq)
  then show ?thesis unfolding take_bit_eq_mask[symmetric] by (simp only: take_bit_eq_mod)
qed

lemma pg_aligned_dvd:
  assumes b: "TARGET_PAGE_BITS env < 64"
  shows "pg_aligned env x \<longleftrightarrow> unat (TARGET_PAGE_SIZE env) dvd unat x"
proof -
  have "x AND mask (TARGET_PAGE_BITS env) = 0 \<longleftrightarrow> unat (x AND mask (TARGET_PAGE_BITS env)) = 0"
    by (simp add: unat_eq_0)
  then show ?thesis
    by (simp add: pg_aligned_def not_page_mask page_size_unat[OF b] dvd_eq_mod_eq_0 unat_and_mask)
qed

lemma aligned_or:
  "(a OR s) AND NOT (TARGET_PAGE_MASK env) = 0 \<longleftrightarrow> pg_aligned env a \<and> pg_aligned env s"
  by (simp add: pg_aligned_def bit.conj_disj_distrib2 or_eq_0_iff)


lemma vfio_dma_map_single:
  assumes "sz \<noteq> 0" "sz \<le> VFIO_MAX_MAP_SIZE env"
  shows "vfio_dma_map env fd st a sz p =
     (case dma_ioctl env st
             (VFIO_MAP_DMA fd \<lparr>vaddr = qemu_get_ram_ptr env p, dmaaddr = a, dma_size = sz,
                                flags = VFIO_FLAG_WRITE\<rparr>) of
        (e, st1) \<Rightarrow> Some (- int e, st1))"
proof -
  have m: "min sz (VFIO_MAX_MAP_SIZE env) = sz" using assms(2) by (simp add: min_def)
  have z: "dma_map_loop env fd st1 dm 0 = Some (0, st1)" for st1 dm
    by (subst dma_map_loop.simps) simp
  show ?thesis
    unfolding vfio_dma_map_def
    by (subst dma_map_loop.simps) (simp add: assms(1) m Let_def z split: prod.splits)
qed

lemma page_step:
  assumes b: "TARGET_PAGE_BITS env < 64"
    and al: "pg_aligned env cur" "pg_aligned env end_addr"
    and lt: "cur < end_addr"
  shows "pg_aligned env (cur + TARGET_PAGE_SIZE env)"
    and "cur + TARGET_PAGE_SIZE env \<le> end_addr"
    and "(unat end_addr - unat (cur + TARGET_PAGE_SIZE env)) div unat (TARGET_PAGE_SIZE env) =
         (unat end_addr - unat cur) div unat (TARGET_PAGE_SIZE env) - 1"
    and "0 < (unat end_addr - unat cur) div unat (TARGET_PAGE_SIZE env)"
proof -
  let ?P = "unat (TARGET_PAGE_SIZE env)"
  have P: "0 < ?P" by (simp add: page_size_unat[OF b])
  from al have d: "?P dvd unat cur" "?P dvd unat end_addr" by (simp_all add: pg_aligned_dvd[OF b])
  from lt have l: "unat cur < unat end_addr" by (simp add: word_less_nat_alt)
  from d have dd: "?P dvd unat end_addr - unat cur" by (rule dvd_diff_nat[rotated])
  with l P have le: "?P \<le> unat end_addr - unat cur" by (intro dvd_imp_le) simp_all
  then have "unat cur + ?P \<le> unat end_addr" using l by simp
  moreover have "unat end_addr < 2 ^ 64" using unsigned_less[of end_addr] by simp
  ultimately have u: "unat (cur + TARGET_PAGE_SIZE env) = unat cur + ?P"
    by (simp add: unat_add_lem[THEN iffD1])
  show "pg_aligned env (cur + TARGET_PAGE_SIZE env)"
    using d by (simp add: pg_aligned_dvd[OF b] u)
  show "cur + TARGET_PAGE_SIZE env \<le> end_addr"
    using \<open>unat cur + ?P \<le> unat end_addr\<close> by (simp add: word_le_nat_alt u)
  from dd obtain q where q: "unat end_addr - unat cur = ?P * q" by (auto simp: dvd_def)
  with le P have q0: "0 < q" by (cases q) simp_all
  have "unat end_addr - (unat cur + ?P) = ?P * (q - 1)"
    using q q0 by (simp add: algebra_simps flip: diff_diff_eq)
  then show "(unat end_addr - unat (cur + TARGET_PAGE_SIZE env)) div ?P =
         (unat end_addr - unat cur) div ?P - 1"
    using P q by (simp add: u)
  show "0 < (unat end_addr - unat cur) div ?P" using q q0 P by simp
qed


lemma vfio_dma_unmap_calls:
  "vfio_dma_unmap env fd st a sz p = (r, st1) \<Longrightarrow>
   dma_calls st1 = dma_calls st @
     [(VFIO_UNMAP_DMA fd \<lparr>vaddr = qemu_get_ram_ptr env p, dmaaddr = a, dma_size = sz,
                             flags = VFIO_FLAG_WRITE\<rparr>, nat (- r))]"
  by (auto simp: vfio_dma_unmap_def dma_ioctl_def split: prod.splits)

lemma vfio_dma_map_single_calls:
  assumes "sz \<noteq> 0" "sz \<le> VFIO_MAX_MAP_SIZE env"
  shows "\<exists>e st1. vfio_dma_map env fd st a sz p = Some (- int e, st1) \<and>
     dma_calls st1 = dma_calls st @
       [(VFIO_MAP_DMA fd \<lparr>vaddr = qemu_get_ram_ptr env p, dmaaddr = a, dma_size = sz,
                             flags = VFIO_FLAG_WRITE\<rparr>, e)]"
  unfolding vfio_dma_map_single[OF assms]
  by (auto simp: dma_ioctl_def split: prod.splits)

lemma ebusy_walk_run:
  assumes b: "TARGET_PAGE_BITS env < 64"
    and M: "TARGET_PAGE_SIZE env \<le> VFIO_MAX_MAP_SIZE env"
  shows "pg_aligned env cur \<Longrightarrow> pg_aligned env end_addr \<Longrightarrow> cur \<le> end_addr \<Longrightarrow>
    n = (unat end_addr - unat cur) div unat (TARGET_PAGE_SIZE env) \<Longrightarrow>
    \<exists>ret2 cur2 st2 k wk.
      ebusy_walk env fd st cur end_addr cur_phys ret = Some (ret2, cur2, st2) \<and> k \<le> n \<and>
      dma_calls st2 = dma_calls st @ wk \<and>
      map fst wk = walk_calls env fd cur cur_phys k \<and>
      (\<forall>ce\<in>set (butlast wk). is_map (fst ce) \<longrightarrow> snd ce = 0) \<and>
      (end_addr \<le> cur2 \<longrightarrow> k = n \<and> (\<forall>ce\<in>set wk. is_map (fst ce) \<longrightarrow> snd ce = 0)) \<and>
      (\<not> end_addr \<le> cur2 \<longrightarrow> 0 < k \<and> wk \<noteq> [] \<and> is_map (fst (last wk)) \<and>
          snd (last wk) \<noteq> 0 \<and> ret2 = - int (snd (last wk)))"
proof (induction n arbitrary: st cur cur_phys ret)
  case 0
  have "\<not> cur < end_addr"
  proof
    assume "cur < end_addr"
    from page_step(4)[OF b 0(1) 0(2) this] 0(4) show False by simp
  qed
  then have "ebusy_walk env fd st cur end_addr cur_phys ret = Some (ret, cur, st)"
    by (subst ebusy_walk.simps) simp
  then show ?case using \<open>\<not> cur < end_addr\<close>
    by (intro exI[of _ ret] exI[of _ cur] exI[of _ st] exI[of _ 0] exI[of _ "[]"]) simp
next
  case (Suc n)
  let ?P = "TARGET_PAGE_SIZE env"
  have lt: "cur < end_addr"
  proof (rule ccontr)
    assume "\<not> cur < end_addr"
    with Suc(4) have "cur = end_addr" by simp
    with Suc(5) show False by simp
  qed
  note ps = page_step[OF b Suc(2) Suc(3) lt]
  have n': "n = (unat end_addr - unat (cur + ?P)) div unat ?P" using ps(3) Suc(5) by simp
  have P0: "?P \<noteq> 0" using page_size_unat[OF b] by (auto simp: unat_eq_0[symmetric] simp del: unat_eq_0)
  show ?case
  proof (cases "cpu_get_physical_page_desc env cur = cur_phys")
    case True
    have step: "ebusy_walk env fd st cur end_addr cur_phys ret =
        ebusy_walk env fd st (cur + ?P) end_addr (cur_phys + ?P) ret"
      using lt True by (subst ebusy_walk.simps) (simp add: Let_def)
    from Suc.IH[OF ps(1) Suc(3) ps(2) n', of st "cur_phys + ?P" ret]
    obtain ret2 cur2 st2 k wk where ih:
      "ebusy_walk env fd st (cur + ?P) end_addr (cur_phys + ?P) ret = Some (ret2, cur2, st2)"
      "k \<le> n"
      "dma_calls st2 = dma_calls st @ wk"
      "map fst wk = walk_calls env fd (cur + ?P) (cur_phys + ?P) k"
      "\<forall>ce\<in>set (butlast wk). is_map (fst ce) \<longrightarrow> snd ce = 0"
      "end_addr \<le> cur2 \<longrightarrow> k = n \<and> (\<forall>ce\<in>set wk. is_map (fst ce) \<longrightarrow> snd ce = 0)"
      "\<not> end_addr \<le> cur2 \<longrightarrow> 0 < k \<and> wk \<noteq> [] \<and> is_map (fst (last wk)) \<and>
          snd (last wk) \<noteq> 0 \<and> ret2 = - int (snd (last wk))"
      by (elim exE conjE) (rule that; assumption)
    show ?thesis
      apply (intro exI[of _ ret2] exI[of _ cur2] exI[of _ st2] exI[of _ "Suc k"] exI[of _ wk])
      using ih step True by simp
  next
    case False
    let ?un = "VFIO_UNMAP_DMA fd
           \<lparr>vaddr = qemu_get_ram_ptr env (cpu_get_physical_page_desc env cur), dmaaddr = cur,
            dma_size = ?P, flags = VFIO_FLAG_WRITE\<rparr>"
    let ?mp = "VFIO_MAP_DMA fd
           \<lparr>vaddr = qemu_get_ram_ptr env cur_phys, dmaaddr = cur,
            dma_size = ?P, flags = VFIO_FLAG_WRITE\<rparr>"
    obtain r0 st1 where un: "vfio_dma_unmap env fd st cur ?P (cpu_get_physical_page_desc env cur) = (r0, st1)"
      by (cases "vfio_dma_unmap env fd st cur ?P (cpu_get_physical_page_desc env cur)")
    note c1 = vfio_dma_unmap_calls[OF un]
    from vfio_dma_map_single_calls[OF P0 M, of fd st1 cur cur_phys]
    obtain e st2 where mp: "vfio_dma_map env fd st1 cur ?P cur_phys = Some (- int e, st2)"
      and c2: "dma_calls st2 = dma_calls st1 @ [(?mp, e)]"
      by blast
    have c12: "dma_calls st2 = dma_calls st @ [(?un, nat (- r0)), (?mp, e)]"
      using c1 c2 by simp
    have wc: "walk_calls env fd cur cur_phys (Suc k) =
        [?un, ?mp] @ walk_calls env fd (cur + ?P) (cur_phys + ?P) k" for k
      using False by simp
    show ?thesis
    proof (cases "e = 0")
      case nz: False
      have "ebusy_walk env fd st cur end_addr cur_phys ret = Some (- int e, cur, st2)"
        using lt False un mp nz by (subst ebusy_walk.simps) (simp add: Let_def)
      moreover have "\<not> end_addr \<le> cur" using lt by (simp add: not_le)
      ultimately show ?thesis using nz c12 wc[of 0]
        by (intro exI[of _ "- int e"] exI[of _ cur] exI[of _ st2] exI[of _ "Suc 0"]
              exI[of _ "[(?un, nat (- r0)), (?mp, e)]"]) simp
    next
      case True
      have step: "ebusy_walk env fd st cur end_addr cur_phys ret =
          ebusy_walk env fd st2 (cur + ?P) end_addr (cur_phys + ?P) 0"
        using lt False un mp True by (subst ebusy_walk.simps) (simp add: Let_def)
      from Suc.IH[OF ps(1) Suc(3) ps(2) n', of st2 "cur_phys + ?P" 0]
      obtain ret2 cur2 st3 k wk where ih:
        "ebusy_walk env fd st2 (cur + ?P) end_addr (cur_phys + ?P) 0 = Some (ret2, cur2, st3)"
        "k \<le> n"
        "dma_calls st3 = dma_calls st2 @ wk"
        "map fst wk = walk_calls env fd (cur + ?P) (cur_phys + ?P) k"
        "\<forall>ce\<in>set (butlast wk). is_map (fst ce) \<longrightarrow> snd ce = 0"
        "end_addr \<le> cur2 \<longrightarrow> k = n \<and> (\<forall>ce\<in>set wk. is_map (fst ce) \<longrightarrow> snd ce = 0)"
        "\<not> end_addr \<le> cur2 \<longrightarrow> 0 < k \<and> wk \<noteq> [] \<and> is_map (fst (last wk)) \<and>
            snd (last wk) \<noteq> 0 \<and> ret2 = - int (snd (last wk))"
        by (elim exE conjE) (rule that; assumption)
      let ?wk = "[(?un, nat (- r0)), (?mp, e)] @ wk"
      have a: "dma_calls st3 = dma_calls st @ ?wk" using ih(3) c12 by simp
      have bq: "map fst ?wk = walk_calls env fd cur cur_phys (Suc k)"
        using ih(4) wc[of k] by simp
      have bl: "\<forall>ce\<in>set (butlast ?wk). is_map (fst ce) \<longrightarrow> snd ce = 0"
        using ih(5) True by (cases "wk = []") (auto simp: butlast_append)
      have al: "(\<forall>ce\<in>set ?wk. is_map (fst ce) \<longrightarrow> snd ce = 0)"
        if "\<forall>ce\<in>set wk. is_map (fst ce) \<longrightarrow> snd ce = 0"
        using that True by auto
      have la: "wk \<noteq> [] \<Longrightarrow> last ?wk = last wk" by simp
      show ?thesis
        apply (intro exI[of _ ret2] exI[of _ cur2] exI[of _ st3] exI[of _ "Suc k"] exI[of _ ?wk])
        apply (intro conjI)
        subgoal using ih(1) step by simp
        subgoal using ih(2) by simp
        subgoal using a by simp
        subgoal using bq by simp
        subgoal using bl by simp
        subgoal using ih(2,6) al by blast
        subgoal using ih(7) la by auto
        done
    qed
  qed
qed


text \<open>
  Claim C4, as the code has it. Let a map of a page-aligned RAM range of \<open>n\<close>
  pages fail with \<^verbatim>\<open>EBUSY\<close>. The page walk then makes the requests \<open>wk\<close>
  (each with the \<^verbatim>\<open>errno\<close> it ended with), and these are exactly \<open>walk_calls\<close>
  for the first \<open>k\<close> pages of the range: page by page, nothing for a page
  whose current backing is the wanted one, an unmap followed by a map for a
  page whose backing differs. A remap that fails is the last request of the
  walk. When no remap fails, the walk has gone over all \<open>n\<close> pages and
  \<^verbatim>\<open>vfio_client_set_memory\<close> requests nothing else. When a remap fails, the
  walk has stopped at that page and \<^verbatim>\<open>vfio_client_set_memory\<close> ends with the
  unmap of the whole range. (Assumptions on the parameters: a page is smaller
  than a 64-bit word can count and fits into one map call; the range does not
  wrap around.)
\<close>

theorem set_memory_ebusy_walk:
  assumes b: "TARGET_PAGE_BITS env < 64"
    and M: "TARGET_PAGE_SIZE env \<le> VFIO_MAX_MAP_SIZE env"
    and aligned: "(start_addr OR sz) AND NOT (TARGET_PAGE_MASK env) = 0"
    and ram: "phys_offset AND NOT (TARGET_PAGE_MASK env) = IO_MEM_RAM"
    and nowrap: "unat start_addr + unat sz < 2 ^ 64"
    and busy: "vfio_dma_map env fd st start_addr sz phys_offset = Some (- int EBUSY, st1)"
  shows "\<exists>ret2 cur2 st2 k wk.
      ebusy_walk env fd st1 start_addr (start_addr + sz) phys_offset (- int EBUSY) =
        Some (ret2, cur2, st2) \<and>
      k \<le> unat sz div unat (TARGET_PAGE_SIZE env) \<and>
      dma_calls st2 = dma_calls st1 @ wk \<and>
      map fst wk = walk_calls env fd start_addr phys_offset k \<and>
      (\<forall>ce\<in>set (butlast wk). is_map (fst ce) \<longrightarrow> snd ce = 0) \<and>
      ((\<forall>ce\<in>set wk. is_map (fst ce) \<longrightarrow> snd ce = 0) \<longrightarrow>
         k = unat sz div unat (TARGET_PAGE_SIZE env) \<and>
         vfio_client_set_memory env (fd # rest) st start_addr sz phys_offset = Some st2) \<and>
      ((\<exists>ce\<in>set wk. is_map (fst ce) \<and> snd ce \<noteq> 0) \<longrightarrow>
         is_map (fst (last wk)) \<and> snd (last wk) \<noteq> 0 \<and>
         vfio_client_set_memory env (fd # rest) st start_addr sz phys_offset =
           Some (snd (vfio_dma_unmap env fd st2 start_addr sz phys_offset)) \<and>
         dma_calls (snd (vfio_dma_unmap env fd st2 start_addr sz phys_offset)) =
           dma_calls st2 @
           [(VFIO_UNMAP_DMA fd
               \<lparr>vaddr = qemu_get_ram_ptr env phys_offset, dmaaddr = start_addr,
                dma_size = sz, flags = VFIO_FLAG_WRITE\<rparr>,
             nat (- fst (vfio_dma_unmap env fd st2 start_addr sz phys_offset)))])"
proof -
  from aligned have al: "pg_aligned env start_addr" "pg_aligned env sz"
    by (simp_all add: aligned_or)
  from nowrap have u: "unat (start_addr + sz) = unat start_addr + unat sz"
    by (simp add: unat_add_lem[THEN iffD1])
  then have le: "start_addr \<le> start_addr + sz" by (simp add: word_le_nat_alt)
  have ale: "pg_aligned env (start_addr + sz)"
    using al by (simp add: pg_aligned_dvd[OF b] u)
  have n: "unat sz div unat (TARGET_PAGE_SIZE env) =
      (unat (start_addr + sz) - unat start_addr) div unat (TARGET_PAGE_SIZE env)"
    by (simp add: u)
  from ebusy_walk_run[OF b M al(1) ale le n, of fd st1 phys_offset "- int EBUSY"]
  obtain ret2 cur2 st2 k wk where w:
    "ebusy_walk env fd st1 start_addr (start_addr + sz) phys_offset (- int EBUSY) =
        Some (ret2, cur2, st2)"
    "k \<le> unat sz div unat (TARGET_PAGE_SIZE env)"
    "dma_calls st2 = dma_calls st1 @ wk"
    "map fst wk = walk_calls env fd start_addr phys_offset k"
    "\<forall>ce\<in>set (butlast wk). is_map (fst ce) \<longrightarrow> snd ce = 0"
    "start_addr + sz \<le> cur2 \<longrightarrow> k = unat sz div unat (TARGET_PAGE_SIZE env) \<and>
        (\<forall>ce\<in>set wk. is_map (fst ce) \<longrightarrow> snd ce = 0)"
    "\<not> start_addr + sz \<le> cur2 \<longrightarrow> 0 < k \<and> wk \<noteq> [] \<and> is_map (fst (last wk)) \<and>
        snd (last wk) \<noteq> 0 \<and> ret2 = - int (snd (last wk))"
    by (elim exE conjE) (rule that; assumption)
  have sm: "vfio_client_set_memory env (fd # rest) st start_addr sz phys_offset =
      (if start_addr + sz \<le> cur2 then Some st2
       else Some (snd (vfio_dma_unmap env fd st2 start_addr sz phys_offset)))"
    using aligned ram busy w(1) by (simp add: vfio_client_set_memory_def EBUSY_def)
  have un: "dma_calls (snd (vfio_dma_unmap env fd st2 start_addr sz phys_offset)) =
           dma_calls st2 @
           [(VFIO_UNMAP_DMA fd
               \<lparr>vaddr = qemu_get_ram_ptr env phys_offset, dmaaddr = start_addr,
                dma_size = sz, flags = VFIO_FLAG_WRITE\<rparr>,
             nat (- fst (vfio_dma_unmap env fd st2 start_addr sz phys_offset)))]"
    by (rule vfio_dma_unmap_calls) simp
  have done_iff: "start_addr + sz \<le> cur2 \<longleftrightarrow> (\<forall>ce\<in>set wk. is_map (fst ce) \<longrightarrow> snd ce = 0)"
  proof
    assume "start_addr + sz \<le> cur2"
    with w(6) show "\<forall>ce\<in>set wk. is_map (fst ce) \<longrightarrow> snd ce = 0" by simp
  next
    assume a: "\<forall>ce\<in>set wk. is_map (fst ce) \<longrightarrow> snd ce = 0"
    show "start_addr + sz \<le> cur2"
    proof (rule ccontr)
      assume "\<not> start_addr + sz \<le> cur2"
      with w(7) have "wk \<noteq> []" "is_map (fst (last wk))" "snd (last wk) \<noteq> 0" by simp_all
      moreover from \<open>wk \<noteq> []\<close> have "last wk \<in> set wk" by simp
      ultimately show False using a[rule_format, of "last wk"] by simp
    qed
  qed
  show ?thesis
    apply (intro exI[of _ ret2] exI[of _ cur2] exI[of _ st2] exI[of _ k] exI[of _ wk])
    apply (intro conjI)
    subgoal by (rule w(1))
    subgoal by (rule w(2))
    subgoal by (rule w(3))
    subgoal by (rule w(4))
    subgoal by (rule w(5))
    subgoal using w(6) sm done_iff by simp
    subgoal using w(7) sm done_iff un by auto
    done
qed


lemmas dma_eval =
  vfio_client_set_memory_def TARGET_PAGE_MASK_def TARGET_PAGE_SIZE_def IO_MEM_RAM_def
  vfio_dma_map_def dma_map_loop.simps dma_ioctl_def EBUSY_def ebusy_walk.simps
  vfio_dma_unmap_def VFIO_FLAG_WRITE_def

theorem set_memory_ebusy_walk_witness:
  "TARGET_PAGE_BITS holding_dma_env < 64 \<and>
   TARGET_PAGE_SIZE holding_dma_env \<le> VFIO_MAX_MAP_SIZE holding_dma_env \<and>
   (0xA0000 OR 0x2000) AND NOT (TARGET_PAGE_MASK holding_dma_env) = 0 \<and>
   0xA0000 AND NOT (TARGET_PAGE_MASK holding_dma_env) = IO_MEM_RAM \<and>
   unat (0xA0000 :: u64) + unat (0x2000 :: u64) < 2 ^ 64 \<and>
   vfio_dma_map holding_dma_env 3 held_state 0xA0000 0x2000 0xA0000 =
     Some (- int EBUSY,
           \<lparr>dma_kern = [0xA0000, 0xA1000],
            dma_calls = [(VFIO_MAP_DMA 3 \<lparr>vaddr = 0x7f00000A0000, dmaaddr = 0xA0000,
                                           dma_size = 0x2000, flags = 1\<rparr>, 16)]\<rparr>) \<and>
   walk_calls holding_dma_env 3 0xA0000 0xA0000 2 =
     [VFIO_UNMAP_DMA 3 \<lparr>vaddr = 0x7f0000200000, dmaaddr = 0xA1000, dma_size = 0x1000,
                          flags = 1\<rparr>,
      VFIO_MAP_DMA 3 \<lparr>vaddr = 0x7f00000A1000, dmaaddr = 0xA1000, dma_size = 0x1000,
                        flags = 1\<rparr>] \<and>
   vfio_client_set_memory holding_dma_env [3] held_state 0xA0000 0x2000 0xA0000 =
     Some \<lparr>dma_kern = [0xA1000, 0xA0000],
           dma_calls =
             [(VFIO_MAP_DMA 3 \<lparr>vaddr = 0x7f00000A0000, dmaaddr = 0xA0000,
                                dma_size = 0x2000, flags = 1\<rparr>, 16),
              (VFIO_UNMAP_DMA 3 \<lparr>vaddr = 0x7f0000200000, dmaaddr = 0xA1000,
                                  dma_size = 0x1000, flags = 1\<rparr>, 0),
              (VFIO_MAP_DMA 3 \<lparr>vaddr = 0x7f00000A1000, dmaaddr = 0xA1000,
                                dma_size = 0x1000, flags = 1\<rparr>, 0)]\<rparr> \<and>
   vfio_dma_map busy_dma_env 3 dma_state0 0xA0000 0x2000 0xA0000 =
     Some (- int EBUSY,
           \<lparr>dma_kern = (),
            dma_calls = [(VFIO_MAP_DMA 3 \<lparr>vaddr = 0x7f00000A0000, dmaaddr = 0xA0000,
                                           dma_size = 0x2000, flags = 1\<rparr>, 16)]\<rparr>) \<and>
   vfio_client_set_memory busy_dma_env [3] dma_state0 0xA0000 0x2000 0xA0000 =
     Some \<lparr>dma_kern = (),
           dma_calls =
             [(VFIO_MAP_DMA 3 \<lparr>vaddr = 0x7f00000A0000, dmaaddr = 0xA0000,
                                dma_size = 0x2000, flags = 1\<rparr>, 16),
              (VFIO_UNMAP_DMA 3 \<lparr>vaddr = 0x7f0000200000, dmaaddr = 0xA1000,
                                  dma_size = 0x1000, flags = 1\<rparr>, 0),
              (VFIO_MAP_DMA 3 \<lparr>vaddr = 0x7f00000A1000, dmaaddr = 0xA1000,
                                dma_size = 0x1000, flags = 1\<rparr>, 16),
              (VFIO_UNMAP_DMA 3 \<lparr>vaddr = 0x7f00000A0000, dmaaddr = 0xA0000,
                                  dma_size = 0x2000, flags = 1\<rparr>, 0)]\<rparr>"
proof -
  let ?st1 = "\<lparr>dma_kern = [0xA0000, 0xA1000 :: u64],
         dma_calls = [(VFIO_MAP_DMA 3 \<lparr>vaddr = 0x7f00000A0000, dmaaddr = 0xA0000,
                                        dma_size = 0x2000, flags = 1\<rparr>, 16 :: nat)]\<rparr>"
  let ?wk = "[(VFIO_UNMAP_DMA 3 \<lparr>vaddr = 0x7f0000200000, dmaaddr = 0xA1000,
                                  dma_size = 0x1000, flags = 1\<rparr>, 0 :: nat),
              (VFIO_MAP_DMA 3 \<lparr>vaddr = 0x7f00000A1000, dmaaddr = 0xA1000,
                                dma_size = 0x1000, flags = 1\<rparr>, 0)]"
  let ?st2 = "\<lparr>dma_kern = [0xA1000, 0xA0000 :: u64], dma_calls = dma_calls ?st1 @ ?wk\<rparr>"
  have b: "TARGET_PAGE_BITS holding_dma_env < 64" by (simp add: holding_dma_env_def)
  have M: "TARGET_PAGE_SIZE holding_dma_env \<le> VFIO_MAX_MAP_SIZE holding_dma_env"
    by (simp add: holding_dma_env_def TARGET_PAGE_SIZE_def)
  have al: "(0xA0000 OR 0x2000) AND NOT (TARGET_PAGE_MASK holding_dma_env) = 0"
    by (simp add: holding_dma_env_def TARGET_PAGE_SIZE_def TARGET_PAGE_MASK_def)
  have ram: "0xA0000 AND NOT (TARGET_PAGE_MASK holding_dma_env) = IO_MEM_RAM"
    by (simp add: holding_dma_env_def TARGET_PAGE_SIZE_def TARGET_PAGE_MASK_def IO_MEM_RAM_def)
  have nw: "unat (0xA0000 :: u64) + unat (0x2000 :: u64) < 2 ^ 64" by simp
  have busy: "vfio_dma_map holding_dma_env 3 held_state 0xA0000 0x2000 0xA0000 =
     Some (- int EBUSY, ?st1)"
    by (simp add: holding_dma_env_def held_state_def dma_eval)
  have wc: "walk_calls holding_dma_env 3 0xA0000 0xA0000 2 =
     [VFIO_UNMAP_DMA 3 \<lparr>vaddr = 0x7f0000200000, dmaaddr = 0xA1000, dma_size = 0x1000,
                          flags = 1\<rparr>,
      VFIO_MAP_DMA 3 \<lparr>vaddr = 0x7f00000A1000, dmaaddr = 0xA1000, dma_size = 0x1000,
                        flags = 1\<rparr>]"
  proof -
    have two: "(2::nat) = Suc (Suc 0)" by simp
    show ?thesis
      by (subst two) (simp add: holding_dma_env_def TARGET_PAGE_SIZE_def VFIO_FLAG_WRITE_def)
  qed
  have walk: "ebusy_walk holding_dma_env 3 ?st1 0xA0000 (0xA0000 + 0x2000) 0xA0000 (- int EBUSY) =
      Some (0, 0xA2000, ?st2)"
    by (simp add: holding_dma_env_def dma_eval)
  from set_memory_ebusy_walk[OF b M al ram nw busy, of "[]"]
  obtain ret2 cur2 st2 k wk where w:
    "ebusy_walk holding_dma_env 3 ?st1 0xA0000 (0xA0000 + 0x2000) 0xA0000 (- int EBUSY) =
       Some (ret2, cur2, st2)"
    "dma_calls st2 = dma_calls ?st1 @ wk"
    "(\<forall>ce\<in>set wk. is_map (fst ce) \<longrightarrow> snd ce = 0) \<longrightarrow>
       k = unat (0x2000 :: u64) div unat (TARGET_PAGE_SIZE holding_dma_env) \<and>
       vfio_client_set_memory holding_dma_env [3] held_state 0xA0000 0x2000 0xA0000 = Some st2"
    by (elim exE conjE) (rule that; assumption)
  from w(1) walk have st2: "st2 = ?st2" by simp
  with w(2) have wk: "wk = ?wk" by simp
  have "\<forall>ce\<in>set wk. is_map (fst ce) \<longrightarrow> snd ce = 0" unfolding wk by simp
  with w(3) have run: "vfio_client_set_memory holding_dma_env [3] held_state 0xA0000 0x2000 0xA0000 =
      Some ?st2"
    unfolding st2 by blast
  let ?sb1 = "\<lparr>dma_kern = (),
         dma_calls = [(VFIO_MAP_DMA 3 \<lparr>vaddr = 0x7f00000A0000, dmaaddr = 0xA0000,
                                        dma_size = 0x2000, flags = 1\<rparr>, 16 :: nat)]\<rparr>"
  let ?wkb = "[(VFIO_UNMAP_DMA 3 \<lparr>vaddr = 0x7f0000200000, dmaaddr = 0xA1000,
                                  dma_size = 0x1000, flags = 1\<rparr>, 0 :: nat),
              (VFIO_MAP_DMA 3 \<lparr>vaddr = 0x7f00000A1000, dmaaddr = 0xA1000,
                                dma_size = 0x1000, flags = 1\<rparr>, 16)]"
  let ?sb2 = "\<lparr>dma_kern = (), dma_calls = dma_calls ?sb1 @ ?wkb\<rparr>"
  have bb: "TARGET_PAGE_BITS busy_dma_env < 64" by (simp add: busy_dma_env_def)
  have Mb: "TARGET_PAGE_SIZE busy_dma_env \<le> VFIO_MAX_MAP_SIZE busy_dma_env"
    by (simp add: busy_dma_env_def TARGET_PAGE_SIZE_def)
  have alb: "(0xA0000 OR 0x2000) AND NOT (TARGET_PAGE_MASK busy_dma_env) = 0"
    by (simp add: busy_dma_env_def TARGET_PAGE_SIZE_def TARGET_PAGE_MASK_def)
  have ramb: "0xA0000 AND NOT (TARGET_PAGE_MASK busy_dma_env) = IO_MEM_RAM"
    by (simp add: busy_dma_env_def TARGET_PAGE_SIZE_def TARGET_PAGE_MASK_def IO_MEM_RAM_def)
  have busyb: "vfio_dma_map busy_dma_env 3 dma_state0 0xA0000 0x2000 0xA0000 =
     Some (- int EBUSY, ?sb1)"
    by (simp add: busy_dma_env_def dma_state0_def dma_eval)
  have walkb: "ebusy_walk busy_dma_env 3 ?sb1 0xA0000 (0xA0000 + 0x2000) 0xA0000 (- int EBUSY) =
      Some (- 16, 0xA1000, ?sb2)"
    by (simp add: busy_dma_env_def dma_eval)
  from set_memory_ebusy_walk[OF bb Mb alb ramb nw busyb, of "[]"]
  obtain ret2 cur2 st2 k wk where wb:
    "ebusy_walk busy_dma_env 3 ?sb1 0xA0000 (0xA0000 + 0x2000) 0xA0000 (- int EBUSY) =
       Some (ret2, cur2, st2)"
    "dma_calls st2 = dma_calls ?sb1 @ wk"
    "(\<exists>ce\<in>set wk. is_map (fst ce) \<and> snd ce \<noteq> 0) \<longrightarrow>
       vfio_client_set_memory busy_dma_env [3] dma_state0 0xA0000 0x2000 0xA0000 =
         Some (snd (vfio_dma_unmap busy_dma_env 3 st2 0xA0000 0x2000 0xA0000))"
    by (elim exE conjE) (rule that; blast)
  from wb(1) walkb have sb2: "st2 = ?sb2" by simp
  with wb(2) have wkb: "wk = ?wkb" by simp
  have "\<exists>ce\<in>set wk. is_map (fst ce) \<and> snd ce \<noteq> 0" unfolding wkb by simp
  with wb(3) have "vfio_client_set_memory busy_dma_env [3] dma_state0 0xA0000 0x2000 0xA0000 =
      Some (snd (vfio_dma_unmap busy_dma_env 3 ?sb2 0xA0000 0x2000 0xA0000))"
    unfolding sb2 by blast
  then have runb: "vfio_client_set_memory busy_dma_env [3] dma_state0 0xA0000 0x2000 0xA0000 =
     Some \<lparr>dma_kern = (),
           dma_calls =
             [(VFIO_MAP_DMA 3 \<lparr>vaddr = 0x7f00000A0000, dmaaddr = 0xA0000,
                                dma_size = 0x2000, flags = 1\<rparr>, 16),
              (VFIO_UNMAP_DMA 3 \<lparr>vaddr = 0x7f0000200000, dmaaddr = 0xA1000,
                                  dma_size = 0x1000, flags = 1\<rparr>, 0),
              (VFIO_MAP_DMA 3 \<lparr>vaddr = 0x7f00000A1000, dmaaddr = 0xA1000,
                                dma_size = 0x1000, flags = 1\<rparr>, 16),
              (VFIO_UNMAP_DMA 3 \<lparr>vaddr = 0x7f00000A0000, dmaaddr = 0xA0000,
                                  dma_size = 0x2000, flags = 1\<rparr>, 0)]\<rparr>"
    by (simp add: busy_dma_env_def vfio_dma_unmap_def dma_ioctl_def VFIO_FLAG_WRITE_def)
  from b M al ram nw busy wc run busyb runb show ?thesis by simp
qed

text \<open>
  The claim as the specification states it fails: here the map of the two
  pages \<^verbatim>\<open>0xA0000\<close> and \<^verbatim>\<open>0xA1000\<close> fails with \<^verbatim>\<open>EBUSY\<close>, page \<^verbatim>\<open>0xA0000\<close> already
  has the wanted backing, the remap of page \<^verbatim>\<open>0xA1000\<close> fails, and the last
  request unmaps both pages.
\<close>

theorem set_memory_ebusy_unmaps_matching_page:
  "vfio_dma_map busy_dma_env 3 dma_state0 0xA0000 0x2000 0xA0000 =
     Some (- int EBUSY,
           \<lparr>dma_kern = (),
            dma_calls = [(VFIO_MAP_DMA 3 \<lparr>vaddr = 0x7f00000A0000, dmaaddr = 0xA0000,
                                           dma_size = 0x2000, flags = 1\<rparr>, 16)]\<rparr>) \<and>
   cpu_get_physical_page_desc busy_dma_env 0xA0000 = 0xA0000 \<and>
   vfio_client_set_memory busy_dma_env [3] dma_state0 0xA0000 0x2000 0xA0000 =
     Some \<lparr>dma_kern = (),
           dma_calls =
             [(VFIO_MAP_DMA 3 \<lparr>vaddr = 0x7f00000A0000, dmaaddr = 0xA0000,
                                dma_size = 0x2000, flags = 1\<rparr>, 16),
              (VFIO_UNMAP_DMA 3 \<lparr>vaddr = 0x7f0000200000, dmaaddr = 0xA1000,
                                  dma_size = 0x1000, flags = 1\<rparr>, 0),
              (VFIO_MAP_DMA 3 \<lparr>vaddr = 0x7f00000A1000, dmaaddr = 0xA1000,
                                dma_size = 0x1000, flags = 1\<rparr>, 16),
              (VFIO_UNMAP_DMA 3 \<lparr>vaddr = 0x7f00000A0000, dmaaddr = 0xA0000,
                                  dma_size = 0x2000, flags = 1\<rparr>, 0)]\<rparr>"
  by (simp add: vfio_client_set_memory_def busy_dma_env_def dma_state0_def TARGET_PAGE_MASK_def
      TARGET_PAGE_SIZE_def IO_MEM_RAM_def vfio_dma_map_def dma_map_loop.simps dma_ioctl_def
      EBUSY_def ebusy_walk.simps vfio_dma_unmap_def VFIO_FLAG_WRITE_def)


section \<open>Config-space proxy: proofs\<close>

lemma ranges_overlap_iff:
  assumes l: "0 < len1" "0 < len2"
  shows "ranges_overlap first1 len1 first2 len2 \<longleftrightarrow>
     {first1 ..< first1 + len1} \<inter> {first2 ..< first2 + len2} \<noteq> {}"
proof -
  have "{first1 ..< first1 + len1} \<inter> {first2 ..< first2 + len2} =
        {max first1 first2 ..< min (first1 + len1) (first2 + len2)}"
    by (simp add: Int_atLeastLessThan)
  then have "{first1 ..< first1 + len1} \<inter> {first2 ..< first2 + len2} \<noteq> {} \<longleftrightarrow>
      max first1 first2 < min (first1 + len1) (first2 + len2)"
    by (simp only: atLeastLessThan_empty_iff2 not_le) auto
  also have "\<dots> \<longleftrightarrow> ranges_overlap first1 len1 first2 len2"
    unfolding ranges_overlap_def using l by arith
  finally show ?thesis by simp
qed

lemma config_emulated_iff:
  assumes len: "0 < len"
    and sz: "cap_present (pdev vdev) AND QEMU_PCI_CAP_MSI \<noteq> 0 \<longrightarrow> 0 < msi_cap_size vdev"
  shows "config_emulated vdev addr len \<longleftrightarrow>
     {addr ..< addr + len} \<inter> {PCI_ROM_ADDRESS ..< PCI_ROM_ADDRESS + 4} \<noteq> {} \<or>
         (cap_present (pdev vdev) AND QEMU_PCI_CAP_MSI \<noteq> 0 \<and>
          {addr ..< addr + len} \<inter>
            {unat (msi_cap (pdev vdev)) ..< unat (msi_cap (pdev vdev)) + msi_cap_size vdev} \<noteq> {}) \<or>
         (cap_present (pdev vdev) AND QEMU_PCI_CAP_MSIX \<noteq> 0 \<and>
          {addr ..< addr + len} \<inter>
            {unat (msix_cap (pdev vdev)) ..< unat (msix_cap (pdev vdev)) + MSIX_CAP_LENGTH} \<noteq> {})"
proof -
  have rom: "ranges_overlap addr len PCI_ROM_ADDRESS 4 \<longleftrightarrow>
      {addr ..< addr + len} \<inter> {PCI_ROM_ADDRESS ..< PCI_ROM_ADDRESS + 4} \<noteq> {}"
    using len by (intro ranges_overlap_iff) simp_all
  have msix: "ranges_overlap addr len (unat (msix_cap (pdev vdev))) MSIX_CAP_LENGTH \<longleftrightarrow>
      {addr ..< addr + len} \<inter>
        {unat (msix_cap (pdev vdev)) ..< unat (msix_cap (pdev vdev)) + MSIX_CAP_LENGTH} \<noteq> {}"
    using len by (intro ranges_overlap_iff) (simp_all add: MSIX_CAP_LENGTH_def)
  have msi: "ranges_overlap addr len (unat (msi_cap (pdev vdev))) (msi_cap_size vdev) \<longleftrightarrow>
      {addr ..< addr + len} \<inter>
        {unat (msi_cap (pdev vdev)) ..< unat (msi_cap (pdev vdev)) + msi_cap_size vdev} \<noteq> {}"
    if "cap_present (pdev vdev) AND QEMU_PCI_CAP_MSI \<noteq> 0"
    using len sz that by (intro ranges_overlap_iff) simp_all
  show ?thesis
    unfolding config_emulated_def rom msix using msi by blast
qed


text \<open>
  Claim C6. A config read of \<open>len > 0\<close> bytes at \<open>addr\<close> is served from the
  emulated config image (\<open>pci_default_read_config\<close>) exactly when its bytes
  meet the option-ROM address register, the MSI capability window of a device
  that has MSI, or the MSI-X capability window of a device that has MSI-X.
  Every other read is the value read from the device through the channel;
  when that read fails the function returns all-ones.
\<close>

theorem vfio_pci_read_config_routing:
  assumes len: "0 < len"
    and sz: "cap_present (pdev vdev) AND QEMU_PCI_CAP_MSI \<noteq> 0 \<longrightarrow> 0 < msi_cap_size vdev"
  shows "vfio_pci_read_config env (w, vdev) addr len =
     (if {addr ..< addr + len} \<inter> {PCI_ROM_ADDRESS ..< PCI_ROM_ADDRESS + 4} \<noteq> {} \<or>
         (cap_present (pdev vdev) AND QEMU_PCI_CAP_MSI \<noteq> 0 \<and>
          {addr ..< addr + len} \<inter>
            {unat (msi_cap (pdev vdev)) ..< unat (msi_cap (pdev vdev)) + msi_cap_size vdev} \<noteq> {}) \<or>
         (cap_present (pdev vdev) AND QEMU_PCI_CAP_MSIX \<noteq> 0 \<and>
          {addr ..< addr + len} \<inter>
            {unat (msix_cap (pdev vdev)) ..< unat (msix_cap (pdev vdev)) + MSIX_CAP_LENGTH} \<noteq> {})
      then pci_default_read_config env (config (pdev vdev)) addr len
      else (case k_pread_config env (kern w) addr len of
              Some val \<Rightarrow> val
            | None \<Rightarrow> - 1))"
proof (cases "config_emulated vdev addr len")
  case True
  then show ?thesis
    using config_emulated_iff[OF len sz, of addr]
    by (simp add: vfio_pci_read_config_def)
next
  case False
  then show ?thesis
    using config_emulated_iff[OF len sz, of addr]
    by (simp add: vfio_pci_read_config_def split: option.splits)
qed

theorem vfio_pci_read_config_routing_witness:
  "0 < (2::nat) \<and> 0 < msi_cap_size msi_vdev \<and>
   vfio_pci_read_config example_irq_env (irq_world0, msi_vdev) 0x52 2 =
     pci_default_read_config example_irq_env example_config 0x52 2 \<and>
   vfio_pci_read_config example_irq_env (irq_world0, msi_vdev) 0x3c 2 = 0"
proof -
  have l: "0 < (2::nat)" by simp
  have sz: "cap_present (pdev msi_vdev) AND QEMU_PCI_CAP_MSI \<noteq> 0 \<longrightarrow> 0 < msi_cap_size msi_vdev"
    by (simp add: msi_vdev_def)
  have c: "config (pdev msi_vdev) = example_config"
    by (simp add: msi_vdev_def example_pdev_def)
  from vfio_pci_read_config_routing[OF l sz, of example_irq_env irq_world0 "0x52"]
  have a: "vfio_pci_read_config example_irq_env (irq_world0, msi_vdev) 0x52 2 =
     pci_default_read_config example_irq_env example_config 0x52 2"
    by (simp add: c msi_vdev_def example_vdev_def example_pdev_def QEMU_PCI_CAP_MSI_def)
  from vfio_pci_read_config_routing[OF l sz, of example_irq_env irq_world0 "0x3c"]
  have b: "vfio_pci_read_config example_irq_env (irq_world0, msi_vdev) 0x3c 2 = 0"
    by (simp add: msi_vdev_def example_vdev_def example_pdev_def QEMU_PCI_CAP_MSI_def
        QEMU_PCI_CAP_MSIX_def PCI_ROM_ADDRESS_def MSIX_CAP_LENGTH_def example_irq_env_def
        irq_world0_def)
  from a b show ?thesis by (simp add: msi_vdev_def)
qed


section \<open>Config writes and the bridge: proofs\<close>

lemma emul_view_teardown [simp]:
  "emul_view (snd (msi_vector_teardown m s i fd)) = emul_view (snd s)"
  by (cases s) (simp add: msi_vector_teardown_def emul_view_def msix_vector_unuse_def Let_def)

lemma emul_view_teardown_foldl [simp]:
  "emul_view (snd (foldl (\<lambda>st i. msi_vector_teardown m st i (f i)) s xs)) = emul_view (snd s)"
  by (induction xs arbitrary: s) simp_all

lemma emul_view_disable_intx [simp]:
  "emul_view (snd (vfio_disable_intx env s)) = emul_view (snd s)"
  by (cases s) (simp add: vfio_disable_intx_def emul_view_def Let_def)

lemma emul_view_intx_setup [simp]:
  "emul_view (snd (snd (enable_intx_setup env p s))) = emul_view (snd s)"
  by (cases s) (simp add: enable_intx_setup_def emul_view_def Let_def split: prod.splits option.splits bool.splits)

lemma emul_view_upd [simp]:
  "emul_view (vdev\<lparr>msi_vectors := a, nr_vectors := b, interrupt := c\<rparr>) = emul_view vdev"
  "emul_view (vdev\<lparr>msi_vectors := a, nr_vectors := b\<rparr>) = emul_view vdev"
  "emul_view (vdev\<lparr>nr_vectors := b, msi_vectors := a\<rparr>) = emul_view vdev"
  "emul_view (vdev\<lparr>interrupt := c\<rparr>) = emul_view vdev"
  by (simp_all add: emul_view_def)

lemma emul_view_disable_msi [simp]:
  "emul_view (snd (vfio_disable_msi env s m)) = emul_view (snd s)"
  by (cases s) (simp add: vfio_disable_msi_def Let_def)

lemma emul_view_disable_interrupts [simp]:
  "emul_view (snd (vfio_disable_interrupts env s)) = emul_view (snd s)"
  by (simp add: vfio_disable_interrupts_def split: int_mode.splits)

lemma emul_view_create [simp]:
  "emul_view (snd (fst (msi_vector_create env m sf i))) = emul_view (snd (fst sf))"
  by (cases sf, cases "fst sf")
     (simp add: msi_vector_create_def emul_view_def msix_vector_use_def Let_def split: prod.splits)

lemma emul_view_create_foldl [simp]:
  "emul_view (snd (fst (foldl (msi_vector_create env m) sf xs))) = emul_view (snd (fst sf))"
  by (induction xs arbitrary: sf) simp_all

lemma emul_view_enable_vectors [simp]:
  "emul_view (snd (fst (enable_msi_vectors env s m))) = emul_view (snd s)"
proof -
  obtain w vdev where d: "vfio_disable_interrupts env s = (w, vdev)"
    by (cases "vfio_disable_interrupts env s")
  have "emul_view vdev = emul_view (snd s)"
    using emul_view_disable_interrupts[of env s] d by simp
  then show ?thesis by (simp add: enable_msi_vectors_def d Let_def)
qed

lemma emul_view_enable_msi [simp]:
  "emul_view (snd (vfio_enable_msi env s m)) = emul_view (snd s)"
proof -
  obtain w vdev fds where e: "enable_msi_vectors env s m = ((w, vdev), fds)"
    by (cases "enable_msi_vectors env s m") auto
  have v: "emul_view vdev = emul_view (snd s)"
    using emul_view_enable_vectors[of env s m] e by simp
  obtain r k where io: "k_set_eventfds env (kern w) m (int (nr_vectors vdev) # fds) = (r, k)"
    by (cases "k_set_eventfds env (kern w) m (int (nr_vectors vdev) # fds)")
  show ?thesis
  proof (cases r)
    case True
    obtain w1 vdev1 where f: "foldl (\<lambda>st i. msi_vector_teardown m st i (fds ! i))
                      (w\<lparr>kern := k\<rparr>, vdev) [0 ..< nr_vectors vdev] = (w1, vdev1)"
      by (cases "foldl (\<lambda>st i. msi_vector_teardown m st i (fds ! i))
                      (w\<lparr>kern := k\<rparr>, vdev) [0 ..< nr_vectors vdev]")
    have "emul_view vdev1 = emul_view vdev"
      using emul_view_teardown_foldl[of m "\<lambda>i. fds ! i" "(w\<lparr>kern := k\<rparr>, vdev)" "[0 ..< nr_vectors vdev]"] f
      by simp
    then show ?thesis using True v by (simp add: vfio_enable_msi_def e io f)
  next
    case False
    then show ?thesis using v by (simp add: vfio_enable_msi_def e io)
  qed
qed


lemma cap_window_view:
  "snd (emul_view v1) = snd (emul_view v2) \<Longrightarrow> cap_window m v1 addr len = cap_window m v2 addr len"
  by (simp add: emul_view_def cap_window_def)

lemma emul_view_config_upd:
  "emul_view (vdev\<lparr>pdev := (pdev vdev)\<lparr>config := c\<rparr>\<rparr>) = (c, snd (emul_view vdev))"
  by (simp add: emul_view_def)

lemma write_config_cap_obs:
  assumes "write_config_cap env m (w, vdev) addr val len = Some (s', calls)"
  shows "calls = calls_for (m, observed env m (config (pdev vdev)) addr val len) \<and>
     emul_view (snd s') =
       (emulation_update env m (config (pdev vdev)) addr val len, snd (emul_view vdev)) \<and>
     s' = foldl (bridge_invoke env)
            (set_config (emulation_update env m (config (pdev vdev)) addr val len) (w, vdev))
            calls"
proof -
  let ?cfg1 = "emulation_update env m (config (pdev vdev)) addr val len"
  let ?s1 = "(w, vdev\<lparr>pdev := (pdev vdev)\<lparr>config := ?cfg1\<rparr>\<rparr>)"
  have v1: "emul_view (snd ?s1) = (?cfg1, snd (emul_view vdev))"
    by (simp add: emul_view_config_upd)
  have e: "emul_view (snd (vfio_enable_msi env ?s1 m)) = (?cfg1, snd (emul_view vdev))"
    using emul_view_enable_msi[of env ?s1 m] v1 by simp
  have d: "emul_view (snd (vfio_disable_msi env ?s1 m)) = (?cfg1, snd (emul_view vdev))"
    using emul_view_disable_msi[of env ?s1 m] v1 by simp
  show ?thesis
    using assms e d v1
    by (cases m)
       (auto simp: write_config_cap_def calls_for_def observed_def emulation_update_def Let_def
             set_config_def bridge_invoke_def
             split: if_splits)
qed

lemma write_config_cap_effect:
  assumes "write_config_cap env m (w, vdev) addr val len = Some (s', calls)"
    and "cap_window m vdev addr len"
  shows "s' = cap_effect env m (w, vdev) addr val len"
  using write_config_cap_obs[OF assms(1)] assms(2)
  by (simp add: cap_effect_def)

lemma write_config_obs:
  assumes run: "vfio_pci_write_config env (w, vdev) addr val len = Some (s', calls)"
    and ob: "write_observations env vdev0 (config (pdev vdev)) (addr, val, len) = (cfg', os)"
    and st: "snd (emul_view vdev) = snd (emul_view vdev0)"
  shows "calls = concat (map calls_for os) \<and> emul_view (snd s') = (cfg', snd (emul_view vdev0)) \<and>
    s' = write_effect env (w, vdev) (addr, val, len)"
proof (cases "addr < PCI_CONFIG_HEADER_SIZE")
  case True
  with run ob st show ?thesis
    by (auto simp: vfio_pci_write_config_def write_observations_def Let_def emul_view_config_upd
        write_effect_def set_config_def)
next
  case False
  let ?w1 = "w\<lparr>kern := k_pwrite_config env (kern w) addr val len\<rparr>"
  from run False obtain s1 a1 where r1:
    "(if cap_window False vdev addr len then write_config_cap env False (?w1, vdev) addr val len
      else Some ((?w1, vdev), [])) = Some (s1, a1)"
    by (auto simp: vfio_pci_write_config_def Let_def cap_window_def split: option.splits if_splits)
  obtain cfg1 o1 where b1:
    "(if cap_window False vdev0 addr len
      then (emulation_update env False (config (pdev vdev)) addr val len,
            [(False, observed env False (config (pdev vdev)) addr val len)])
      else (config (pdev vdev), [])) = (cfg1, o1)"
    by (cases "if cap_window False vdev0 addr len
      then (emulation_update env False (config (pdev vdev)) addr val len,
            [(False, observed env False (config (pdev vdev)) addr val len)])
      else (config (pdev vdev), [])")
  have w0: "cap_window False vdev addr len = cap_window False vdev0 addr len"
    using st by (rule cap_window_view)
  have p1: "a1 = concat (map calls_for o1) \<and> emul_view (snd s1) = (cfg1, snd (emul_view vdev0)) \<and>
      s1 = cap_effect env False (?w1, vdev) addr val len"
  proof (cases "cap_window False vdev0 addr len")
    case True
    with r1 w0 have c: "write_config_cap env False (?w1, vdev) addr val len = Some (s1, a1)" by simp
    have t: "cap_window False vdev addr len" using True w0 by simp
    from b1 True have f1: "cfg1 = emulation_update env False (config (pdev vdev)) addr val len"
      "o1 = [(False, observed env False (config (pdev vdev)) addr val len)]" by simp_all
    note o = write_config_cap_obs[OF c, unfolded st]
    from o[THEN conjunct1] o[THEN conjunct2, THEN conjunct1] f1 write_config_cap_effect[OF c t]
    show ?thesis by simp
  next
    case False
    with r1 w0 have e1: "s1 = (?w1, vdev)" "a1 = []" by simp_all
    from b1 False have f1: "cfg1 = config (pdev vdev)" "o1 = []" by simp_all
    from False w0 have "cap_effect env False (?w1, vdev) addr val len = (?w1, vdev)"
      by (simp add: cap_effect_def)
    with e1 f1 st show ?thesis by (simp add: emul_view_def)
  qed
  from p1 have ev1: "emul_view (snd s1) = (cfg1, snd (emul_view vdev0))" by (rule conjunct2[THEN conjunct1])
  from ev1 have c1: "config (pdev (snd s1)) = cfg1" and st1: "snd (emul_view (snd s1)) = snd (emul_view vdev0)"
    by (simp_all add: emul_view_def)
  obtain w2 vdev2 where s1: "s1 = (w2, vdev2)" by (cases s1)
  from run False r1 s1 obtain s2 a2 where r2:
    "(if cap_window True vdev2 addr len then write_config_cap env True s1 addr val len
      else Some (s1, [])) = Some (s2, a2)"
    and run': "vfio_pci_write_config env (w, vdev) addr val len = Some (s2, a1 @ a2)"
    by (auto simp: vfio_pci_write_config_def Let_def cap_window_def split: option.splits if_splits)
  obtain cfg2 o2 where b2:
    "(if cap_window True vdev0 addr len
      then (emulation_update env True cfg1 addr val len,
            [(True, observed env True cfg1 addr val len)])
      else (cfg1, [])) = (cfg2, o2)"
    by (cases "if cap_window True vdev0 addr len
      then (emulation_update env True cfg1 addr val len,
            [(True, observed env True cfg1 addr val len)])
      else (cfg1, [])")
  have w1: "cap_window True vdev2 addr len = cap_window True vdev0 addr len"
    using st1 s1 by (intro cap_window_view) simp
  have p2: "a2 = concat (map calls_for o2) \<and> emul_view (snd s2) = (cfg2, snd (emul_view vdev0)) \<and>
      s2 = cap_effect env True s1 addr val len"
  proof (cases "cap_window True vdev0 addr len")
    case True
    with r2 w1 s1 have c: "write_config_cap env True (w2, vdev2) addr val len = Some (s2, a2)" by simp
    have t: "cap_window True vdev2 addr len" using True w1 by simp
    from b2 True have f2: "cfg2 = emulation_update env True cfg1 addr val len"
      "o2 = [(True, observed env True cfg1 addr val len)]" by simp_all
    from c1 s1 have c1': "config (pdev vdev2) = cfg1" by simp
    from st1 s1 have st1': "snd (emul_view vdev2) = snd (emul_view vdev0)" by simp
    note o = write_config_cap_obs[OF c, unfolded c1' st1']
    from o[THEN conjunct1] o[THEN conjunct2, THEN conjunct1] f2 write_config_cap_effect[OF c t] s1
    show ?thesis by simp
  next
    case False
    with r2 w1 have e2: "s2 = s1" "a2 = []" by simp_all
    from b2 False have f2: "cfg2 = cfg1" "o2 = []" by simp_all
    from False w1 s1 have "cap_effect env True s1 addr val len = s1"
      by (simp add: cap_effect_def)
    with e2 f2 ev1 show ?thesis by simp
  qed
  have ob': "write_observations env vdev0 (config (pdev vdev)) (addr, val, len) = (cfg2, o1 @ o2)"
    using False b1 b2
    by (simp add: write_observations_def claimed_observations_def Let_def split: prod.splits)
  have eff: "write_effect env (w, vdev) (addr, val, len) = s2"
    using False p1 p2 by (simp add: write_effect_def Let_def)
  from run run' ob ob' p1 p2 eff show ?thesis by auto
qed

lemma write_config_seq_obs:
  "snd (emul_view vdev) = snd (emul_view vdev0) \<Longrightarrow>
   write_config_seq env (w, vdev) ws = Some (s', cs) \<Longrightarrow>
   cs = concat (map calls_for (seq_observations env vdev0 (config (pdev vdev)) ws)) \<and>
   s' = foldl (write_effect env) (w, vdev) ws"
proof (induction ws arbitrary: w vdev cs)
  case Nil then show ?case by simp
next
  case (Cons wr ws)
  obtain addr val len where wr: "wr = (addr, val, len)" by (cases wr)
  from Cons.prems(2) wr obtain w1 vdev1 a1 a2 where
    r: "vfio_pci_write_config env (w, vdev) addr val len = Some ((w1, vdev1), a1)"
    and r2: "write_config_seq env (w1, vdev1) ws = Some (s', a2)"
    and cs: "cs = a1 @ a2"
    by (auto split: option.splits)
  obtain cfg1 os where ob: "write_observations env vdev0 (config (pdev vdev)) (addr, val, len) = (cfg1, os)"
    by (cases "write_observations env vdev0 (config (pdev vdev)) (addr, val, len)")
  from write_config_obs[OF r ob Cons.prems(1)]
  have a: "a1 = concat (map calls_for os)" and v: "emul_view vdev1 = (cfg1, snd (emul_view vdev0))"
    and e: "(w1, vdev1) = write_effect env (w, vdev) (addr, val, len)"
    by simp_all
  from v have c: "config (pdev vdev1) = cfg1" and st: "snd (emul_view vdev1) = snd (emul_view vdev0)"
    by (simp_all add: emul_view_def)
  from Cons.IH[OF st r2] c
  have "a2 = concat (map calls_for (seq_observations env vdev0 cfg1 ws))"
    and "s' = foldl (write_effect env) (w1, vdev1) ws" by simp_all
  then show ?case using a cs e by (simp add: wr ob)
qed

lemma count_enable1:
  "length (filter ((=) (ENABLE_MSI m)) (calls_for ob)) = (if (m, False, True) = ob then 1 else 0)"
  by (cases ob) (auto simp: calls_for_def)

lemma count_disable1:
  "length (filter ((=) (DISABLE_MSI m)) (calls_for ob)) = (if (m, True, False) = ob then 1 else 0)"
  by (cases ob) (auto simp: calls_for_def)

lemma count_enable:
  "length (filter ((=) (ENABLE_MSI m)) (concat (map calls_for os))) =
   length (filter ((=) (m, False, True)) os)"
  by (induction os) (simp_all add: count_enable1)

lemma count_disable:
  "length (filter ((=) (DISABLE_MSI m)) (concat (map calls_for os))) =
   length (filter ((=) (m, True, False)) os)"
  by (induction os) (simp_all add: count_disable1)


text \<open>
  Claim C3, as the code has it. Take any sequence of config writes in which
  \<^verbatim>\<open>msi_vectors\<close> is never freed a second time. The calls that \<^verbatim>\<open>vfio_pci_write_config\<close> makes into
  the bridge are, write by write and capability by capability, \<open>calls_for\<close>
  the observed pair (was-enabled before the local emulation update,
  is-enabled after it) of each write that starts at or above
  \<^verbatim>\<open>PCI_CONFIG_HEADER_SIZE\<close> and overlaps the capability window: one enable per
  observed 0\<rightarrow>1 transition, one disable per observed 1\<rightarrow>0 transition, and
  nothing for a write that leaves the bit as it was. A write that starts
  below \<^verbatim>\<open>PCI_CONFIG_HEADER_SIZE\<close> is only mirrored and invokes nothing. The
  observations are those of the emulated config image alone (what the bridge
  does in between never changes the image), and the state after the sequence
  is the one that \<^verbatim>\<open>vfio_enable_msi\<close> and \<^verbatim>\<open>vfio_disable_msi\<close>, invoked for
  these transitions and for nothing else, leave behind.
\<close>

theorem write_config_seq_transitions:
  assumes "write_config_seq env (w, vdev) ws = Some (s', cs)"
  shows "cs = concat (map calls_for (seq_observations env vdev (config (pdev vdev)) ws)) \<and>
   length (filter ((=) (ENABLE_MSI m)) cs) =
     length (filter ((=) (m, False, True)) (seq_observations env vdev (config (pdev vdev)) ws)) \<and>
   length (filter ((=) (DISABLE_MSI m)) cs) =
     length (filter ((=) (m, True, False)) (seq_observations env vdev (config (pdev vdev)) ws)) \<and>
   s' = foldl (write_effect env) (w, vdev) ws"
  using write_config_seq_obs[OF refl assms]
  by (simp add: count_enable count_disable)

theorem write_config_seq_transitions_witness:
  "map_option snd (write_config_seq example_irq_env (irq_world0, msi_vdev) example_writes) =
     Some [ENABLE_MSI False, DISABLE_MSI False] \<and>
   seq_observations example_irq_env msi_vdev (config (pdev msi_vdev)) example_writes =
     [(False, False, True), (False, True, True), (False, True, False)] \<and>
   length (filter ((=) (ENABLE_MSI False)) [ENABLE_MSI False, DISABLE_MSI False]) = 1 \<and>
   length (filter ((=) (DISABLE_MSI False)) [ENABLE_MSI False, DISABLE_MSI False]) = 1 \<and>
   map_option fst (write_config_seq example_irq_env (irq_world0, msi_vdev) example_writes) =
     Some (foldl (write_effect example_irq_env) (irq_world0, msi_vdev) example_writes) \<and>
   interrupt (snd (foldl (write_effect example_irq_env) (irq_world0, msi_vdev) example_writes)) =
     INT_INTx"
proof -
  have r: "map_option snd (write_config_seq example_irq_env (irq_world0, msi_vdev) example_writes) =
     Some [ENABLE_MSI False, DISABLE_MSI False]"
    by code_simp
  then obtain s' where run:
    "write_config_seq example_irq_env (irq_world0, msi_vdev) example_writes =
       Some (s', [ENABLE_MSI False, DISABLE_MSI False])"
    by (cases "write_config_seq example_irq_env (irq_world0, msi_vdev) example_writes") auto
  have ob: "seq_observations example_irq_env msi_vdev (config (pdev msi_vdev)) example_writes =
     [(False, False, True), (False, True, True), (False, True, False)]"
    by code_simp
  have m: "interrupt (snd (foldl (write_effect example_irq_env) (irq_world0, msi_vdev) example_writes)) =
     INT_INTx"
    by code_simp
  from write_config_seq_transitions[OF run, of False]
  have "s' = foldl (write_effect example_irq_env) (irq_world0, msi_vdev) example_writes"
    by blast
  with run r ob m show ?thesis by simp
qed

text \<open>
  The claim as the specification states it fails. The MSI capability is at
  \<^verbatim>\<open>0x40\<close> and MSI is off. A write of four bytes at \<^verbatim>\<open>0x3f\<close> overlaps the
  capability window, and the emulated enable bit is 0 before the local
  emulation update and 1 after it: an observed 0\<rightarrow>1 transition, for which the
  claim has one enable. The write starts in the standard header, so
  \<^verbatim>\<open>vfio_pci_write_config\<close> mirrors it into the image and returns: the bit is
  set in the image, no call is made and the interrupt mode stays \<^verbatim>\<open>INT_NONE\<close>.
\<close>

theorem write_config_header_straddle_no_enable:
  "cap_window False msi40_vdev 0x3f 4 \<and>
   snd (claimed_observations msi40_irq_env msi40_vdev (config (pdev msi40_vdev))
          straddling_write) = [(False, False, True)] \<and>
   calls_for (False, False, True) = [ENABLE_MSI False] \<and>
   map_option snd
     (write_config_seq msi40_irq_env (irq_world0, msi40_vdev) [straddling_write]) = Some [] \<and>
   map_option (msi_enabled msi40_irq_env \<circ> config \<circ> pdev \<circ> snd \<circ> fst)
     (write_config_seq msi40_irq_env (irq_world0, msi40_vdev) [straddling_write]) = Some True \<and>
   map_option (interrupt \<circ> snd \<circ> fst)
     (write_config_seq msi40_irq_env (irq_world0, msi40_vdev) [straddling_write]) = Some INT_NONE"
  by code_simp

text \<open>
  A sequence with a double free: the guest sets the MSI-X enable bit, the
  registration fails and \<^verbatim>\<open>vfio_enable_msi\<close> frees \<^verbatim>\<open>msi_vectors\<close>; the guest
  clears the bit and \<^verbatim>\<open>vfio_disable_msi\<close> frees the same block again.
\<close>

lemma write_config_seq_double_free:
  "map_option snd
     (write_config_seq example_irq_env (irq_world0, msi_vdev) (take 1 msix_on_off_writes)) =
     Some [ENABLE_MSI True] \<and>
   map_option (msi_vectors_block \<circ> fst \<circ> fst)
     (write_config_seq example_irq_env (irq_world0, msi_vdev) (take 1 msix_on_off_writes)) =
     Some FREED \<and>
   map_option snd
     (write_config_seq example_irq_env (irq_world0, msi_vdev) msix_on_off_writes) = None"
  by code_simp


section \<open>Interrupt controller bridge: proofs\<close>

lemma intx_setup_mode:
  "interrupt (snd (snd (enable_intx_setup env p s))) = INT_INTx \<or>
   interrupt (snd (snd (enable_intx_setup env p s))) = interrupt (snd s)"
  by (cases s) (auto simp: enable_intx_setup_def Let_def split: prod.splits option.splits bool.splits)

lemma intx_setup_used:
  "msix_entry_used (pdev (snd (snd (enable_intx_setup env p s)))) = msix_entry_used (pdev (snd s))"
  by (cases s) (auto simp: enable_intx_setup_def Let_def split: prod.splits option.splits bool.splits)

lemma disable_msi_mode:
  "interrupt (snd (vfio_disable_msi env s m)) = INT_NONE \<or>
   interrupt (snd (vfio_disable_msi env s m)) = INT_INTx"
proof (cases s)
  case (Pair w vdev)
  define s1 where "s1 = foldl (\<lambda>st i. msi_vector_teardown m st i (vec_interrupt (msi_vectors vdev ! i)))
                   (w\<lparr>kern := snd (k_set_eventfds env (kern w) m [0])\<rparr>, vdev) [0 ..< nr_vectors vdev]"
  define s2 where "s2 = ((fst s1)\<lparr>msi_vectors_block := qemu_free (msi_vectors_block (fst s1))\<rparr>,
                         (snd s1)\<lparr>msi_vectors := [], nr_vectors := 0, interrupt := INT_NONE\<rparr>)"
  define p where "p = (ucast (vfio_pci_read_config env s2 PCI_INTERRUPT_PIN 1) :: u8)"
  have eq: "vfio_disable_msi env s m = (if p = 0 then s2 else snd (enable_intx_setup env p s2))"
    by (simp add: Pair vfio_disable_msi_def Let_def s1_def s2_def p_def)
  have "interrupt (snd s2) = INT_NONE" by (simp add: s2_def)
  then show ?thesis using intx_setup_mode[of env p s2] eq by auto
qed

lemma disable_interrupts_mode:
  "interrupt (snd (vfio_disable_interrupts env s)) = INT_NONE \<or>
   interrupt (snd (vfio_disable_interrupts env s)) = INT_INTx"
  using disable_msi_mode[of env s]
  by (cases s) (auto simp: vfio_disable_interrupts_def vfio_disable_intx_def Let_def split: int_mode.splits)

lemma disable_interrupts_from_intx:
  "interrupt (snd s) = INT_NONE \<or> interrupt (snd s) = INT_INTx \<Longrightarrow>
   interrupt (snd (vfio_disable_interrupts env s)) = INT_NONE"
  by (cases s) (auto simp: vfio_disable_interrupts_def vfio_disable_intx_def Let_def)

text \<open>The loop that creates the vectors.\<close>

lemma create_step:
  "msi_vector_create env m ((w, vdev), fds) i = ((w1, vdev1), fds1) \<Longrightarrow>
   length fds1 = Suc (length fds) \<and> take (length fds) fds1 = fds \<and>
   interrupt vdev1 = interrupt vdev \<and> nr_vectors vdev1 = nr_vectors vdev \<and>
   msix_entries_nr (pdev vdev1) = msix_entries_nr (pdev vdev) \<and>
   msix_entry_used (pdev vdev1) =
     (if m \<and> i < msix_entries_nr (pdev vdev)
      then (msix_entry_used (pdev vdev))(i := Suc (msix_entry_used (pdev vdev) i))
      else msix_entry_used (pdev vdev))"
  by (auto simp: msi_vector_create_def msix_vector_use_def Let_def split: prod.splits if_splits)

lemma create_loop:
  "foldl (msi_vector_create env m) ((w, vdev), []) [0 ..< n] = ((w1, vdev1), fds1) \<Longrightarrow>
   length fds1 = n \<and>
   interrupt vdev1 = interrupt vdev \<and> nr_vectors vdev1 = nr_vectors vdev \<and>
   msix_entries_nr (pdev vdev1) = msix_entries_nr (pdev vdev) \<and>
   msix_entry_used (pdev vdev1) =
     (\<lambda>i. if m \<and> i < n \<and> i < msix_entries_nr (pdev vdev)
          then Suc (msix_entry_used (pdev vdev) i) else msix_entry_used (pdev vdev) i)"
proof (induction n arbitrary: w1 vdev1 fds1)
  case 0 then show ?case by simp
next
  case (Suc n)
  obtain w2 vdev2 fds2 where f: "foldl (msi_vector_create env m) ((w, vdev), []) [0 ..< n] = ((w2, vdev2), fds2)"
    by (cases "foldl (msi_vector_create env m) ((w, vdev), []) [0 ..< n]") auto
  from Suc.prems f have st: "msi_vector_create env m ((w2, vdev2), fds2) n = ((w1, vdev1), fds1)"
    by simp
  from Suc.IH[OF f] create_step[OF st] show ?case
    by (auto simp: fun_eq_iff less_Suc_eq)
qed

text \<open>The loop that tears the vectors down.\<close>

lemma teardown_step:
  "msi_vector_teardown m (w, vdev) i fd = (w1, vdev1) \<Longrightarrow>
   fd_handlers w1 = (fd_handlers w)(fd := None) \<and> notifiers w1 = notifiers w - {fd} \<and>
   kern w1 = kern w \<and>
   interrupt vdev1 = interrupt vdev \<and>
   msix_entries_nr (pdev vdev1) = msix_entries_nr (pdev vdev) \<and>
   msix_entry_used (pdev vdev1) =
     (if m \<and> i < msix_entries_nr (pdev vdev) \<and> msix_entry_used (pdev vdev) i \<noteq> 0
      then (msix_entry_used (pdev vdev))(i := msix_entry_used (pdev vdev) i - 1)
      else msix_entry_used (pdev vdev))"
  by (auto simp: msi_vector_teardown_def msix_vector_unuse_def Let_def qemu_set_fd_handler_def
       event_notifier_cleanup_def split: if_splits)

lemma teardown_loop:
  "foldl (\<lambda>st i. msi_vector_teardown m st i (f i)) (w, vdev) [0 ..< n] = (w1, vdev1) \<Longrightarrow>
   (\<forall>i<n. fd_handlers w1 (f i) = None \<and> f i \<notin> notifiers w1) \<and>
   (\<forall>fd. fd_handlers w fd = None \<longrightarrow> fd_handlers w1 fd = None) \<and> notifiers w1 \<subseteq> notifiers w \<and>
   interrupt vdev1 = interrupt vdev \<and>
   msix_entries_nr (pdev vdev1) = msix_entries_nr (pdev vdev) \<and>
   msix_entry_used (pdev vdev1) =
     (\<lambda>i. if m \<and> i < n \<and> i < msix_entries_nr (pdev vdev) \<and> msix_entry_used (pdev vdev) i \<noteq> 0
          then msix_entry_used (pdev vdev) i - 1 else msix_entry_used (pdev vdev) i)"
proof (induction n arbitrary: w1 vdev1)
  case 0 then show ?case by simp
next
  case (Suc n)
  obtain w2 vdev2 where f: "foldl (\<lambda>st i. msi_vector_teardown m st i (f i)) (w, vdev) [0 ..< n] = (w2, vdev2)"
    by (cases "foldl (\<lambda>st i. msi_vector_teardown m st i (f i)) (w, vdev) [0 ..< n]")
  from Suc.prems f have st: "msi_vector_teardown m (w2, vdev2) n (f n) = (w1, vdev1)"
    by simp
  note ih = Suc.IH[OF f]
  note ts = teardown_step[OF st]
  have a: "\<forall>i<Suc n. fd_handlers w1 (f i) = None \<and> f i \<notin> notifiers w1"
    using ih ts by (auto simp: less_Suc_eq)
  have b: "(\<forall>fd. fd_handlers w fd = None \<longrightarrow> fd_handlers w1 fd = None) \<and> notifiers w1 \<subseteq> notifiers w"
    using ih ts by auto
  have c: "msix_entry_used (pdev vdev1) =
     (\<lambda>i. if m \<and> i < Suc n \<and> i < msix_entries_nr (pdev vdev) \<and> msix_entry_used (pdev vdev) i \<noteq> 0
          then msix_entry_used (pdev vdev) i - 1 else msix_entry_used (pdev vdev) i)"
    using ih ts by (auto simp: fun_eq_iff less_Suc_eq)
  from a b c ih ts show ?case by simp
qed


text \<open>
  The call of \<^verbatim>\<open>vfio_enable_intx\<close> that ends \<^verbatim>\<open>vfio_disable_msi\<close> is the one
  written out in the definition.
\<close>

lemma vfio_enable_intx_none:
  "interrupt (snd s) = INT_NONE \<Longrightarrow>
   vfio_enable_intx env s =
     (let p = ucast (vfio_pci_read_config env s PCI_INTERRUPT_PIN 1) :: u8
      in if p = 0 then (0, s) else enable_intx_setup env p s)"
  by (simp add: vfio_enable_intx_def vfio_disable_interrupts_def Let_def)

lemma vfio_disable_msi_enable_intx:
  "foldl (\<lambda>st i. msi_vector_teardown m st i (vec_interrupt (msi_vectors vdev ! i)))
     (w\<lparr>kern := snd (k_set_eventfds env (kern w) m [0])\<rparr>, vdev) [0 ..< nr_vectors vdev] = s1 \<Longrightarrow>
   vfio_disable_msi env (w, vdev) m =
     snd (vfio_enable_intx env
       ((fst s1)\<lparr>msi_vectors_block := qemu_free (msi_vectors_block (fst s1))\<rparr>,
        (snd s1)\<lparr>msi_vectors := [], nr_vectors := 0, interrupt := INT_NONE\<rparr>))"
  by (simp add: vfio_disable_msi_def vfio_enable_intx_none Let_def)

text \<open>
  Claim C2, as the code has it. When the registration call of
  \<^verbatim>\<open>vfio_enable_msi\<close> fails, every vector created for it is unwound: no handler
  is left for its descriptor, its notifier is gone, the MSI-X use counts are
  what they were after \<^verbatim>\<open>vfio_disable_interrupts\<close>, and the vector count is 0.
  The interrupt mode is the one \<^verbatim>\<open>vfio_disable_interrupts\<close> left: \<^verbatim>\<open>INT_NONE\<close>
  when the mode before the attempt was \<^verbatim>\<open>INT_NONE\<close> or \<^verbatim>\<open>INT_INTx\<close>; after
  \<^verbatim>\<open>INT_MSI\<close> or \<^verbatim>\<open>INT_MSIX\<close> it is \<^verbatim>\<open>INT_INTx\<close> when \<^verbatim>\<open>vfio_disable_msi\<close> managed
  to re-enable INTx, and \<^verbatim>\<open>INT_NONE\<close> otherwise.
\<close>

theorem vfio_enable_msi_failure_unwinds:
  assumes fail: "enable_msi_ioctl_fails env s is_msix"
  shows
   "nr_vectors (snd (vfio_enable_msi env s is_msix)) = 0 \<and>
    msi_vectors (snd (vfio_enable_msi env s is_msix)) = [] \<and>
    length (snd (enable_msi_vectors env s is_msix)) =
      nr_vectors (snd (fst (enable_msi_vectors env s is_msix))) \<and>
    (\<forall>fd\<in>set (snd (enable_msi_vectors env s is_msix)).
        fd_handlers (fst (vfio_enable_msi env s is_msix)) fd = None \<and>
        fd \<notin> notifiers (fst (vfio_enable_msi env s is_msix))) \<and>
    msix_entry_used (pdev (snd (vfio_enable_msi env s is_msix))) =
      msix_entry_used (pdev (snd (vfio_disable_interrupts env s))) \<and>
    interrupt (snd (vfio_enable_msi env s is_msix)) =
      interrupt (snd (vfio_disable_interrupts env s)) \<and>
    (interrupt (snd s) = INT_NONE \<or> interrupt (snd s) = INT_INTx \<longrightarrow>
       interrupt (snd (vfio_enable_msi env s is_msix)) = INT_NONE) \<and>
    (interrupt (snd (vfio_enable_msi env s is_msix)) = INT_NONE \<or>
     interrupt (snd (vfio_enable_msi env s is_msix)) = INT_INTx)"
proof -
  obtain w0 v0 where d: "vfio_disable_interrupts env s = (w0, v0)"
    by (cases "vfio_disable_interrupts env s")
  define n where "n = (if is_msix then msix_entries_nr (pdev v0)
                       else msi_nr_vectors_allocated env (config (pdev v0)))"
  define v0' where "v0' = v0\<lparr>nr_vectors := n, msi_vectors := []\<rparr>"
  obtain w1 v1 fds where c: "foldl (msi_vector_create env is_msix)
      ((w0\<lparr>msi_vectors_block := ALLOCATED\<rparr>, v0'), []) [0 ..< n] = ((w1, v1), fds)"
    by (cases "foldl (msi_vector_create env is_msix)
      ((w0\<lparr>msi_vectors_block := ALLOCATED\<rparr>, v0'), []) [0 ..< n]") auto
  have ev: "enable_msi_vectors env s is_msix = ((w1, v1), fds)"
    by (simp add: enable_msi_vectors_def d Let_def n_def[symmetric] v0'_def[symmetric] c)
  note cl = create_loop[OF c]
  have nv: "nr_vectors v1 = n" using cl by (simp add: v0'_def)
  obtain k where io: "k_set_eventfds env (kern w1) is_msix (int (nr_vectors v1) # fds) = (True, k)"
    using fail by (cases "k_set_eventfds env (kern w1) is_msix (int (nr_vectors v1) # fds)")
      (simp add: enable_msi_ioctl_fails_def ev)
  obtain w2 v2 where t: "foldl (\<lambda>st i. msi_vector_teardown is_msix st i (fds ! i))
                      (w1\<lparr>kern := k\<rparr>, v1) [0 ..< n] = (w2, v2)"
    by (cases "foldl (\<lambda>st i. msi_vector_teardown is_msix st i (fds ! i))
                      (w1\<lparr>kern := k\<rparr>, v1) [0 ..< n]")
  have en: "vfio_enable_msi env s is_msix =
      (w2\<lparr>msi_vectors_block := qemu_free (msi_vectors_block w2)\<rparr>,
       v2\<lparr>msi_vectors := [], nr_vectors := 0\<rparr>)"
    using ev io t nv by (cases is_msix) (simp_all add: vfio_enable_msi_def)
  note tl = teardown_loop[OF t]
  have fds: "\<forall>fd\<in>set fds. fd_handlers w2 fd = None \<and> fd \<notin> notifiers w2"
    using tl cl by (auto simp: in_set_conv_nth)
  have used: "msix_entry_used (pdev v2) = msix_entry_used (pdev v0)"
    using tl cl by (auto simp: fun_eq_iff v0'_def n_def)
  have mode: "interrupt v2 = interrupt v0" using tl cl by (simp add: v0'_def)
  have m1: "interrupt v0 = INT_NONE \<or> interrupt v0 = INT_INTx"
    using disable_interrupts_mode[of env s] d by simp
  have m2: "interrupt (snd s) = INT_NONE \<or> interrupt (snd s) = INT_INTx \<Longrightarrow> interrupt v0 = INT_NONE"
    using disable_interrupts_from_intx[of s env] d by simp
  show ?thesis
    using fds used mode m1 m2 cl nv by (simp add: en ev d)
qed

theorem vfio_enable_msi_failure_unwinds_witness:
  "enable_msi_ioctl_fails example_irq_env intx_state True \<and>
   interrupt (snd intx_state) = INT_INTx \<and>
   snd (enable_msi_vectors example_irq_env intx_state True) = [11, 12] \<and>
   nr_vectors (snd (vfio_enable_msi example_irq_env intx_state True)) = 0 \<and>
   fd_handlers (fst (vfio_enable_msi example_irq_env intx_state True)) 11 = None \<and>
   fd_handlers (fst (vfio_enable_msi example_irq_env intx_state True)) 12 = None \<and>
   11 \<notin> notifiers (fst (vfio_enable_msi example_irq_env intx_state True)) \<and>
   12 \<notin> notifiers (fst (vfio_enable_msi example_irq_env intx_state True)) \<and>
   msix_entry_used (pdev (snd (vfio_enable_msi example_irq_env intx_state True))) =
     msix_entry_used (pdev (snd (vfio_disable_interrupts example_irq_env intx_state))) \<and>
   interrupt (snd (vfio_enable_msi example_irq_env intx_state True)) = INT_NONE"
proof -
  have f: "enable_msi_ioctl_fails example_irq_env intx_state True" by code_simp
  have m: "interrupt (snd intx_state) = INT_INTx" by code_simp
  have fds: "snd (enable_msi_vectors example_irq_env intx_state True) = [11, 12]" by code_simp
  note th = vfio_enable_msi_failure_unwinds[OF f, unfolded fds]
  from th m have mode: "interrupt (snd (vfio_enable_msi example_irq_env intx_state True)) = INT_NONE"
    by blast
  from th have
    "nr_vectors (snd (vfio_enable_msi example_irq_env intx_state True)) = 0"
    "\<forall>fd\<in>set [11, 12].
        fd_handlers (fst (vfio_enable_msi example_irq_env intx_state True)) fd = None \<and>
        fd \<notin> notifiers (fst (vfio_enable_msi example_irq_env intx_state True))"
    "msix_entry_used (pdev (snd (vfio_enable_msi example_irq_env intx_state True))) =
     msix_entry_used (pdev (snd (vfio_disable_interrupts example_irq_env intx_state)))"
    by blast+
  with f m fds mode show ?thesis by simp
qed

text \<open>
  The claim as the specification states it fails: from MSI mode, a failed
  attempt to enable MSI-X ends in \<^verbatim>\<open>INT_INTx\<close>, not in \<^verbatim>\<open>INT_NONE\<close>, because
  \<^verbatim>\<open>vfio_disable_msi\<close> has re-enabled INTx on the way.
\<close>

theorem enable_msi_failure_leaves_intx:
  "interrupt (snd msi_state) = INT_MSI \<and>
   enable_msi_ioctl_fails example_irq_env msi_state True \<and>
   nr_vectors (snd (vfio_enable_msi example_irq_env msi_state True)) = 0 \<and>
   interrupt (snd (vfio_enable_msi example_irq_env msi_state True)) = INT_INTx"
  by code_simp


section \<open>Resource mapper: proofs\<close>

lemma space_bit: "(b :: u32) AND PCI_BASE_ADDRESS_SPACE = PCI_BASE_ADDRESS_SPACE_MEMORY \<or>
   b AND PCI_BASE_ADDRESS_SPACE = PCI_BASE_ADDRESS_SPACE_IO"
  by (cases "even b")
    (simp_all add: PCI_BASE_ADDRESS_SPACE_def PCI_BASE_ADDRESS_SPACE_MEMORY_def
      PCI_BASE_ADDRESS_SPACE_IO_def and_one_eq even_iff_mod_2_eq_zero odd_iff_mod_2_eq_one)

lemma map_direct_frame:
  "map_direct env i len res w = (ok, res1, w1) \<Longrightarrow>
   valid res1 = valid res \<and> res_size res1 = res_size res \<and> map_kern w1 = map_kern w"
  by (auto simp: map_direct_def Let_def qemu_ram_alloc_from_ptr_def
      split: if_splits option.splits prod.splits bool.splits)

lemma set_resource_simps [simp]:
  "resources (set_resource i r vdev) = (resources vdev)[i := r]"
  "pdev (set_resource i r vdev) = pdev vdev"
  "resources (pci_register_bar j sz ty f vdev) = resources vdev"
  "io_regions (pdev (pci_register_bar j sz ty f vdev)) =
     (io_regions (pdev vdev))(j \<mapsto> \<lparr>region_size = sz, region_type = ty, region_map = f\<rparr>)"
  by (simp_all add: set_resource_def pci_register_bar_def)

lemma map_bar_slot:
  assumes run: "vfio_map_bar env (w, vdev) i = (r, (w', vdev'), skip)"
    and i: "i < length (resources vdev)"
  shows "length (resources vdev') = length (resources vdev)"
    and "map_kern w' = map_kern w"
    and "\<forall>j. j \<noteq> i \<longrightarrow> resources vdev' ! j = resources vdev ! j \<and>
             io_regions (pdev vdev') j = io_regions (pdev vdev) j"
    and "k_get_bar_len env (map_kern w) i = Some 0 \<longrightarrow>
           valid (resources vdev' ! i) = valid (resources vdev ! i) \<and>
           io_regions (pdev vdev') i = io_regions (pdev vdev) i"
    and "valid (resources vdev' ! i) \<and> \<not> valid (resources vdev ! i) \<longrightarrow>
           (\<exists>len. k_get_bar_len env (map_kern w) i = Some len \<and> len \<noteq> 0 \<and>
                  res_size (resources vdev' ! i) = len)"
    and "io_regions (pdev vdev') i \<noteq> io_regions (pdev vdev) i \<longrightarrow>
           (\<exists>len. k_get_bar_len env (map_kern w) i = Some len \<and> len \<noteq> 0)"
proof -
  let ?res0 = "(resources vdev ! i)\<lparr>res_vfiofd := vfiofd vdev, bar := i\<rparr>"
  show "length (resources vdev') = length (resources vdev)"
    using run
    by (auto simp: vfio_map_bar_def Let_def cpu_register_io_memory_def
        split: option.splits if_splits prod.splits bool.splits)
  show "map_kern w' = map_kern w"
    using run
    by (auto simp: vfio_map_bar_def Let_def cpu_register_io_memory_def
        split: option.splits if_splits prod.splits bool.splits dest: map_direct_frame)
  show "\<forall>j. j \<noteq> i \<longrightarrow> resources vdev' ! j = resources vdev ! j \<and>
             io_regions (pdev vdev') j = io_regions (pdev vdev) j"
    using run
    by (auto simp: vfio_map_bar_def Let_def cpu_register_io_memory_def
        split: option.splits if_splits prod.splits bool.splits)
  show "k_get_bar_len env (map_kern w) i = Some 0 \<longrightarrow>
           valid (resources vdev' ! i) = valid (resources vdev ! i) \<and>
           io_regions (pdev vdev') i = io_regions (pdev vdev) i"
    using run i
    by (auto simp: vfio_map_bar_def Let_def)
  show "valid (resources vdev' ! i) \<and> \<not> valid (resources vdev ! i) \<longrightarrow>
           (\<exists>len. k_get_bar_len env (map_kern w) i = Some len \<and> len \<noteq> 0 \<and>
                  res_size (resources vdev' ! i) = len)"
    using run i space_bit
    by (auto simp: vfio_map_bar_def Let_def cpu_register_io_memory_def
        split: option.splits if_splits prod.splits bool.splits dest: map_direct_frame)
  show "io_regions (pdev vdev') i \<noteq> io_regions (pdev vdev) i \<longrightarrow>
           (\<exists>len. k_get_bar_len env (map_kern w) i = Some len \<and> len \<noteq> 0)"
    using run i
    by (auto simp: vfio_map_bar_def Let_def cpu_register_io_memory_def
        split: option.splits if_splits prod.splits bool.splits)
qed


lemma slot_same_ok: "slot_same vdev vdev' j \<Longrightarrow> slot_ok env k vdev vdev' j"
  by (simp add: slot_ok_def slot_same_def)

lemma slot_ok_same: "slot_ok env k vdev vdev1 j \<Longrightarrow> slot_same vdev1 vdev' j \<Longrightarrow> slot_ok env k vdev vdev' j"
  by (simp add: slot_ok_def slot_same_def)

lemma slot_same_then_ok: "slot_same vdev vdev1 j \<Longrightarrow> slot_ok env k vdev1 vdev' j \<Longrightarrow> slot_ok env k vdev vdev' j"
  by (simp add: slot_ok_def slot_same_def)

lemma slot_same_trans: "slot_same vdev vdev1 j \<Longrightarrow> slot_same vdev1 vdev' j \<Longrightarrow> slot_same vdev vdev' j"
  by (simp add: slot_same_def)

lemma map_bar_step:
  assumes run: "vfio_map_bar env (w, vdev) i = (r, (w', vdev'), skip)"
    and i: "i < length (resources vdev)"
  shows "length (resources vdev') = length (resources vdev)"
    and "map_kern w' = map_kern w"
    and "j \<noteq> i \<Longrightarrow> slot_same vdev vdev' j"
    and "slot_ok env (map_kern w) vdev vdev' i"
  using map_bar_slot[OF run i] by (auto simp: slot_ok_def slot_same_def)

lemma map_resources_loop_inv:
  "map_resources_loop env s i = (rc, s') \<Longrightarrow>
   length (resources (snd s)) = PCI_ROM_SLOT \<Longrightarrow>
   length (resources (snd s')) = PCI_ROM_SLOT \<and> map_kern (fst s') = map_kern (fst s) \<and>
   (\<forall>j. (j < i \<longrightarrow> slot_same (snd s) (snd s') j) \<and>
        slot_ok env (map_kern (fst s)) (snd s) (snd s') j)"
proof (induction "PCI_ROM_SLOT - i" arbitrary: i s rule: less_induct)
  case less
  obtain w vdev where s: "s = (w, vdev)" by (cases s)
  obtain w' vdev' where s': "s' = (w', vdev')" by (cases s')
  note run = less.prems(1)[unfolded s s' map_resources_loop.simps[of env "(w, vdev)" i]]
  have len: "length (resources vdev) = PCI_ROM_SLOT" using less.prems(2) s by simp
  show ?case
  proof (cases "PCI_ROM_SLOT \<le> i")
    case True
    with run len show ?thesis
      by (auto simp: s s' slot_same_def slot_ok_def)
  next
    case False
    obtain r w1 vdev1 skip where step: "vfio_map_bar env (w, vdev) i = (r, (w1, vdev1), skip)"
      by (metis prod.exhaust)
    from False len have i: "i < length (resources vdev)" by simp
    note st = map_bar_step[OF step i]
    show ?thesis
    proof (cases r)
      case (Some x)
      with run False step have "w' = w1" "vdev' = vdev1" by simp_all
      have "slot_ok env (map_kern w) vdev vdev1 j" for j
        using st(3)[of j] st(4) by (cases "j = i") (auto intro: slot_same_ok)
      moreover have "slot_same vdev vdev1 j" if "j < i" for j
        using st(3)[of j] that by simp
      ultimately show ?thesis
        using st(1,2) len \<open>w' = w1\<close> \<open>vdev' = vdev1\<close> by (simp add: s s')
    next
      case None
      let ?i' = "if skip then Suc (Suc i) else Suc i"
      from run False step None
      have run': "map_resources_loop env (w1, vdev1) ?i' = (rc, s')" by (simp add: s')
      from st(1) len have len1: "length (resources vdev1) = PCI_ROM_SLOT" by simp
      have ih: "length (resources vdev') = PCI_ROM_SLOT \<and> map_kern w' = map_kern w1 \<and>
        (\<forall>j. (j < ?i' \<longrightarrow> slot_same vdev1 vdev' j) \<and> slot_ok env (map_kern w1) vdev1 vdev' j)"
        using less.hyps[of ?i' "(w1, vdev1)"] False run' len1
        by (simp add: s' split: if_splits)
      have "slot_same vdev vdev' j" if "j < i" for j
        using that ih st(3)[of j] by (auto intro: slot_same_trans)
      moreover have "slot_ok env (map_kern w) vdev vdev' j" for j
      proof (cases "j = i")
        case True
        then have "slot_same vdev1 vdev' j" using ih by simp
        with st(4) True show ?thesis by (auto intro: slot_ok_same)
      next
        case False
        then have "slot_same vdev vdev1 j" by (rule st(3))
        moreover have "slot_ok env (map_kern w) vdev1 vdev' j" using ih st(2) by simp
        ultimately show ?thesis by (rule slot_same_then_ok)
      qed
      ultimately show ?thesis using ih st(2) by (simp add: s s')
    qed
  qed
qed


lemmas map_eval =
  vfio_map_resources_def map_resources_loop.simps vfio_map_bar_def map_direct_def
  example_map_env_def map_world0_def example_bars_def msix_bar_vdev_def example_vdev_def
  zero_resource_def set_resource_def pci_register_bar_def qemu_ram_alloc_from_ptr_def
  cpu_register_io_memory_def bar_name_def mem_type_def mapped_state_def
  PCI_ROM_SLOT_def PCI_BASE_ADDRESS_0_def PCI_BASE_ADDRESS_SPACE_def
  PCI_BASE_ADDRESS_SPACE_IO_def PCI_BASE_ADDRESS_SPACE_MEMORY_def
  PCI_BASE_ADDRESS_MEM_TYPE_64_def PCI_BASE_ADDRESS_MEM_PREFETCH_def MSIX_PAGE_SIZE_def
  Let_def

lemma replicate_6: "replicate 6 x = [x, x, x, x, x, x]"
  by (simp add: numeral_eq_Suc)

text \<open>
  Claim C9. Let \<^verbatim>\<open>vfio_map_resources\<close> run on a device with its six resource
  descriptors, whatever it returns, and let \<open>j\<close> be a BAR slot. If the kernel
  reports length zero for slot \<open>j\<close>, the run leaves the descriptor's \<open>valid\<close>
  flag as it was (false, on the zeroed descriptors the device starts with)
  and does not register the BAR with the PCI framework (the entry of
  \<open>io_regions\<close> is untouched). Conversely, a descriptor that the run marks
  valid, and a BAR that the run registers, has a reported length that is not
  zero, and the descriptor records that length as its size.
\<close>

theorem vfio_map_resources_zero_length_bar:
  assumes "vfio_map_resources env (w, vdev) = (rc, (w', vdev'))"
    and "length (resources vdev) = PCI_ROM_SLOT"
    and "j < PCI_ROM_SLOT"
  shows "(k_get_bar_len env (map_kern w) j = Some 0 \<longrightarrow>
            valid (resources vdev' ! j) = valid (resources vdev ! j) \<and>
            io_regions (pdev vdev') j = io_regions (pdev vdev) j) \<and>
         (valid (resources vdev' ! j) \<and> \<not> valid (resources vdev ! j) \<longrightarrow>
            (\<exists>len. k_get_bar_len env (map_kern w) j = Some len \<and> len \<noteq> 0 \<and>
                   res_size (resources vdev' ! j) = len)) \<and>
         (io_regions (pdev vdev') j \<noteq> io_regions (pdev vdev) j \<longrightarrow>
            (\<exists>len. k_get_bar_len env (map_kern w) j = Some len \<and> len \<noteq> 0))"
proof -
  from assms(1) have "map_resources_loop env (w, vdev) 0 = (rc, (w', vdev'))"
    by (simp add: vfio_map_resources_def)
  from map_resources_loop_inv[OF this] assms(2)
  have "slot_ok env (map_kern w) vdev vdev' j" by simp
  then show ?thesis unfolding slot_ok_def by blast
qed

theorem vfio_map_resources_zero_length_bar_witness:
  "k_get_bar_len example_map_env (example_bars 0x2000) 1 = Some 0 \<and>
   fst (vfio_map_resources example_map_env
          (map_world0 (example_bars 0x2000), msix_bar_vdev)) = 0 \<and>
   \<not> valid (resources (snd (mapped_state 0x2000)) ! 1) \<and>
   io_regions (pdev (snd (mapped_state 0x2000))) 1 = None \<and>
   valid (resources (snd (mapped_state 0x2000)) ! 0) \<and>
   k_get_bar_len example_map_env (example_bars 0x2000) 0 = Some 0x2000 \<and>
   res_size (resources (snd (mapped_state 0x2000)) ! 0) = 0x2000"
proof -
  let ?w = "map_world0 (example_bars 0x2000)"
  let ?run = "vfio_map_resources example_map_env (?w, msix_bar_vdev)"
  have run: "?run = (fst ?run, (fst (mapped_state 0x2000), snd (mapped_state 0x2000)))"
    by (simp add: mapped_state_def)
  have len: "length (resources msix_bar_vdev) = PCI_ROM_SLOT"
    by (simp add: msix_bar_vdev_def PCI_ROM_SLOT_def)
  have k: "map_kern ?w = example_bars 0x2000"
    by (simp add: map_world0_def)
  have l1: "k_get_bar_len example_map_env (example_bars 0x2000) 1 = Some 0"
    and l0: "k_get_bar_len example_map_env (example_bars 0x2000) 0 = Some 0x2000"
    by (simp_all add: example_map_env_def example_bars_def)
  have before: "\<not> valid (resources msix_bar_vdev ! 1)" "\<not> valid (resources msix_bar_vdev ! 0)"
    "io_regions (pdev msix_bar_vdev) 1 = None"
    by (simp_all add: msix_bar_vdev_def example_vdev_def example_pdev_def zero_resource_def
        replicate_6)
  have rc: "fst ?run = 0"
    by (simp add: map_eval replicate_6)
  have v0: "valid (resources (snd (mapped_state 0x2000)) ! 0)"
    by (simp add: map_eval replicate_6)
  have s1: "1 < PCI_ROM_SLOT" "0 < PCI_ROM_SLOT" by (simp_all add: PCI_ROM_SLOT_def)
  from vfio_map_resources_zero_length_bar[OF run len s1(1)] l1 before k
  have a: "\<not> valid (resources (snd (mapped_state 0x2000)) ! 1)"
    "io_regions (pdev (snd (mapped_state 0x2000))) 1 = None"
    by simp_all
  from vfio_map_resources_zero_length_bar[OF run len s1(2)] l0 before v0 k
  have b: "res_size (resources (snd (mapped_state 0x2000)) ! 0) = 0x2000"
    by simp
  from a b l1 l0 rc v0 show ?thesis by simp
qed










lemma direct_regions_register:
  "direct_regions (cpu_register_physical_memory start sz b w) =
     direct_regions w @
       (if is_direct b then [\<lparr>region_start = start, region_len = sz, region_backing = b\<rparr>] else [])"
  by (simp add: direct_regions_def cpu_register_physical_memory_def)
















end
